theory Spec2Isabelle
  imports Main "HOL-Library.Sublist" "HOL-Library.List_Lexorder" "HOL-Library.AList"
begin

section \<open>JavaScript values\<close>

text \<open>
  A JavaScript string is a sequence of UTF-16 code units; \<open>length\<close>, \<open>trim\<close>,
  \<open>startsWith\<close> and the default \<open>sort\<close> all work on code units. A code unit is a
  natural number here, and an ASCII literal of the source is written \<open>js ''...''\<close>.
\<close>

type_synonym jsstring = "nat list"

definition js :: "string \<Rightarrow> jsstring" where
  "js s = map of_char s"

text \<open>
  Truthiness of an optional string (\<open>undefined\<close>, \<open>null\<close> and \<open>""\<close> are falsy) and
  of an optional number (\<open>undefined\<close> and \<open>0\<close> are falsy).
\<close>

definition truthy :: "jsstring option \<Rightarrow> bool" where
  "truthy v = (case v of None \<Rightarrow> False | Some s \<Rightarrow> s \<noteq> [])"

definition truthy_num :: "int option \<Rightarrow> bool" where
  "truthy_num v = (case v of None \<Rightarrow> False | Some n \<Rightarrow> n \<noteq> 0)"

text \<open>
  \<open>String.prototype.trim\<close> removes WhiteSpace and LineTerminator code units from both
  ends: TAB, LF, VT, FF, CR, SP, NBSP, U+1680, U+2000 to U+200A, U+2028, U+2029, U+202F,
  U+205F, U+3000 and U+FEFF.
\<close>

definition is_js_space :: "nat \<Rightarrow> bool" where
  "is_js_space c =
     (c = 9 \<or> c = 10 \<or> c = 11 \<or> c = 12 \<or> c = 13 \<or> c = 32 \<or> c = 160 \<or> c = 5760 \<or>
      (8192 \<le> c \<and> c \<le> 8202) \<or> c = 8232 \<or> c = 8233 \<or> c = 8239 \<or> c = 8287 \<or>
      c = 12288 \<or> c = 65279)"

definition trim :: "jsstring \<Rightarrow> jsstring" where
  "trim s = rev (dropWhile is_js_space (rev (dropWhile is_js_space s)))"

section \<open>The webhook payload (typeform.ts)\<close>

text \<open>
  \<open>TypeformWebhookPayload\<close>. Optional members are options. A number answer is kept as
  the text \<open>String(a.number)\<close>, the only way the code reads it besides \<open>typeof\<close>.
  \<open>choice_label\<close> is \<open>a.choice?.label\<close> and \<open>choices_labels\<close> is \<open>a.choices?.labels\<close>.
  \<open>hidden\<close> lists the object's own entries in \<open>Object.entries\<close> order. The handler
  reads \<open>payload.form_response?.token\<close> and \<open>?.form_id\<close>, so these two are options; a
  delivery with no \<open>form_response\<close> at all has both absent.
\<close>

record answer =
  a_type :: jsstring
  field_id :: jsstring
  field_ref :: "jsstring option"
  a_text :: "jsstring option"
  a_email :: "jsstring option"
  a_phone_number :: "jsstring option"
  a_boolean :: "bool option"
  a_number :: "jsstring option"
  a_date :: "jsstring option"
  choice_label :: "jsstring option"
  choices_labels :: "jsstring list option"

record field_definition =
  def_id :: jsstring
  def_ref :: "jsstring option"
  def_title :: "jsstring option"

record form_response =
  form_id :: "jsstring option"
  token :: "jsstring option"
  landing_id :: "jsstring option"
  submitted_at :: "jsstring option"
  hidden :: "(jsstring \<times> jsstring) list option"
  definition_fields :: "field_definition list option"
  answers :: "answer list option"

record payload =
  event_id :: "jsstring option"
  event_type :: "jsstring option"
  form_response :: form_response

text \<open>\<open>payload.form_response.answers ?? []\<close> and \<open>payload.form_response.hidden ?? {}\<close>.\<close>

definition answers_of :: "payload \<Rightarrow> answer list" where
  "answers_of p = (case answers (form_response p) of None \<Rightarrow> [] | Some xs \<Rightarrow> xs)"

definition hidden_of :: "payload \<Rightarrow> (jsstring \<times> jsstring) list" where
  "hidden_of p = (case hidden (form_response p) of None \<Rightarrow> [] | Some h \<Rightarrow> h)"

subsection \<open>extractContactBits\<close>

record contact_bits =
  c_name :: "jsstring option"
  c_email :: "jsstring option"
  c_phone :: "jsstring option"

text \<open>The body of the loop over the answers: each slot is filled while it is falsy.\<close>

definition scan_answer :: "contact_bits \<Rightarrow> answer \<Rightarrow> contact_bits" where
  "scan_answer c a =
     \<lparr> c_name =
         (case a_text a of
            None \<Rightarrow> c_name c
          | Some t \<Rightarrow>
              if \<not> truthy (c_name c) \<and> a_type a = js ''text'' \<and> t \<noteq> [] \<and> 1 < length (trim t)
              then Some (trim t) else c_name c),
       c_email = (if \<not> truthy (c_email c) \<and> truthy (a_email a) then a_email a else c_email c),
       c_phone =
         (if \<not> truthy (c_phone c) \<and> truthy (a_phone_number a) then a_phone_number a
          else c_phone c) \<rparr>"

definition fill_from_hidden :: "jsstring option \<Rightarrow> jsstring option \<Rightarrow> jsstring option" where
  "fill_from_hidden slot h = (if \<not> truthy slot \<and> truthy h then h else slot)"

definition extractContactBits :: "payload \<Rightarrow> contact_bits" where
  "extractContactBits p =
     (let c = foldl scan_answer \<lparr> c_name = None, c_email = None, c_phone = None \<rparr> (answers_of p);
          h = map_of (hidden_of p)
      in \<lparr> c_name = fill_from_hidden (c_name c) (h (js ''name'')),
           c_email = fill_from_hidden (c_email c) (h (js ''email'')),
           c_phone = fill_from_hidden (c_phone c) (h (js ''phone'')) \<rparr>)"

text \<open>
  What the claim says each slot is: the value of the first qualifying answer, else the
  hidden parameter when it has a value, else absent.
\<close>

definition names_contact :: "answer \<Rightarrow> bool" where
  "names_contact a =
     (case a_text a of
        None \<Rightarrow> False
      | Some t \<Rightarrow> a_type a = js ''text'' \<and> t \<noteq> [] \<and> 1 < length (trim t))"

definition answers_then_hidden ::
  "(answer \<Rightarrow> bool) \<Rightarrow> (answer \<Rightarrow> jsstring option) \<Rightarrow> answer list \<Rightarrow> jsstring option \<Rightarrow>
   jsstring option" where
  "answers_then_hidden qualifies read xs h =
     (case find qualifies xs of
        Some a \<Rightarrow> read a
      | None \<Rightarrow> if truthy h then h else None)"


subsection \<open>stringifyAnswers\<close>

text \<open>
  \<open>Array.prototype.join\<close>, and a JavaScript \<open>Map\<close> as the list of its entries in
  insertion order: \<open>AList.update\<close> replaces the value of a key that is there, in place,
  and appends a new key at the end, as \<open>Map.prototype.set\<close> does.
\<close>

fun join :: "jsstring \<Rightarrow> jsstring list \<Rightarrow> jsstring" where
  "join sep [] = []"
| "join sep [x] = x"
| "join sep (x # y # ys) = x @ sep @ join sep (y # ys)"

definition title_step ::
  "(jsstring \<times> jsstring) list \<Rightarrow> field_definition \<Rightarrow> (jsstring \<times> jsstring) list" where
  "title_step m f =
     (case def_title f of
        None \<Rightarrow> m
      | Some title \<Rightarrow>
          if title = [] then m
          else
            (let m1 = (case def_ref f of
                         None \<Rightarrow> m
                       | Some r \<Rightarrow> if r = [] then m else AList.update r title m)
             in if def_id f = [] then m1 else AList.update (def_id f) title m1))"

definition answer_key :: "answer \<Rightarrow> jsstring" where
  "answer_key a = (case field_ref a of Some r \<Rightarrow> r | None \<Rightarrow> field_id a)"

definition summary_value :: "answer \<Rightarrow> jsstring" where
  "summary_value a =
     (case (if truthy (a_text a) then a_text a
            else if truthy (a_email a) then a_email a
            else if truthy (a_phone_number a) then a_phone_number a
            else case a_boolean a of
              Some b \<Rightarrow> Some (if b then js ''true'' else js ''false'')
            | None \<Rightarrow>
               (case a_number a of
                  Some n \<Rightarrow> Some n
                | None \<Rightarrow>
                    if truthy (a_date a) then a_date a
                    else if truthy (choice_label a) then choice_label a
                    else (case choices_labels a of
                            Some (l # ls) \<Rightarrow> Some (join (js '', '') (l # ls))
                          | _ \<Rightarrow> None))) of
        Some v \<Rightarrow> v
      | None \<Rightarrow> js ''(unsupported)'')"

text \<open>
  The hidden keys are sorted by the default comparator (code-unit order, the
  lexicographic order of the lists here); the keys of an object are distinct, so sorting
  the entries by key lists \<open>hidden[k]\<close> for the sorted keys.
\<close>

definition stringifyAnswers :: "payload \<Rightarrow> jsstring" where
  "stringifyAnswers p =
     (let titleByKey =
            foldl title_step []
              (case definition_fields (form_response p) of None \<Rightarrow> [] | Some fs \<Rightarrow> fs);
          parts =
            map (\<lambda>a. (case map_of titleByKey (answer_key a) of
                         Some t \<Rightarrow> t
                       | None \<Rightarrow> answer_key a) @ js '': '' @ summary_value a)
              (answers_of p);
          h = hidden_of p
      in join [10]
           (parts @
            (if h = [] then []
             else [[], js ''hidden:''] @ map (\<lambda>(k, v). k @ js '': '' @ v) (sort_key fst h))))"

section \<open>The field mapper (mapping.ts)\<close>

text \<open>
  \<open>HIDDEN_TO_LEAD_FIELD_ID[k]\<close> reads a plain object, so a key that names a member of
  \<open>Object.prototype\<close> finds that member (a function or an object, which is truthy) and
  the loop goes on with it as its \<open>fieldId\<close>. A target field is therefore a number of
  the table or, for such a key, the inherited member.
\<close>

datatype field_key = FieldNum int | ProtoMember jsstring

definition HIDDEN_TO_LEAD_FIELD_ID :: "(jsstring \<times> int) list" where
  "HIDDEN_TO_LEAD_FIELD_ID =
     [(js ''utm_content'', 214691), (js ''utm_medium'', 214693), (js ''utm_campaign'', 214695),
      (js ''utm_source'', 214697), (js ''utm_term'', 214699), (js ''utm_referrer'', 214701),
      (js ''roistat'', 214703), (js ''referrer'', 214705), (js ''openstat_service'', 214707),
      (js ''openstat_campaign'', 214709), (js ''openstat_ad'', 214711),
      (js ''openstat_source'', 214713), (js ''from'', 214715), (js ''gclientid'', 214717),
      (js ''_ym_uid'', 214719), (js ''_ym_counter'', 214721), (js ''gclid'', 214723),
      (js ''yclid'', 214725), (js ''fbclid'', 214727)]"

definition object_prototype_members :: "jsstring list" where
  "object_prototype_members =
     map js [''constructor'', ''__defineGetter__'', ''__defineSetter__'', ''hasOwnProperty'',
       ''__lookupGetter__'', ''__lookupSetter__'', ''isPrototypeOf'', ''propertyIsEnumerable'',
       ''toString'', ''valueOf'', ''__proto__'', ''toLocaleString'']"

definition hidden_lead_field :: "jsstring \<Rightarrow> field_key option" where
  "hidden_lead_field k =
     (case map_of HIDDEN_TO_LEAD_FIELD_ID k of
        Some n \<Rightarrow> Some (FieldNum n)
      | None \<Rightarrow> if k \<in> set object_prototype_members then Some (ProtoMember k) else None)"

text \<open>
  \<open>TYPEFORM_FIELD_MAP\<close>: unset or empty, a JSON object of the declared type
  \<open>Record<string, {entity, fieldId}>\<close> (its own entries; an inherited member has no
  \<open>entity\<close> and is skipped by the loop), or text that \<open>JSON.parse\<close> rejects.
\<close>

record field_mapping =
  entity :: jsstring
  fieldId :: int

datatype field_map_setting =
    FieldMapUnset
  | FieldMapJson "(jsstring \<times> field_mapping) list"
  | FieldMapMalformed

datatype error =
    NoAccessToken
  | RefreshFailed nat jsstring
  | ContactCreateFailed nat jsstring
  | NoCreatedContactId
  | ContactUpdateFailed nat jsstring
  | LeadCreateFailed nat jsstring
  | NoCreatedLeadId
  | LinkFailed nat jsstring
  | NoteCreateFailed nat jsstring
  | LeadUpdateFailed nat jsstring
  | FetchRejected
  | JsonRejected
  | NotNullViolation
  | InvalidTimestamp
  | FieldMapSyntaxError

definition parseFieldMap :: "field_map_setting \<Rightarrow> error + (jsstring \<times> field_mapping) list" where
  "parseFieldMap raw =
     (case raw of
        FieldMapUnset \<Rightarrow> Inr []
      | FieldMapJson table \<Rightarrow> Inr table
      | FieldMapMalformed \<Rightarrow> Inl FieldMapSyntaxError)"

definition DEFAULT_REFS_fullName :: "jsstring list" where
  "DEFAULT_REFS_fullName =
     [js ''fd704be3-ad3e-4290-b60d-7f975b55ae84'', js ''3e231887-ca36-4afd-aefa-119d3c7e710d'']"

definition DEFAULT_REFS_childName :: "jsstring list" where
  "DEFAULT_REFS_childName =
     [js ''8c517346-f61c-4275-ae57-1a088af15cfe'', js ''2fa4a64a-dac4-4ace-98a3-18419435d831'']"

definition DEFAULT_REFS_childDob :: "jsstring list" where
  "DEFAULT_REFS_childDob =
     [js ''d35af5e7-1255-485c-a445-d49d2c682fd2'', js ''98e1c79c-bdb2-4534-bf70-5894ed7e9c2b'']"

definition DEFAULT_REFS_desiredProgram :: "jsstring list" where
  "DEFAULT_REFS_desiredProgram =
     [js ''f1da7df1-b0b0-4fc7-8cd4-0bf95cfdcd2b'', js ''c90719d9-e6d8-4fbe-9d4b-c05953644281'']"

definition DEFAULT_REFS_currentEducation :: "jsstring list" where
  "DEFAULT_REFS_currentEducation =
     [js ''658c6abe-395a-4362-9124-6304202d443b'', js ''b1a6060f-4d88-4be0-ae79-8944452c3c1a'']"

definition LEAD_FIELD_fullName :: int where "LEAD_FIELD_fullName = 985897"
definition LEAD_FIELD_childName1 :: int where "LEAD_FIELD_childName1 = 995889"
definition LEAD_FIELD_childDob1 :: int where "LEAD_FIELD_childDob1 = 995891"
definition LEAD_FIELD_desiredProgram :: int where "LEAD_FIELD_desiredProgram = 995887"
definition LEAD_FIELD_currentEducation :: int where "LEAD_FIELD_currentEducation = 985895"

text \<open>The test \<open>/^\d{4}-\d{2}-\d{2}$/\<close>: digits are the code units 48 to 57, the hyphen is 45.\<close>

definition is_digit :: "nat \<Rightarrow> bool" where
  "is_digit c = (48 \<le> c \<and> c \<le> 57)"

definition is_iso_date :: "jsstring \<Rightarrow> bool" where
  "is_iso_date s =
     (length s = 10 \<and> list_all is_digit (take 4 s) \<and> s ! 4 = 45 \<and>
      list_all is_digit (take 2 (drop 5 s)) \<and> s ! 7 = 45 \<and> list_all is_digit (drop 8 s))"

definition toAmoDateTime :: "jsstring option \<Rightarrow> jsstring option" where
  "toAmoDateTime v =
     (case v of
        None \<Rightarrow> None
      | Some d \<Rightarrow>
          if d = [] then None
          else (let s = trim d in
                if \<not> is_iso_date s then Some s else Some (s @ js ''T00:00:00+00:00'')))"

definition getAnswerString :: "answer \<Rightarrow> jsstring option" where
  "getAnswerString a =
     (if truthy (a_text a) then a_text a
      else if truthy (a_email a) then a_email a
      else if truthy (a_phone_number a) then a_phone_number a
      else case a_boolean a of
        Some b \<Rightarrow> Some (if b then js ''true'' else js ''false'')
      | None \<Rightarrow>
         (case a_number a of
            Some n \<Rightarrow> Some n
          | None \<Rightarrow>
              if truthy (a_date a) then toAmoDateTime (a_date a)
              else if truthy (choice_label a) then choice_label a
              else (case choices_labels a of
                      Some (l # ls) \<Rightarrow> Some (join (js '', '') (l # ls))
                    | _ \<Rightarrow> None)))"

text \<open>
  \<open>mapDesiredProgramEnum\<close>. The Unicode table behind \<open>toLowerCase\<close> is a parameter.
  The last pattern is the Cyrillic literal of the source, as code units.
\<close>

definition mapDesiredProgramEnum :: "(jsstring \<Rightarrow> jsstring) \<Rightarrow> jsstring option \<Rightarrow> int option" where
  "mapDesiredProgramEnum toLowerCase label =
     (case label of
        None \<Rightarrow> None
      | Some l \<Rightarrow>
          if l = [] then None
          else (let s = toLowerCase (trim l) in
                if prefix (js ''ib kg'') s then Some 1222831
                else if prefix (js ''pyp'') s then Some 1222835
                else if prefix (js ''myp'') s then Some 1222835
                else if prefix (js ''dp'') s then Some 1222835
                else if sublist (js ''not sure'') s then Some 1222837
                else if sublist [1085, 1077, 32, 1091, 1074, 1077, 1088, 1077, 1085] s
                then Some 1222837
                else None))"

text \<open>
  One element of the result: \<open>{field_id, values: [{value?, enum_id?}]}\<close>. \<open>put\<close> is the
  inner function of \<open>buildLeadCustomFields\<close>, with the map \<open>outByFieldId\<close> passed along.
\<close>

record lead_custom_field =
  cf_field_id :: field_key
  cf_value :: "jsstring option"
  cf_enum_id :: "int option"

type_synonym cf_map = "(field_key \<times> lead_custom_field) list"

definition put :: "field_key \<Rightarrow> jsstring option \<Rightarrow> int option \<Rightarrow> cf_map \<Rightarrow> cf_map" where
  "put key v enumId out =
     (if (case v of None \<Rightarrow> True | Some s \<Rightarrow> trim s = []) \<and> enumId = None then out
      else AList.update key
             \<lparr> cf_field_id = key,
               cf_value = (if truthy v then map_option trim v else None),
               cf_enum_id = (if truthy_num enumId then enumId else None) \<rparr> out)"

text \<open>The three loops, each over its own list, in the order of the source.\<close>

definition hidden_step :: "cf_map \<Rightarrow> jsstring \<times> jsstring \<Rightarrow> cf_map" where
  "hidden_step out kv =
     (case hidden_lead_field (fst kv) of
        None \<Rightarrow> out
      | Some key \<Rightarrow> if trim (snd kv) = [] then out else put key (Some (snd kv)) None out)"

definition static_step :: "(jsstring \<Rightarrow> jsstring) \<Rightarrow> cf_map \<Rightarrow> answer \<Rightarrow> cf_map" where
  "static_step toLowerCase out a =
     (let k = answer_key a;
          o1 = (if k \<in> set DEFAULT_REFS_fullName
                then put (FieldNum LEAD_FIELD_fullName) (a_text a) None out else out);
          o2 = (if k \<in> set DEFAULT_REFS_childName
                then put (FieldNum LEAD_FIELD_childName1) (a_text a) None o1 else o1);
          o3 = (if k \<in> set DEFAULT_REFS_childDob
                then put (FieldNum LEAD_FIELD_childDob1) (toAmoDateTime (a_date a)) None o2
                else o2);
          o4 = (if k \<in> set DEFAULT_REFS_desiredProgram
                then put (FieldNum LEAD_FIELD_desiredProgram) None
                       (mapDesiredProgramEnum toLowerCase (choice_label a)) o3
                else o3)
      in if k \<in> set DEFAULT_REFS_currentEducation
         then put (FieldNum LEAD_FIELD_currentEducation) (choice_label a) None o4 else o4)"

definition dynamic_step :: "(jsstring \<times> field_mapping) list \<Rightarrow> cf_map \<Rightarrow> answer \<Rightarrow> cf_map" where
  "dynamic_step table out a =
     (case map_of table (answer_key a) of
        None \<Rightarrow> out
      | Some m \<Rightarrow>
          if entity m \<noteq> js ''lead'' then out
          else put (FieldNum (fieldId m)) (getAnswerString a) None out)"

definition buildLeadCustomFields ::
  "(jsstring \<Rightarrow> jsstring) \<Rightarrow> field_map_setting \<Rightarrow> payload \<Rightarrow> error + lead_custom_field list" where
  "buildLeadCustomFields toLowerCase raw p =
     (let o1 = foldl hidden_step [] (hidden_of p);
          o2 = foldl (static_step toLowerCase) o1 (answers_of p)
      in case parseFieldMap raw of
           Inl e \<Rightarrow> Inl e
         | Inr table \<Rightarrow> Inr (map snd (foldl (dynamic_step table) o2 (answers_of p))))"


section \<open>The persistence layer (db.ts)\<close>

text \<open>
  A row of \<open>typeform_submissions\<close>. The columns \<open>id\<close> and \<open>created_at\<close> are never
  read and are left out. \<open>amo_lead_id\<close> and \<open>amo_contact_id\<close> are the BIGINT values;
  the driver hands them over as decimal text, which is truthy whenever the column is not
  null and which \<open>Number\<close> turns back into the value (ids are taken to be below
  \<open>2^53\<close>). \<open>submitted_at\<close> is the stored instant, in milliseconds since the epoch.
\<close>

record submission_row =
  r_form_id :: jsstring
  response_token :: jsstring
  r_landing_id :: "jsstring option"
  r_submitted_at :: "int option"
  last_event_id :: "jsstring option"
  last_event_type :: "jsstring option"
  amo_lead_id :: "int option"
  amo_contact_id :: "int option"
  last_payload :: "payload option"
  updated_at :: nat

record upsert_params =
  formId :: jsstring
  responseToken :: jsstring
  landingId :: "jsstring option"
  submittedAt :: "jsstring option"
  lastEventId :: "jsstring option"
  lastEventType :: "jsstring option"
  amoLeadId :: "int option"
  amoContactId :: "int option"
  lastPayload :: payload

text \<open>\<open>COALESCE(EXCLUDED.x, typeform_submissions.x)\<close>.\<close>

definition coalesce :: "'a option \<Rightarrow> 'a option \<Rightarrow> 'a option" where
  "coalesce new old = (case new of Some v \<Rightarrow> Some v | None \<Rightarrow> old)"

text \<open>
  \<open>submittedAt ? new Date(submittedAt) : null\<close> bound to the TIMESTAMPTZ parameter
  \<open>$4\<close>. It is null for an absent and for the empty text. Otherwise the text goes
  through the runtime's date parser, whose result the driver sends to the database; a text
  that is no date gives an Invalid Date, which the database refuses, and the query fails.
  The parser, the driver and the database are not part of the repository, so their
  composition is the parameter \<open>inst\<close>: the instant the column would store for
  a text, or none when the bound value is refused.
\<close>

type_synonym date_binding = "jsstring \<Rightarrow> int option"

definition bind_submitted_at :: "date_binding \<Rightarrow> jsstring option \<Rightarrow> error + int option" where
  "bind_submitted_at inst given =
     (case given of
        None \<Rightarrow> Inr None
      | Some s \<Rightarrow>
          if s = [] then Inr None
          else (case inst s of None \<Rightarrow> Inl InvalidTimestamp | Some i \<Rightarrow> Inr (Some i)))"

text \<open>
  The values bound to \<open>$1 .. $9\<close>, with the instant \<open>at\<close> for \<open>$4\<close>:
  \<open>x ?? null\<close> keeps every defined value.
\<close>

definition excluded_row :: "upsert_params \<Rightarrow> int option \<Rightarrow> nat \<Rightarrow> submission_row" where
  "excluded_row u at now =
     \<lparr> r_form_id = formId u,
       response_token = responseToken u,
       r_landing_id = landingId u,
       r_submitted_at = at,
       last_event_id = lastEventId u,
       last_event_type = lastEventType u,
       amo_lead_id = amoLeadId u,
       amo_contact_id = amoContactId u,
       last_payload = Some (lastPayload u),
       updated_at = now \<rparr>"

definition on_conflict_update :: "submission_row \<Rightarrow> submission_row \<Rightarrow> submission_row" where
  "on_conflict_update excluded old =
     \<lparr> r_form_id = r_form_id excluded,
       response_token = response_token old,
       r_landing_id = coalesce (r_landing_id excluded) (r_landing_id old),
       r_submitted_at = coalesce (r_submitted_at excluded) (r_submitted_at old),
       last_event_id = coalesce (last_event_id excluded) (last_event_id old),
       last_event_type = coalesce (last_event_type excluded) (last_event_type old),
       amo_lead_id = coalesce (amo_lead_id excluded) (amo_lead_id old),
       amo_contact_id = coalesce (amo_contact_id excluded) (amo_contact_id old),
       last_payload = last_payload excluded,
       updated_at = updated_at excluded \<rparr>"

text \<open>\<open>INSERT ... ON CONFLICT (response_token) DO UPDATE\<close> over the rows of the table.\<close>

fun insert_on_conflict :: "submission_row \<Rightarrow> submission_row list \<Rightarrow> submission_row list" where
  "insert_on_conflict e [] = [e]"
| "insert_on_conflict e (r # rs) =
     (if response_token r = response_token e then on_conflict_update e r # rs
      else r # insert_on_conflict e rs)"

text \<open>
  \<open>ORDER BY updated_at DESC LIMIT 1\<close>; among rows with the same \<open>updated_at\<close> the
  database may return any one, and the model returns the first of them in table order.
\<close>

definition latest_of :: "submission_row list \<Rightarrow> submission_row option" where
  "latest_of rs =
     (case rs of
        [] \<Rightarrow> None
      | r # rest \<Rightarrow>
          Some (foldl (\<lambda>best x. if updated_at best < updated_at x then x else best) r rest))"

section \<open>The world: database, remote CRM, console\<close>

text \<open>
  The requests the client sends. The resource is the path under \<open>config.baseUrl\<close>; the
  body is the JSON text by its content. A \<open>custom_fields_values\<close> list that is empty
  stands for the key being left out.
\<close>

datatype http_method = POST | PATCH

datatype resource = OAuthAccessToken | Contacts | Leads | LeadLink int | LeadNotes int

record contact_custom_field =
  ccf_field_id :: int
  ccf_value :: jsstring
  ccf_enum_id :: int

datatype request_body =
    RefreshBody "jsstring option" "jsstring option" jsstring "jsstring option"
  | ContactCreateBody jsstring "contact_custom_field list"
  | ContactPatchBody int "jsstring option" "contact_custom_field list"
  | LeadCreateBody jsstring int "int option"
  | LinkBody int
  | NoteBody jsstring
  | LeadPatchBody int "lead_custom_field list"

record http_request =
  rq_method :: http_method
  rq_base :: jsstring
  rq_resource :: resource
  rq_bearer :: "jsstring option"
  rq_body :: request_body

text \<open>
  What the client reads of a response: the status, the text of the body, and of its JSON
  (absent when \<open>res.json()\<close> rejects) the members \<open>_embedded?.contacts?.[0]?.id\<close>,
  \<open>_embedded?.leads?.[0]?.id\<close>, \<open>access_token\<close> and \<open>refresh_token\<close>.
\<close>

record json_reply =
  first_contact_id :: "int option"
  first_lead_id :: "int option"
  j_access_token :: "jsstring option"
  j_refresh_token :: "jsstring option"

record http_response =
  rs_status :: nat
  rs_text :: jsstring
  rs_json :: "json_reply option"

definition res_ok :: "http_response \<Rightarrow> bool" where
  "res_ok res = (200 \<le> rs_status res \<and> rs_status res \<le> 299)"

datatype log_line =
    Webhook_received "jsstring option" "jsstring option" jsstring jsstring "jsstring option"
  | Webhook_deduped "jsstring option" jsstring jsstring "int option"
  | Webhook_processed "jsstring option" jsstring jsstring int "int option"
  | Webhook_error error

text \<open>
  The state a delivery runs in: the two tables, the database clock behind \<open>NOW()\<close>
  (it moves on with every upsert), the remote CRM with the log of every \<open>fetch\<close> (the
  request and the response, or none when \<open>fetch\<close> rejects), and the console. The remote
  is any state machine \<open>srv\<close>. The database answers every query but an insert whose
  values it refuses: a null for \<open>kv_store.value\<close>, a refused \<open>submitted_at\<close>.
\<close>

record 'r world =
  kv_store :: "jsstring \<rightharpoonup> jsstring"
  submissions :: "submission_row list"
  clock :: nat
  remote :: 'r
  exchanges :: "(http_request \<times> http_response option) list"
  console :: "log_line list"

type_synonym 'r server = "'r \<Rightarrow> http_request \<Rightarrow> http_response option \<times> 'r"

type_synonym ('a, 'r) io = "'r world \<Rightarrow> (error + 'a) \<times> 'r world"

definition ret :: "'a \<Rightarrow> ('a, 'r) io" where
  "ret x w = (Inr x, w)"

definition throw :: "error \<Rightarrow> ('a, 'r) io" where
  "throw e w = (Inl e, w)"

definition await :: "('a, 'r) io \<Rightarrow> ('a \<Rightarrow> ('b, 'r) io) \<Rightarrow> ('b, 'r) io" where
  "await m f w = (case m w of (Inl e, w') \<Rightarrow> (Inl e, w') | (Inr x, w') \<Rightarrow> f x w')"

definition fetch :: "'r server \<Rightarrow> http_request \<Rightarrow> (http_response, 'r) io" where
  "fetch srv rq w =
     (case srv (remote w) rq of
        (res, r') \<Rightarrow>
          ((case res of None \<Rightarrow> Inl FetchRejected | Some rs \<Rightarrow> Inr rs),
           w\<lparr> remote := r', exchanges := exchanges w @ [(rq, res)] \<rparr>))"

definition res_json :: "http_response \<Rightarrow> (json_reply, 'r) io" where
  "res_json res = (case rs_json res of None \<Rightarrow> throw JsonRejected | Some j \<Rightarrow> ret j)"

definition console_log :: "log_line \<Rightarrow> (unit, 'r) io" where
  "console_log l w = (Inr (), w\<lparr> console := console w @ [l] \<rparr>)"

subsection \<open>kv\_store and typeform\_submissions\<close>

text \<open>\<open>kv_store.value\<close> is \<open>NOT NULL\<close>: binding \<open>undefined\<close> makes the insert fail.\<close>

definition kvGet :: "jsstring \<Rightarrow> (jsstring option, 'r) io" where
  "kvGet k w = (Inr (kv_store w k), w)"

definition kvSet :: "jsstring \<Rightarrow> jsstring option \<Rightarrow> (unit, 'r) io" where
  "kvSet k v w =
     (case v of
        None \<Rightarrow> (Inl NotNullViolation, w)
      | Some s \<Rightarrow> (Inr (), w\<lparr> kv_store := (kv_store w)(k \<mapsto> s) \<rparr>))"

definition getSubmissionByToken :: "jsstring \<Rightarrow> (submission_row option, 'r) io" where
  "getSubmissionByToken t w = (Inr (find (\<lambda>r. response_token r = t) (submissions w)), w)"

definition getLatestSubmissionByLandingId ::
  "jsstring \<Rightarrow> jsstring \<Rightarrow> (submission_row option, 'r) io" where
  "getLatestSubmissionByLandingId f l w =
     (Inr (latest_of (filter (\<lambda>r. r_form_id r = f \<and> r_landing_id r = Some l) (submissions w))),
      w)"

text \<open>
  The one query of \<open>upsertSubmission\<close>: it fails, writing nothing, when the value bound
  for \<open>submitted_at\<close> is refused.
\<close>

definition upsertSubmission :: "date_binding \<Rightarrow> upsert_params \<Rightarrow> (unit, 'r) io" where
  "upsertSubmission inst u w =
     (case bind_submitted_at inst (submittedAt u) of
        Inl e \<Rightarrow> (Inl e, w)
      | Inr at \<Rightarrow>
          (Inr (),
           w\<lparr> submissions := insert_on_conflict (excluded_row u at (clock w)) (submissions w),
              clock := Suc (clock w) \<rparr>))"


section \<open>The CRM client (amocrm.ts)\<close>

record amo_config =
  baseUrl :: jsstring
  clientId :: "jsstring option"
  clientSecret :: "jsstring option"
  redirectUri :: "jsstring option"
  accessToken :: "jsstring option"
  refreshToken :: "jsstring option"
  pipelineId :: int
  initialStatusId :: "int option"

definition KV_ACCESS :: jsstring where
  "KV_ACCESS = js ''amocrm.access_token''"

definition KV_REFRESH :: jsstring where
  "KV_REFRESH = js ''amocrm.refresh_token''"

text \<open>The value of an optional string where it is truthy.\<close>

definition nonempty :: "jsstring option \<Rightarrow> jsstring option" where
  "nonempty v = (case v of None \<Rightarrow> None | Some s \<Rightarrow> if s = [] then None else Some s)"

definition getAccessToken :: "amo_config \<Rightarrow> (jsstring, 'r) io" where
  "getAccessToken config =
     await (kvGet KV_ACCESS) (\<lambda>fromDb.
       case nonempty fromDb of
         Some t \<Rightarrow> ret t
       | None \<Rightarrow>
          (case nonempty (accessToken config) of
             Some t \<Rightarrow> ret t
           | None \<Rightarrow> throw NoAccessToken))"

definition maybeRefresh :: "'r server \<Rightarrow> amo_config \<Rightarrow> (unit, 'r) io" where
  "maybeRefresh srv config =
     (if \<not> (truthy (clientId config) \<and> truthy (clientSecret config) \<and> truthy (redirectUri config))
      then ret ()
      else
        await (kvGet KV_REFRESH) (\<lambda>fromDb.
          case nonempty (case fromDb of Some t \<Rightarrow> Some t | None \<Rightarrow> refreshToken config) of
            None \<Rightarrow> ret ()
          | Some rt \<Rightarrow>
              await (fetch srv
                       \<lparr> rq_method = POST, rq_base = baseUrl config,
                         rq_resource = OAuthAccessToken, rq_bearer = None,
                         rq_body = RefreshBody (clientId config) (clientSecret config) rt
                                     (redirectUri config) \<rparr>) (\<lambda>res.
                if \<not> res_ok res then throw (RefreshFailed (rs_status res) (rs_text res))
                else
                  await (res_json res) (\<lambda>json.
                  await (kvSet KV_ACCESS (j_access_token json)) (\<lambda>_.
                  kvSet KV_REFRESH (j_refresh_token json))))))"

text \<open>
  \<open>amoFetch\<close> takes the request as \<open>input\<close> and \<open>init\<close> give it and adds the
  \<open>authorization\<close> header. It calls itself once more, with \<open>retryOn401\<close> false.
\<close>

function amoFetch :: "'r server \<Rightarrow> amo_config \<Rightarrow> http_request \<Rightarrow> bool \<Rightarrow> (http_response, 'r) io" where
  "amoFetch srv config rq retryOn401 w =
     (case getAccessToken config w of
        (Inl e, w1) \<Rightarrow> (Inl e, w1)
      | (Inr t, w1) \<Rightarrow>
         (case fetch srv (rq\<lparr> rq_bearer := Some t \<rparr>) w1 of
            (Inl e, w2) \<Rightarrow> (Inl e, w2)
          | (Inr res, w2) \<Rightarrow>
              if rs_status res = 401 \<and> retryOn401
              then (case maybeRefresh srv config w2 of
                      (Inl e, w3) \<Rightarrow> (Inl e, w3)
                    | (Inr _, w3) \<Rightarrow> amoFetch srv config rq False w3)
              else (Inr res, w2)))"
  by pat_completeness auto
termination
  by (relation "measure (\<lambda>(srv, config, rq, retryOn401, w). if retryOn401 then 1 else 0)") auto

declare amoFetch.simps [simp del]

definition buildContactCustomFields ::
  "jsstring option \<Rightarrow> jsstring option \<Rightarrow> contact_custom_field list" where
  "buildContactCustomFields phone email =
     (case nonempty phone of
        None \<Rightarrow> []
      | Some p \<Rightarrow> [\<lparr> ccf_field_id = 214683, ccf_value = p, ccf_enum_id = 115921 \<rparr>]) @
     (case nonempty email of
        None \<Rightarrow> []
      | Some e \<Rightarrow> [\<lparr> ccf_field_id = 214685, ccf_value = e, ccf_enum_id = 115933 \<rparr>])"

definition crm_request :: "amo_config \<Rightarrow> http_method \<Rightarrow> resource \<Rightarrow> request_body \<Rightarrow> http_request" where
  "crm_request config m r b =
     \<lparr> rq_method = m, rq_base = baseUrl config, rq_resource = r, rq_bearer = None, rq_body = b \<rparr>"

definition createContact ::
  "'r server \<Rightarrow> amo_config \<Rightarrow> jsstring option \<Rightarrow> jsstring option \<Rightarrow> jsstring option \<Rightarrow> (int, 'r) io" where
  "createContact srv config name email phone =
     await (amoFetch srv config
              (crm_request config POST Contacts
                 (ContactCreateBody
                    (case name of
                       Some n \<Rightarrow> n
                     | None \<Rightarrow>
                        (case email of
                           Some e \<Rightarrow> e
                         | None \<Rightarrow> (case phone of Some p \<Rightarrow> p | None \<Rightarrow> js ''Typeform contact'')))
                    (buildContactCustomFields phone email))) True) (\<lambda>res.
       if \<not> res_ok res then throw (ContactCreateFailed (rs_status res) (rs_text res))
       else
         await (res_json res) (\<lambda>json.
           case first_contact_id json of
             None \<Rightarrow> throw NoCreatedContactId
           | Some c \<Rightarrow> if c = 0 then throw NoCreatedContactId else ret c))"

definition updateContact ::
  "'r server \<Rightarrow> amo_config \<Rightarrow> int \<Rightarrow> jsstring option \<Rightarrow> jsstring option \<Rightarrow> jsstring option \<Rightarrow>
   (unit, 'r) io" where
  "updateContact srv config contactId name email phone =
     (let customFieldsValues = buildContactCustomFields phone email in
      if \<not> truthy name \<and> customFieldsValues = [] then ret ()
      else
        await (amoFetch srv config
                 (crm_request config PATCH Contacts
                    (ContactPatchBody contactId (nonempty name) customFieldsValues)) True) (\<lambda>res.
          if \<not> res_ok res then throw (ContactUpdateFailed (rs_status res) (rs_text res))
          else ret ()))"

definition createLead :: "'r server \<Rightarrow> amo_config \<Rightarrow> jsstring \<Rightarrow> (int, 'r) io" where
  "createLead srv config name =
     await (amoFetch srv config
              (crm_request config POST Leads
                 (LeadCreateBody name (pipelineId config)
                    (if truthy_num (initialStatusId config) then initialStatusId config else None)))
              True) (\<lambda>res.
       if \<not> res_ok res then throw (LeadCreateFailed (rs_status res) (rs_text res))
       else
         await (res_json res) (\<lambda>json.
           case first_lead_id json of
             None \<Rightarrow> throw NoCreatedLeadId
           | Some l \<Rightarrow> if l = 0 then throw NoCreatedLeadId else ret l))"

definition linkLeadToContact :: "'r server \<Rightarrow> amo_config \<Rightarrow> int \<Rightarrow> int \<Rightarrow> (unit, 'r) io" where
  "linkLeadToContact srv config leadId contactId =
     await (amoFetch srv config (crm_request config POST (LeadLink leadId) (LinkBody contactId))
              True) (\<lambda>res.
       if \<not> res_ok res then throw (LinkFailed (rs_status res) (rs_text res)) else ret ())"

definition addLeadNote :: "'r server \<Rightarrow> amo_config \<Rightarrow> int \<Rightarrow> jsstring \<Rightarrow> (unit, 'r) io" where
  "addLeadNote srv config leadId txt =
     await (amoFetch srv config (crm_request config POST (LeadNotes leadId) (NoteBody txt)) True)
       (\<lambda>res.
       if \<not> res_ok res then throw (NoteCreateFailed (rs_status res) (rs_text res)) else ret ())"

definition updateLeadCustomFields ::
  "'r server \<Rightarrow> amo_config \<Rightarrow> int \<Rightarrow> lead_custom_field list \<Rightarrow> (unit, 'r) io" where
  "updateLeadCustomFields srv config leadId customFields =
     (if customFields = [] then ret ()
      else
        await (amoFetch srv config
                 (crm_request config PATCH Leads (LeadPatchBody leadId customFields)) True) (\<lambda>res.
          if \<not> res_ok res then throw (LeadUpdateFailed (rs_status res) (rs_text res))
          else ret ()))"

record amo_result =
  leadId :: int
  contactId :: "int option"

definition lead_name :: "contact_bits \<Rightarrow> jsstring" where
  "lead_name contact =
     js ''Typeform: '' @
     (case c_email contact of
        Some e \<Rightarrow> e
      | None \<Rightarrow> (case c_phone contact of Some p \<Rightarrow> p | None \<Rightarrow> js ''submission''))"

definition createOrUpdateByTypeform ::
  "'r server \<Rightarrow> amo_config \<Rightarrow> int option \<Rightarrow> int option \<Rightarrow> jsstring \<Rightarrow>
   lead_custom_field list option \<Rightarrow> contact_bits \<Rightarrow> (amo_result, 'r) io" where
  "createOrUpdateByTypeform srv config existingLeadId existingContactId typeformSummary
     leadCustomFields contact =
     await (case existingLeadId of
              Some l \<Rightarrow> ret l
            | None \<Rightarrow> createLead srv config (lead_name contact)) (\<lambda>lead.
     let isNewLead = \<not> truthy_num existingLeadId;
         hasContactBits =
           (truthy (c_email contact) \<or> truthy (c_phone contact) \<or> truthy (c_name contact))
     in
     await (if isNewLead
            then (if hasContactBits
                  then await (createContact srv config (c_name contact) (c_email contact)
                                (c_phone contact)) (\<lambda>c. ret (Some c))
                  else ret None)
            else
              await (if \<not> truthy_num existingContactId \<and> hasContactBits
                     then await (createContact srv config (c_name contact) (c_email contact)
                                   (c_phone contact)) (\<lambda>c. ret (Some c))
                     else ret existingContactId) (\<lambda>cid.
                case cid of
                  None \<Rightarrow> ret cid
                | Some c \<Rightarrow>
                    if c \<noteq> 0 \<and> hasContactBits
                    then await (updateContact srv config c (c_name contact) (c_email contact)
                                  (c_phone contact)) (\<lambda>_. ret cid)
                    else ret cid)) (\<lambda>cid.
     await (case cid of
              None \<Rightarrow> ret ()
            | Some c \<Rightarrow> if c \<noteq> 0 then linkLeadToContact srv config lead c else ret ()) (\<lambda>_.
     await (case leadCustomFields of
              None \<Rightarrow> ret ()
            | Some fs \<Rightarrow>
                if fs \<noteq> [] then updateLeadCustomFields srv config lead fs else ret ()) (\<lambda>_.
     await (addLeadNote srv config lead typeformSummary) (\<lambda>_.
     ret \<lparr> leadId = lead, contactId = cid \<rparr>)))))"

section \<open>The webhook handler (index.ts)\<close>

text \<open>
  The handler from the parsed payload on: the signature check and \<open>JSON.parse\<close> of the
  body come before it and touch nothing of the world. The reply is the status and the
  members of the JSON body; an \<open>undefined\<close> member is absent from it.
\<close>

datatype failure = Invalid_payload | Thrown error

record reply =
  http_status :: nat
  ok :: bool
  reply_leadId :: "int option"
  reply_contactId :: "int option"
  reply_error :: "failure option"

record app_env =
  amocrm :: amo_config
  toLowerCase :: "jsstring \<Rightarrow> jsstring"
  TYPEFORM_FIELD_MAP :: field_map_setting
  to_instant :: date_binding

text \<open>The test of the \<open>if\<close> that short-circuits a duplicate.\<close>

definition is_duplicate :: "submission_row option \<Rightarrow> payload \<Rightarrow> bool" where
  "is_duplicate existing p =
     (case existing of
        None \<Rightarrow> False
      | Some ex \<Rightarrow> truthy (event_id p) \<and> last_event_id ex = event_id p)"

definition lift :: "error + 'a \<Rightarrow> ('a, 'r) io" where
  "lift v = (case v of Inl e \<Rightarrow> throw e | Inr x \<Rightarrow> ret x)"

text \<open>The body of the \<open>try\<close> block.\<close>

definition webhook_try :: "'r server \<Rightarrow> app_env \<Rightarrow> payload \<Rightarrow> (reply, 'r) io" where
  "webhook_try srv env p =
     (case (nonempty (token (form_response p)), nonempty (form_id (form_response p))) of
        (Some tok, Some fid) \<Rightarrow>
          await (console_log
                   (Webhook_received (event_id p) (event_type p) fid tok
                      (landing_id (form_response p)))) (\<lambda>_.
          await (getSubmissionByToken tok) (\<lambda>existingByToken.
          await (case existingByToken of
                   Some ex \<Rightarrow> ret (Some ex)
                 | None \<Rightarrow>
                    (case nonempty (landing_id (form_response p)) of
                       Some l \<Rightarrow> getLatestSubmissionByLandingId fid l
                     | None \<Rightarrow> ret None)) (\<lambda>existing.
          if is_duplicate existing p
          then
            await (console_log
                     (Webhook_deduped (event_id p) fid tok
                        (case existing of None \<Rightarrow> None | Some ex \<Rightarrow> amo_lead_id ex))) (\<lambda>_.
            ret \<lparr> http_status = 200, ok = True,
                  reply_leadId = (case existing of None \<Rightarrow> None | Some ex \<Rightarrow> amo_lead_id ex),
                  reply_contactId = None, reply_error = None \<rparr>)
          else
            (let typeformSummary = stringifyAnswers p;
                 contact = extractContactBits p
             in
             await (lift (buildLeadCustomFields (toLowerCase env) (TYPEFORM_FIELD_MAP env) p))
               (\<lambda>leadCustomFields.
             await (createOrUpdateByTypeform srv (amocrm env)
                      (case existing of None \<Rightarrow> None | Some ex \<Rightarrow> amo_lead_id ex)
                      (case existing of None \<Rightarrow> None | Some ex \<Rightarrow> amo_contact_id ex)
                      typeformSummary (Some leadCustomFields) contact) (\<lambda>r.
             await (upsertSubmission (to_instant env)
                      \<lparr> formId = fid, responseToken = tok,
                        landingId = landing_id (form_response p),
                        submittedAt = submitted_at (form_response p),
                        lastEventId = event_id p, lastEventType = event_type p,
                        amoLeadId = Some (leadId r), amoContactId = contactId r,
                        lastPayload = p \<rparr>) (\<lambda>_.
             await (console_log
                      (Webhook_processed (event_id p) fid tok (leadId r) (contactId r))) (\<lambda>_.
             ret \<lparr> http_status = 200, ok = True, reply_leadId = Some (leadId r),
                   reply_contactId = contactId r, reply_error = None \<rparr>))))))))
      | _ \<Rightarrow>
          ret \<lparr> http_status = 400, ok = False, reply_leadId = None, reply_contactId = None,
                reply_error = Some Invalid_payload \<rparr>)"

text \<open>The \<open>catch\<close>: the error is logged and answered with status 500.\<close>

definition typeform_webhook :: "'r server \<Rightarrow> app_env \<Rightarrow> payload \<Rightarrow> 'r world \<Rightarrow> reply \<times> 'r world" where
  "typeform_webhook srv env p w =
     (case webhook_try srv env p w of
        (Inr r, w') \<Rightarrow> (r, w')
      | (Inl e, w') \<Rightarrow>
          (\<lparr> http_status = 500, ok = False, reply_leadId = None, reply_contactId = None,
             reply_error = Some (Thrown e) \<rparr>,
           w'\<lparr> console := console w' @ [Webhook_error e] \<rparr>))"

section \<open>Sequences of upserts\<close>

text \<open>Any sequence of upsert calls, and whether the row of a token has a lead id.\<close>

definition run_upserts :: "date_binding \<Rightarrow> upsert_params list \<Rightarrow> 'r world \<Rightarrow> 'r world" where
  "run_upserts inst us w = foldl (\<lambda>w' u. snd (upsertSubmission inst u w')) w us"

definition lead_known :: "jsstring \<Rightarrow> submission_row list \<Rightarrow> bool" where
  "lead_known t rows =
     (case find (\<lambda>r. response_token r = t) rows of
        None \<Rightarrow> False
      | Some r \<Rightarrow> amo_lead_id r \<noteq> None)"


section \<open>Concrete inputs\<close>

text \<open>
  A delivery for token \<open>T1\<close> of form \<open>F1\<close> with event id \<open>E2\<close>: one e-mail answer
  and the hidden parameter \<open>utm_source=ads\<close>.
\<close>

definition answer_email :: answer where
  "answer_email =
     \<lparr> a_type = js ''email'', field_id = js ''q1'', field_ref = Some (js ''r1''),
       a_text = None, a_email = Some (js ''a@b''), a_phone_number = None, a_boolean = None,
       a_number = None, a_date = None, choice_label = None, choices_labels = None \<rparr>"

definition payload_E2 :: payload where
  "payload_E2 =
     \<lparr> event_id = Some (js ''E2''), event_type = Some (js ''form_response''),
       form_response =
         \<lparr> form_id = Some (js ''F1''), token = Some (js ''T1''), landing_id = None,
           submitted_at = None, hidden = Some [(js ''utm_source'', js ''ads'')],
           definition_fields = None, answers = Some [answer_email] \<rparr> \<rparr>"

text \<open>
  The ledger row of token \<open>T1\<close> after event \<open>E1\<close>: lead 501 and no contact. The world
  \<open>ledger_501\<close> holds that row and an access token; its remote is a counter.
\<close>

definition row_501 :: submission_row where
  "row_501 =
     \<lparr> r_form_id = js ''F1'', response_token = js ''T1'', r_landing_id = Some (js ''L1''),
       r_submitted_at = Some 1704067200000, last_event_id = Some (js ''E1''),
       last_event_type = Some (js ''form_response''), amo_lead_id = Some 501,
       amo_contact_id = None, last_payload = None, updated_at = 0 \<rparr>"

definition ledger_501 :: "nat world" where
  "ledger_501 =
     \<lparr> kv_store = [KV_ACCESS \<mapsto> js ''tok''], submissions = [row_501], clock = 1, remote = 0,
       exchanges = [], console = [] \<rparr>"

text \<open>
  A date binding that knows the text \<open>2024-01-02\<close> and refuses every other. An upsert
  for \<open>T1\<close> that gives a contact id and a form id and nothing else, the same with that
  date, and the same with a text that is no date.
\<close>

definition one_date :: date_binding where
  "one_date s = (if s = js ''2024-01-02'' then Some 1704153600000 else None)"

definition sparse_upsert :: upsert_params where
  "sparse_upsert =
     \<lparr> formId = js ''F2'', responseToken = js ''T1'', landingId = None, submittedAt = Some [],
       lastEventId = None, lastEventType = None, amoLeadId = None, amoContactId = Some 77,
       lastPayload = payload_E2 \<rparr>"

definition dated_upsert :: upsert_params where
  "dated_upsert = sparse_upsert\<lparr> submittedAt := Some (js ''2024-01-02'') \<rparr>"

definition misdated_upsert :: upsert_params where
  "misdated_upsert = sparse_upsert\<lparr> submittedAt := Some (js ''soon'') \<rparr>"

section \<open>The field mapper as an ordered rule list\<close>

text \<open>
  The claim reads \<open>buildLeadCustomFields\<close> as an ordered list of rules reduced into a
  mapping keyed by target field. A rule is one call of \<open>put\<close>: the target, the value and
  the enum id. \<open>mapping_rules\<close> lists the calls in the order the claim gives: hidden
  parameters, then the statically mapped refs, then the configured table.
\<close>

type_synonym rule = "field_key \<times> jsstring option \<times> int option"

definition hidden_rule :: "jsstring \<times> jsstring \<Rightarrow> rule list" where
  "hidden_rule kv =
     (case hidden_lead_field (fst kv) of
        None \<Rightarrow> []
      | Some key \<Rightarrow> if trim (snd kv) = [] then [] else [(key, Some (snd kv), None)])"

definition static_rules :: "(jsstring \<Rightarrow> jsstring) \<Rightarrow> answer \<Rightarrow> rule list" where
  "static_rules lc a =
     (let k = answer_key a in
      (if k \<in> set DEFAULT_REFS_fullName
       then [(FieldNum LEAD_FIELD_fullName, a_text a, None)] else []) @
      (if k \<in> set DEFAULT_REFS_childName
       then [(FieldNum LEAD_FIELD_childName1, a_text a, None)] else []) @
      (if k \<in> set DEFAULT_REFS_childDob
       then [(FieldNum LEAD_FIELD_childDob1, toAmoDateTime (a_date a), None)] else []) @
      (if k \<in> set DEFAULT_REFS_desiredProgram
       then [(FieldNum LEAD_FIELD_desiredProgram, None,
              mapDesiredProgramEnum lc (choice_label a))] else []) @
      (if k \<in> set DEFAULT_REFS_currentEducation
       then [(FieldNum LEAD_FIELD_currentEducation, choice_label a, None)] else []))"

definition dynamic_rule :: "(jsstring \<times> field_mapping) list \<Rightarrow> answer \<Rightarrow> rule list" where
  "dynamic_rule table a =
     (case map_of table (answer_key a) of
        None \<Rightarrow> []
      | Some m \<Rightarrow>
          if entity m \<noteq> js ''lead'' then []
          else [(FieldNum (fieldId m), getAnswerString a, None)])"

definition mapping_rules ::
  "(jsstring \<Rightarrow> jsstring) \<Rightarrow> (jsstring \<times> field_mapping) list \<Rightarrow> payload \<Rightarrow> rule list" where
  "mapping_rules lc table p =
     concat (map hidden_rule (hidden_of p)) @
     concat (map (static_rules lc) (answers_of p)) @
     concat (map (dynamic_rule table) (answers_of p))"

text \<open>
  A rule takes effect unless its value is missing or blank and it has no enum id; it then
  assigns the trimmed value or the enum id. The assignment of a field is that of the last
  rule for the field that takes effect.
\<close>

definition takes_effect :: "rule \<Rightarrow> bool" where
  "takes_effect r =
     (case r of
        (k, v, e) \<Rightarrow> \<not> ((case v of None \<Rightarrow> True | Some s \<Rightarrow> trim s = []) \<and> e = None))"

definition assignment :: "rule \<Rightarrow> lead_custom_field" where
  "assignment r =
     (case r of
        (k, v, e) \<Rightarrow>
          \<lparr> cf_field_id = k,
            cf_value = (if truthy v then map_option trim v else None),
            cf_enum_id = (if truthy_num e then e else None) \<rparr>)"

definition last_effective :: "field_key \<Rightarrow> rule list \<Rightarrow> lead_custom_field option" where
  "last_effective f rs =
     (case rev (filter (\<lambda>r. fst r = f \<and> takes_effect r) rs) of
        [] \<Rightarrow> None
      | r # _ \<Rightarrow> Some (assignment r))"

definition apply_rule :: "cf_map \<Rightarrow> rule \<Rightarrow> cf_map" where
  "apply_rule out r = (case r of (k, v, e) \<Rightarrow> put k v e out)"

text \<open>An assignment carries a trimmed, non-empty value, or else an enum id.\<close>

definition well_formed_assignment :: "lead_custom_field \<Rightarrow> bool" where
  "well_formed_assignment c =
     (case cf_value c of
        Some v \<Rightarrow> v \<noteq> [] \<and> trim v = v
      | None \<Rightarrow> cf_enum_id c \<noteq> None)"


text \<open>Every call of \<open>put\<close> in the source passes a value or an enum id, never both.\<close>

definition one_source :: "rule \<Rightarrow> bool" where
  "one_source r = (case r of (k, v, e) \<Rightarrow> e = None \<or> (v = None \<and> e \<noteq> Some 0))"

text \<open>The configured table of the concrete inputs sends the ref \<open>r1\<close> to field 214697.\<close>

definition table_r1 :: "(jsstring \<times> field_mapping) list" where
  "table_r1 = [(js ''r1'', \<lparr> entity = js ''lead'', fieldId = 214697 \<rparr>)]"

section \<open>Observing the remote calls\<close>

text \<open>
  What a run of the client adds to the world: the exchanges \<open>xs\<close> at the end of the
  log, while the ledger, the clock and the console stay as they are.
\<close>

type_synonym exchange = "http_request \<times> http_response option"

definition crm_effect :: "'r world \<Rightarrow> 'r world \<Rightarrow> exchange list \<Rightarrow> bool" where
  "crm_effect w w' xs =
     (exchanges w' = exchanges w @ xs \<and> submissions w' = submissions w \<and> clock w' = clock w \<and>
      console w' = console w)"

text \<open>
  A call is a request without its \<open>authorization\<close> header. The accepted calls of a
  log are the calls on the object API that were answered with a 2xx status.
\<close>

type_synonym call = "http_method \<times> resource \<times> request_body"

definition call_of :: "http_request \<Rightarrow> call" where
  "call_of rq = (rq_method rq, rq_resource rq, rq_body rq)"

definition is_token_request :: "exchange \<Rightarrow> bool" where
  "is_token_request x = (rq_resource (fst x) = OAuthAccessToken)"

definition is_accepted :: "exchange \<Rightarrow> bool" where
  "is_accepted x =
     (\<not> is_token_request x \<and> (case snd x of None \<Rightarrow> False | Some res \<Rightarrow> res_ok res))"

definition accepted :: "exchange list \<Rightarrow> call list" where
  "accepted xs = map (\<lambda>x. call_of (fst x)) (filter is_accepted xs)"

text \<open>
  The retry policy in the words of the claim: one attempt with the current token; on a
  401 one run of \<open>maybeRefresh\<close> and one more attempt, whose response is returned
  whatever its status.
\<close>

definition fetch_once :: "'r server \<Rightarrow> amo_config \<Rightarrow> http_request \<Rightarrow> (http_response, 'r) io" where
  "fetch_once srv config rq =
     await (getAccessToken config) (\<lambda>t. fetch srv (rq\<lparr> rq_bearer := Some t \<rparr>))"

definition retry_once :: "'r server \<Rightarrow> amo_config \<Rightarrow> http_request \<Rightarrow> (http_response, 'r) io" where
  "retry_once srv config rq =
     await (fetch_once srv config rq) (\<lambda>res.
       if rs_status res = 401
       then await (maybeRefresh srv config) (\<lambda>_. fetch_once srv config rq)
       else ret res)"


text \<open>
  The log \<open>xs\<close> of one authenticated call of request \<open>rq\<close> that returned \<open>r\<close>: besides
  token requests it holds only this call, at most one token request and at most two
  attempts; the call is accepted just when a 2xx response is returned; and a returned
  response is the answer to the last attempt.
\<close>

definition call_log :: "http_request \<Rightarrow> error + http_response \<Rightarrow> exchange list \<Rightarrow> bool" where
  "call_log rq r xs =
     ((\<forall>x \<in> set xs. is_token_request x \<or> call_of (fst x) = call_of rq) \<and>
      length (filter is_token_request xs) \<le> 1 \<and>
      length (filter (\<lambda>x. \<not> is_token_request x) xs) \<le> 2 \<and>
      accepted xs =
        (case r of Inr res \<Rightarrow> if res_ok res then [call_of rq] else [] | Inl e \<Rightarrow> []) \<and>
      (\<forall>res. r = Inr res \<longrightarrow>
         xs \<noteq> [] \<and> snd (last xs) = Some res \<and> call_of (fst (last xs)) = call_of rq))"


text \<open>
  The refresh in the words of the claim. A token request is sent only by a client that
  has all three OAuth settings and a non-empty refresh token, the stored one before the
  configured one; \<open>refresh_request\<close> is that request. \<open>token_requests\<close> are the token
  requests of a log and \<open>attempts\<close> its other exchanges; \<open>first_401\<close> says that the first
  exchange of a log was answered 401.
\<close>

definition refresh_token_for :: "amo_config \<Rightarrow> 'r world \<Rightarrow> jsstring option" where
  "refresh_token_for config w =
     (if truthy (clientId config) \<and> truthy (clientSecret config) \<and> truthy (redirectUri config)
      then nonempty (case kv_store w KV_REFRESH of Some t \<Rightarrow> Some t | None \<Rightarrow> refreshToken config)
      else None)"

definition refresh_request :: "amo_config \<Rightarrow> jsstring \<Rightarrow> http_request" where
  "refresh_request config rt =
     \<lparr> rq_method = POST, rq_base = baseUrl config, rq_resource = OAuthAccessToken,
       rq_bearer = None,
       rq_body = RefreshBody (clientId config) (clientSecret config) rt (redirectUri config) \<rparr>"

definition answered_401 :: "exchange \<Rightarrow> bool" where
  "answered_401 x = (case snd x of None \<Rightarrow> False | Some res \<Rightarrow> rs_status res = 401)"

definition token_requests :: "exchange list \<Rightarrow> http_request list" where
  "token_requests xs = map fst (filter is_token_request xs)"

definition attempts :: "exchange list \<Rightarrow> exchange list" where
  "attempts xs = filter (\<lambda>x. \<not> is_token_request x) xs"

definition first_401 :: "exchange list \<Rightarrow> bool" where
  "first_401 xs = (case xs of [] \<Rightarrow> False | x # _ \<Rightarrow> answered_401 x)"

text \<open>
  What the answer to the token request makes of the refresh: the error it raises, or the
  two tokens it stores. A rejected \<open>fetch\<close>, a status that is not 2xx, a body that is
  no JSON and a missing token (the store refuses a null value) each raise.
\<close>

definition refresh_outcome :: "http_response option \<Rightarrow> error + jsstring \<times> jsstring" where
  "refresh_outcome y =
     (case y of
        None \<Rightarrow> Inl FetchRejected
      | Some rs \<Rightarrow>
          if \<not> res_ok rs then Inl (RefreshFailed (rs_status rs) (rs_text rs))
          else
            (case rs_json rs of
               None \<Rightarrow> Inl JsonRejected
             | Some j \<Rightarrow>
                 (case j_access_token j of
                    None \<Rightarrow> Inl NotNullViolation
                  | Some a \<Rightarrow>
                      (case j_refresh_token j of
                         None \<Rightarrow> Inl NotNullViolation
                       | Some b \<Rightarrow> Inr (a, b)))))"

text \<open>
  The log \<open>xs\<close> of a call with \<open>retryOn401\<close> that went from \<open>w\<close> to \<open>w'\<close> and
  returned \<open>r\<close>. Its token requests: the one refresh request when the first attempt was
  answered 401 and the client can refresh, none otherwise. A refresh that raises makes
  the call raise the same error, with one attempt made and the token request the last
  exchange: the request is not replayed. A refresh that stores its tokens leaves them in
  the store, and when the access token is not empty the log has three exchanges, the
  last one the request replayed under the new token. And a call that returns a response
  made two attempts when the first was answered 401 and one otherwise.
\<close>

definition refresh_log ::
  "amo_config \<Rightarrow> http_request \<Rightarrow> 'r world \<Rightarrow> 'r world \<Rightarrow> error + http_response \<Rightarrow>
   exchange list \<Rightarrow> bool" where
  "refresh_log config rq w w' r xs =
     (token_requests xs =
        (if first_401 xs
         then (case refresh_token_for config w of
                 None \<Rightarrow> []
               | Some rt \<Rightarrow> [refresh_request config rt])
         else []) \<and>
      (\<forall>x e. x \<in> set xs \<and> is_token_request x \<and> refresh_outcome (snd x) = Inl e \<longrightarrow>
         r = Inl e \<and> length (attempts xs) = 1 \<and> last xs = x) \<and>
      (\<forall>x a b. x \<in> set xs \<and> is_token_request x \<and> refresh_outcome (snd x) = Inr (a, b) \<longrightarrow>
         kv_store w' = (kv_store w)(KV_ACCESS \<mapsto> a, KV_REFRESH \<mapsto> b) \<and>
         (a \<noteq> [] \<longrightarrow>
            length xs = 3 \<and> fst (last xs) = rq\<lparr> rq_bearer := Some a \<rparr>)) \<and>
      (\<forall>res. r = Inr res \<longrightarrow> length (attempts xs) = (if first_401 xs then 2 else 1)))"


section \<open>Concrete remotes\<close>

text \<open>
  A client with OAuth credentials and a refresh token, a note request, and three remotes
  (their state counts the requests): one answers every object call 401 and every token
  request 400; one answers 401 throughout but accepts the refresh; one rejects the token
  \<open>tok\<close> with 401, hands out \<open>new\<close> on refresh and then answers 200.
\<close>

definition oauth_config :: amo_config where
  "oauth_config =
     \<lparr> baseUrl = js ''https://x'', clientId = Some (js ''id''), clientSecret = Some (js ''s''),
       redirectUri = Some (js ''u''), accessToken = None, refreshToken = Some (js ''r1''),
       pipelineId = 7, initialStatusId = None \<rparr>"

definition note_request :: http_request where
  "note_request = crm_request oauth_config POST (LeadNotes 501) (NoteBody (js ''hi''))"

definition plain_response :: "nat \<Rightarrow> http_response" where
  "plain_response s = \<lparr> rs_status = s, rs_text = [], rs_json = None \<rparr>"

definition tokens_response :: http_response where
  "tokens_response =
     \<lparr> rs_status = 200, rs_text = [],
       rs_json = Some \<lparr> first_contact_id = None, first_lead_id = None,
                        j_access_token = Some (js ''new''), j_refresh_token = Some (js ''r2'') \<rparr> \<rparr>"

definition remote_refusing :: "nat server" where
  "remote_refusing n rq =
     (Some (plain_response (if rq_resource rq = OAuthAccessToken then 400 else 401)), Suc n)"

definition remote_always_401 :: "nat server" where
  "remote_always_401 n rq =
     (Some (if rq_resource rq = OAuthAccessToken then tokens_response else plain_response 401),
      Suc n)"

definition remote_expired :: "nat server" where
  "remote_expired n rq =
     (Some (if rq_resource rq = OAuthAccessToken then tokens_response
            else if rq_bearer rq = Some (js ''new'') then plain_response 200
            else plain_response 401),
      Suc n)"

section \<open>The calls of the object operations\<close>

definition lead_create_call :: "amo_config \<Rightarrow> jsstring \<Rightarrow> call" where
  "lead_create_call config name =
     (POST, Leads,
      LeadCreateBody name (pipelineId config)
        (if truthy_num (initialStatusId config) then initialStatusId config else None))"

definition contact_create_call :: "contact_bits \<Rightarrow> call" where
  "contact_create_call contact =
     (POST, Contacts,
      ContactCreateBody
        (case c_name contact of
           Some n \<Rightarrow> n
         | None \<Rightarrow>
            (case c_email contact of
               Some e \<Rightarrow> e
             | None \<Rightarrow> (case c_phone contact of Some p \<Rightarrow> p | None \<Rightarrow> js ''Typeform contact'')))
        (buildContactCustomFields (c_phone contact) (c_email contact)))"

definition contact_update_call :: "int \<Rightarrow> contact_bits \<Rightarrow> call" where
  "contact_update_call c contact =
     (PATCH, Contacts,
      ContactPatchBody c (nonempty (c_name contact))
        (buildContactCustomFields (c_phone contact) (c_email contact)))"

definition link_call :: "int \<Rightarrow> int \<Rightarrow> call" where
  "link_call l c = (POST, LeadLink l, LinkBody c)"

definition lead_update_call :: "int \<Rightarrow> lead_custom_field list \<Rightarrow> call" where
  "lead_update_call l fs = (PATCH, Leads, LeadPatchBody l fs)"

definition note_call :: "int \<Rightarrow> jsstring \<Rightarrow> call" where
  "note_call l summary = (POST, LeadNotes l, NoteBody summary)"

text \<open>
  The log of an operation that makes the call \<open>c\<close>: every exchange in it is a token
  request or an attempt of \<open>c\<close>, and \<open>c\<close> was accepted at most once. When the
  operation succeeded, \<open>c\<close> was accepted once, by the last exchange of the log.
\<close>

definition attempts_of :: "call \<Rightarrow> exchange list \<Rightarrow> bool" where
  "attempts_of c xs =
     ((\<forall>x \<in> set xs. is_token_request x \<or> call_of (fst x) = c) \<and>
      (accepted xs = [] \<or> accepted xs = [c]))"

definition accepted_last :: "call \<Rightarrow> exchange list \<Rightarrow> bool" where
  "accepted_last c xs =
     (attempts_of c xs \<and> accepted xs = [c] \<and> xs \<noteq> [] \<and> is_accepted (last xs) \<and>
      call_of (fst (last xs)) = c)"


text \<open>
  What a log says about leads and contacts: whether it holds a request that would create
  a lead (a POST on the leads collection), and how many contact creations were accepted.
\<close>

definition is_lead_create :: "call \<Rightarrow> bool" where
  "is_lead_create c = (fst c = POST \<and> fst (snd c) = Leads)"

definition is_contact_create :: "call \<Rightarrow> bool" where
  "is_contact_create c = (fst c = POST \<and> fst (snd c) = Contacts)"

definition no_lead_create :: "exchange list \<Rightarrow> bool" where
  "no_lead_create xs = (\<forall>x \<in> set xs. \<not> is_lead_create (call_of (fst x)))"

definition contacts_created :: "exchange list \<Rightarrow> nat" where
  "contacts_created xs = length (filter is_contact_create (accepted xs))"

text \<open>
  The calls a successful \<open>createOrUpdateByTypeform\<close> has had accepted, in order, given
  its arguments and its result.
\<close>

definition has_contact_bits :: "contact_bits \<Rightarrow> bool" where
  "has_contact_bits contact =
     (truthy (c_email contact) \<or> truthy (c_phone contact) \<or> truthy (c_name contact))"

definition expected_calls ::
  "amo_config \<Rightarrow> int option \<Rightarrow> int option \<Rightarrow> jsstring \<Rightarrow> lead_custom_field list option \<Rightarrow>
   contact_bits \<Rightarrow> amo_result \<Rightarrow> call list" where
  "expected_calls config existingLeadId existingContactId summary custom contact res =
     (case existingLeadId of
        None \<Rightarrow> [lead_create_call config (lead_name contact)]
      | Some l \<Rightarrow> []) @
     (if has_contact_bits contact \<and>
         (\<not> truthy_num existingLeadId \<or> \<not> truthy_num existingContactId)
      then [contact_create_call contact] else []) @
     (case contactId res of
        None \<Rightarrow> []
      | Some c \<Rightarrow>
          if c \<noteq> 0 \<and> has_contact_bits contact \<and> truthy_num existingLeadId
          then [contact_update_call c contact] else []) @
     (case contactId res of
        None \<Rightarrow> []
      | Some c \<Rightarrow> if c \<noteq> 0 then [link_call (leadId res) c] else []) @
     (case custom of
        None \<Rightarrow> []
      | Some fs \<Rightarrow> if fs \<noteq> [] then [lead_update_call (leadId res) fs] else []) @
     [note_call (leadId res) summary]"


text \<open>Every request of a log that would create a lead is the call \<open>c\<close>.\<close>

definition lead_creates_are :: "call \<Rightarrow> exchange list \<Rightarrow> bool" where
  "lead_creates_are c xs =
     (\<forall>x \<in> set xs. is_lead_create (call_of (fst x)) \<longrightarrow> call_of (fst x) = c)"

text \<open>
  What every run of \<open>createOrUpdateByTypeform\<close> keeps to, whether it succeeds or not: at
  most \<open>n\<close> contact creations were accepted, a lead creation is requested only when no
  lead id was passed in, and then only under the name \<open>c\<close> carries.
\<close>

definition bounded_log :: "int option \<Rightarrow> call \<Rightarrow> nat \<Rightarrow> exchange list \<Rightarrow> bool" where
  "bounded_log existingLeadId c n xs =
     (contacts_created xs \<le> n \<and> (existingLeadId \<noteq> None \<longrightarrow> no_lead_create xs) \<and>
      lead_creates_are c xs)"

section \<open>A remote that accepts everything\<close>

text \<open>
  It answers every request 200 with a body naming lead 900 and contact 800. The client
  \<open>static_config\<close> has no OAuth settings; the contact \<open>contact_ab\<close> has an e-mail only.
\<close>

definition created_response :: http_response where
  "created_response =
     \<lparr> rs_status = 200, rs_text = [],
       rs_json = Some \<lparr> first_contact_id = Some 800, first_lead_id = Some 900,
                        j_access_token = None, j_refresh_token = None \<rparr> \<rparr>"

definition remote_accepting :: "nat server" where
  "remote_accepting n rq = (Some created_response, Suc n)"

definition static_config :: amo_config where
  "static_config =
     \<lparr> baseUrl = js ''https://x'', clientId = None, clientSecret = None, redirectUri = None,
       accessToken = Some (js ''tok''), refreshToken = None, pipelineId = 7,
       initialStatusId = None \<rparr>"

definition contact_ab :: contact_bits where
  "contact_ab = \<lparr> c_name = None, c_email = Some (js ''a@b''), c_phone = None \<rparr>"

definition empty_world :: "nat world" where
  "empty_world =
     \<lparr> kv_store = Map.empty, submissions = [], clock = 0, remote = 0, exchanges = [],
       console = [] \<rparr>"


definition fields_ads :: "lead_custom_field list" where
  "fields_ads =
     [\<lparr> cf_field_id = FieldNum 214697, cf_value = Some (js ''ads''), cf_enum_id = None \<rparr>]"

section \<open>Observing a delivery\<close>

text \<open>
  The record the handler looks up: by token, else by form and landing id when the landing
  id is non-empty. Then the world after a console line, the first line and the upsert of a
  delivery, the reply to a thrown error, and the ids passed on from the record found.
\<close>

definition find_existing ::
  "jsstring \<Rightarrow> jsstring \<Rightarrow> jsstring option \<Rightarrow> submission_row list \<Rightarrow> submission_row option" where
  "find_existing tok fid landing rows =
     (case find (\<lambda>r. response_token r = tok) rows of
        Some ex \<Rightarrow> Some ex
      | None \<Rightarrow>
          (case nonempty landing of
             Some l \<Rightarrow> latest_of (filter (\<lambda>r. r_form_id r = fid \<and> r_landing_id r = Some l) rows)
           | None \<Rightarrow> None))"

definition logged :: "log_line \<Rightarrow> 'r world \<Rightarrow> 'r world" where
  "logged l w = w\<lparr> console := console w @ [l] \<rparr>"

definition received_line :: "payload \<Rightarrow> jsstring \<Rightarrow> jsstring \<Rightarrow> log_line" where
  "received_line p tok fid =
     Webhook_received (event_id p) (event_type p) fid tok (landing_id (form_response p))"

definition upsert_of :: "payload \<Rightarrow> jsstring \<Rightarrow> jsstring \<Rightarrow> amo_result \<Rightarrow> upsert_params" where
  "upsert_of p tok fid r =
     \<lparr> formId = fid, responseToken = tok, landingId = landing_id (form_response p),
       submittedAt = submitted_at (form_response p), lastEventId = event_id p,
       lastEventType = event_type p, amoLeadId = Some (leadId r), amoContactId = contactId r,
       lastPayload = p \<rparr>"

definition failure_reply :: "error \<Rightarrow> reply" where
  "failure_reply e =
     \<lparr> http_status = 500, ok = False, reply_leadId = None, reply_contactId = None,
       reply_error = Some (Thrown e) \<rparr>"

definition existing_lead :: "submission_row option \<Rightarrow> int option" where
  "existing_lead existing = (case existing of None \<Rightarrow> None | Some ex \<Rightarrow> amo_lead_id ex)"

definition existing_contact :: "submission_row option \<Rightarrow> int option" where
  "existing_contact existing = (case existing of None \<Rightarrow> None | Some ex \<Rightarrow> amo_contact_id ex)"


section \<open>Concrete deliveries\<close>

text \<open>
  The application with the OAuth client and the table \<open>table_r1\<close>, and one with the
  static token. \<open>payload_no_token\<close> is \<open>payload_E2\<close> without its response token.
  \<open>ledger_done\<close> is the ledger after event \<open>E2\<close> was processed for lead 501 and
  contact 77.
\<close>

definition env_oauth :: app_env where
  "env_oauth =
     \<lparr> amocrm = oauth_config, toLowerCase = id, TYPEFORM_FIELD_MAP = FieldMapJson table_r1,
       to_instant = one_date \<rparr>"

definition env_static :: app_env where
  "env_static =
     \<lparr> amocrm = static_config, toLowerCase = id, TYPEFORM_FIELD_MAP = FieldMapJson table_r1,
       to_instant = one_date \<rparr>"

definition payload_no_token :: payload where
  "payload_no_token =
     payload_E2\<lparr> form_response := (form_response payload_E2)\<lparr> token := None \<rparr> \<rparr>"

definition row_done :: submission_row where
  "row_done =
     row_501\<lparr> last_event_id := Some (js ''E2''), amo_contact_id := Some 77,
       last_payload := Some payload_E2 \<rparr>"

definition ledger_done :: "nat world" where
  "ledger_done = ledger_501\<lparr> submissions := [row_done] \<rparr>"

section \<open>Redelivery\<close>

text \<open>The same delivery made \<open>n\<close> times in a row: the replies, and the world at the end.\<close>

fun deliveries ::
  "nat \<Rightarrow> 'r server \<Rightarrow> app_env \<Rightarrow> payload \<Rightarrow> 'r world \<Rightarrow> reply list \<times> 'r world" where
  "deliveries 0 srv env p w = ([], w)"
| "deliveries (Suc n) srv env p w =
     (case typeform_webhook srv env p w of
        (rep, w1) \<Rightarrow> (case deliveries n srv env p w1 of (reps, w2) \<Rightarrow> (rep # reps, w2)))"

text \<open>Two worlds that differ in the console only.\<close>

definition same_but_console :: "'r world \<Rightarrow> 'r world \<Rightarrow> bool" where
  "same_but_console w w' =
     (kv_store w' = kv_store w \<and> submissions w' = submissions w \<and> clock w' = clock w \<and>
      remote w' = remote w \<and> exchanges w' = exchanges w)"


text \<open>\<open>payload_E2\<close> without its event id.\<close>

definition payload_no_event :: payload where
  "payload_no_event = payload_E2\<lparr> event_id := None \<rparr>"

text \<open>\<open>payload_E2\<close> submitted at a text that is no date.\<close>

definition payload_misdated :: payload where
  "payload_misdated =
     payload_E2\<lparr> form_response := (form_response payload_E2)\<lparr> submitted_at := Some (js ''soon'') \<rparr> \<rparr>"

section \<open>Truthiness\<close>

lemma truthy_simps:
  "truthy None = False" "truthy (Some s) = (s \<noteq> [])"
  by (simp_all add: truthy_def)

section \<open>extractContactBits: answers before hidden parameters\<close>

lemma scan_name_kept:
  "truthy (c_name c) \<Longrightarrow> c_name (foldl scan_answer c xs) = c_name c"
  by (induction xs arbitrary: c) (auto simp: scan_answer_def split: option.splits)

lemma scan_email_kept:
  "truthy (c_email c) \<Longrightarrow> c_email (foldl scan_answer c xs) = c_email c"
  by (induction xs arbitrary: c) (auto simp: scan_answer_def)

lemma scan_phone_kept:
  "truthy (c_phone c) \<Longrightarrow> c_phone (foldl scan_answer c xs) = c_phone c"
  by (induction xs arbitrary: c) (auto simp: scan_answer_def)

lemma slot_answers_then_hidden:
  assumes "\<And>a. find q xs = Some a \<Longrightarrow> truthy (rd a)"
  shows "fill_from_hidden (case find q xs of Some a \<Rightarrow> rd a | None \<Rightarrow> None) h =
         answers_then_hidden q rd xs h"
  using assms
  by (cases "find q xs") (simp_all add: fill_from_hidden_def answers_then_hidden_def truthy_simps)


lemma scan_email_find:
  "c_email c = None \<Longrightarrow>
   c_email (foldl scan_answer c xs) =
     (case find (\<lambda>a. truthy (a_email a)) xs of Some a \<Rightarrow> a_email a | None \<Rightarrow> None)"
proof (induction xs arbitrary: c)
  case Nil
  then show ?case by simp
next
  case (Cons a xs)
  show ?case
  proof (cases "truthy (a_email a)")
    case True
    then have "truthy (c_email (scan_answer c a))" and "c_email (scan_answer c a) = a_email a"
      using Cons.prems by (simp_all add: scan_answer_def truthy_simps)
    then show ?thesis using True by (simp add: scan_email_kept)
  next
    case False
    then have "c_email (scan_answer c a) = None"
      using Cons.prems by (simp add: scan_answer_def)
    then show ?thesis using False Cons.IH by simp
  qed
qed

lemma scan_phone_find:
  "c_phone c = None \<Longrightarrow>
   c_phone (foldl scan_answer c xs) =
     (case find (\<lambda>a. truthy (a_phone_number a)) xs of
        Some a \<Rightarrow> a_phone_number a | None \<Rightarrow> None)"
proof (induction xs arbitrary: c)
  case Nil
  then show ?case by simp
next
  case (Cons a xs)
  show ?case
  proof (cases "truthy (a_phone_number a)")
    case True
    then have "truthy (c_phone (scan_answer c a))"
      and "c_phone (scan_answer c a) = a_phone_number a"
      using Cons.prems by (simp_all add: scan_answer_def truthy_simps)
    then show ?thesis using True by (simp add: scan_phone_kept)
  next
    case False
    then have "c_phone (scan_answer c a) = None"
      using Cons.prems by (simp add: scan_answer_def)
    then show ?thesis using False Cons.IH by simp
  qed
qed

lemma scan_name_find:
  "c_name c = None \<Longrightarrow>
   c_name (foldl scan_answer c xs) =
     (case find names_contact xs of
        Some a \<Rightarrow> map_option trim (a_text a) | None \<Rightarrow> None)"
proof (induction xs arbitrary: c)
  case Nil
  then show ?case by simp
next
  case (Cons a xs)
  show ?case
  proof (cases "names_contact a")
    case True
    then have "truthy (c_name (scan_answer c a))"
      and "c_name (scan_answer c a) = map_option trim (a_text a)"
      using Cons.prems
      by (auto simp: scan_answer_def names_contact_def truthy_def split: option.splits)
    then show ?thesis using True by (simp add: scan_name_kept)
  next
    case False
    then have "c_name (scan_answer c a) = None"
      using Cons.prems by (auto simp: scan_answer_def names_contact_def split: option.splits)
    then show ?thesis using False Cons.IH by simp
  qed
qed

text \<open>
  Claim C10. For every payload, each slot of \<open>extractContactBits\<close> is what the claim
  says: the e-mail (the phone) is that of the first answer carrying a non-empty one, the
  name is the trimmed text of the first answer of type \<open>text\<close> whose trimmed text is
  longer than one code unit; the hidden parameter \<open>email\<close> (\<open>phone\<close>, \<open>name\<close>) is
  used only when no answer qualifies and it is non-empty; otherwise the slot is absent.
\<close>

theorem extractContactBits_answers_first:
  "c_email (extractContactBits p) =
     answers_then_hidden (\<lambda>a. truthy (a_email a)) a_email (answers_of p)
       (map_of (hidden_of p) (js ''email'')) \<and>
   c_phone (extractContactBits p) =
     answers_then_hidden (\<lambda>a. truthy (a_phone_number a)) a_phone_number (answers_of p)
       (map_of (hidden_of p) (js ''phone'')) \<and>
   c_name (extractContactBits p) =
     answers_then_hidden names_contact (\<lambda>a. map_option trim (a_text a)) (answers_of p)
       (map_of (hidden_of p) (js ''name''))"
proof -
  let ?c0 = "\<lparr> c_name = None, c_email = None, c_phone = None \<rparr>"
  have found: "find q xs = Some a \<Longrightarrow> q a" for q :: "answer \<Rightarrow> bool" and xs a
    by (auto simp: find_Some_iff)
  have name_truthy: "names_contact a \<Longrightarrow> truthy (map_option trim (a_text a))" for a
    by (auto simp: names_contact_def truthy_def split: option.splits)
  have "c_email (extractContactBits p) =
          fill_from_hidden (case find (\<lambda>a. truthy (a_email a)) (answers_of p) of
                              Some a \<Rightarrow> a_email a | None \<Rightarrow> None)
            (map_of (hidden_of p) (js ''email''))"
    by (simp add: extractContactBits_def Let_def scan_email_find truthy_simps)
  then have e: "c_email (extractContactBits p) =
     answers_then_hidden (\<lambda>a. truthy (a_email a)) a_email (answers_of p)
       (map_of (hidden_of p) (js ''email''))"
    using found [of "\<lambda>a. truthy (a_email a)"] by (simp add: slot_answers_then_hidden)
  have "c_phone (extractContactBits p) =
          fill_from_hidden (case find (\<lambda>a. truthy (a_phone_number a)) (answers_of p) of
                              Some a \<Rightarrow> a_phone_number a | None \<Rightarrow> None)
            (map_of (hidden_of p) (js ''phone''))"
    by (simp add: extractContactBits_def Let_def scan_phone_find truthy_simps)
  then have ph: "c_phone (extractContactBits p) =
     answers_then_hidden (\<lambda>a. truthy (a_phone_number a)) a_phone_number (answers_of p)
       (map_of (hidden_of p) (js ''phone''))"
    using found [of "\<lambda>a. truthy (a_phone_number a)"] by (simp add: slot_answers_then_hidden)
  have "c_name (extractContactBits p) =
          fill_from_hidden (case find names_contact (answers_of p) of
                              Some a \<Rightarrow> map_option trim (a_text a) | None \<Rightarrow> None)
            (map_of (hidden_of p) (js ''name''))"
    by (simp add: extractContactBits_def Let_def scan_name_find truthy_simps)
  then have n: "c_name (extractContactBits p) =
     answers_then_hidden names_contact (\<lambda>a. map_option trim (a_text a)) (answers_of p)
       (map_of (hidden_of p) (js ''name''))"
    using found [of names_contact] name_truthy by (simp add: slot_answers_then_hidden)
  from e ph n show ?thesis by simp
qed

section \<open>upsertSubmission: the merge never erases\<close>

lemma find_insert_on_conflict:
  "find (\<lambda>r. response_token r = response_token e) rows = Some old \<Longrightarrow>
   find (\<lambda>r. response_token r = response_token e) (insert_on_conflict e rows) =
     Some (on_conflict_update e old)"
  by (induction rows) (auto simp: on_conflict_update_def)

lemma find_insert_on_conflict_other:
  "t \<noteq> response_token e \<Longrightarrow>
   find (\<lambda>r. response_token r = t) (insert_on_conflict e rows) =
     find (\<lambda>r. response_token r = t) rows"
  by (induction rows) (auto simp: on_conflict_update_def)

lemma lead_known_insert_on_conflict:
  "lead_known t rows \<Longrightarrow> lead_known t (insert_on_conflict e rows)"
proof (cases "t = response_token e")
  case False
  assume "lead_known t rows"
  then show ?thesis by (simp add: lead_known_def find_insert_on_conflict_other [OF False])
next
  case True
  assume k: "lead_known t rows"
  then obtain old where old: "find (\<lambda>r. response_token r = response_token e) rows = Some old"
    and lead: "amo_lead_id old \<noteq> None"
    using True by (auto simp: lead_known_def split: option.splits)
  then show ?thesis
    using True
    by (auto simp: lead_known_def find_insert_on_conflict [OF old] on_conflict_update_def
        coalesce_def split: option.splits)
qed

lemma upsertSubmission_refused:
  assumes "submittedAt u = Some s" and "s \<noteq> []" and "inst s = None"
  shows "upsertSubmission inst u w = (Inl InvalidTimestamp, w)"
  using assms by (simp add: upsertSubmission_def bind_submitted_at_def)

lemma upsertSubmission_accepted:
  assumes "\<forall>s. submittedAt u = Some s \<and> s \<noteq> [] \<longrightarrow> inst s \<noteq> None"
  shows "upsertSubmission inst u w =
     (Inr (),
      w\<lparr> submissions :=
           insert_on_conflict
             (excluded_row u
                (case submittedAt u of
                   None \<Rightarrow> None
                 | Some s \<Rightarrow> if s = [] then None else inst s) (clock w))
             (submissions w),
         clock := Suc (clock w) \<rparr>)"
  using assms
  by (auto simp: upsertSubmission_def bind_submitted_at_def split: option.splits)

lemma upsertSubmission_cases:
  obtains (refused) "upsertSubmission inst u w = (Inl InvalidTimestamp, w)"
  | (accepted) at where
      "upsertSubmission inst u w =
         (Inr (),
          w\<lparr> submissions := insert_on_conflict (excluded_row u at (clock w)) (submissions w),
             clock := Suc (clock w) \<rparr>)"
  by (cases "bind_submitted_at inst (submittedAt u)")
    (auto simp: upsertSubmission_def bind_submitted_at_def split: option.splits if_splits)

lemma lead_known_upsertSubmission:
  assumes "lead_known t (submissions w)"
  shows "lead_known t (submissions (snd (upsertSubmission inst u w)))"
proof (cases rule: upsertSubmission_cases [of inst u w])
  case refused
  with assms show ?thesis by simp
next
  case (accepted at)
  with assms show ?thesis by (simp add: lead_known_insert_on_conflict)
qed

lemma lead_known_run_upserts:
  "lead_known t (submissions w) \<Longrightarrow> lead_known t (submissions (run_upserts inst us w))"
proof (induction us arbitrary: w)
  case Nil
  then show ?case by (simp add: run_upserts_def)
next
  case (Cons u us)
  from Cons.IH [OF lead_known_upsertSubmission [OF Cons.prems]]
  show ?case by (simp add: run_upserts_def)
qed

text \<open>
  Claim C2. Let the table hold a row \<open>old\<close> for the token. An upsert whose
  \<open>submittedAt\<close> is a non-empty text that the database refuses as a timestamp raises and
  leaves the world as it was. Every other upsert succeeds and leaves for that token a row
  in which \<open>form_id\<close> and \<open>last_payload\<close> are the new ones and each optional column is the
  new value when one is given and the old value otherwise (for \<open>submitted_at\<close> a value is
  given when the text is non-empty, and it is the instant of that text). And over any
  sequence of upserts, refused ones included, a row whose \<open>amo_lead_id\<close> is set keeps one
  that is set.
\<close>

theorem upsertSubmission_merge:
  assumes "find (\<lambda>r. response_token r = responseToken u) (submissions w) = Some old"
  shows "(\<forall>s. submittedAt u = Some s \<and> s \<noteq> [] \<and> inst s = None \<longrightarrow>
        upsertSubmission inst u w = (Inl InvalidTimestamp, w)) \<and>
     ((\<forall>s. submittedAt u = Some s \<and> s \<noteq> [] \<longrightarrow> inst s \<noteq> None) \<longrightarrow>
      (\<exists>new.
         fst (upsertSubmission inst u w) = Inr () \<and>
         find (\<lambda>r. response_token r = responseToken u)
           (submissions (snd (upsertSubmission inst u w))) = Some new \<and>
         r_form_id new = formId u \<and>
         last_payload new = Some (lastPayload u) \<and>
         r_landing_id new = (case landingId u of Some v \<Rightarrow> Some v | None \<Rightarrow> r_landing_id old) \<and>
         r_submitted_at new =
           (case submittedAt u of
              None \<Rightarrow> r_submitted_at old
            | Some s \<Rightarrow> if s = [] then r_submitted_at old else inst s) \<and>
         last_event_id new =
           (case lastEventId u of Some v \<Rightarrow> Some v | None \<Rightarrow> last_event_id old) \<and>
         last_event_type new =
           (case lastEventType u of Some v \<Rightarrow> Some v | None \<Rightarrow> last_event_type old) \<and>
         amo_lead_id new = (case amoLeadId u of Some v \<Rightarrow> Some v | None \<Rightarrow> amo_lead_id old) \<and>
         amo_contact_id new =
           (case amoContactId u of Some v \<Rightarrow> Some v | None \<Rightarrow> amo_contact_id old))) \<and>
     (\<forall>t us. lead_known t (submissions w) \<longrightarrow>
        lead_known t (submissions (run_upserts inst us w)))"
proof (intro conjI allI impI)
  fix s
  assume "submittedAt u = Some s \<and> s \<noteq> [] \<and> inst s = None"
  then show "upsertSubmission inst u w = (Inl InvalidTimestamp, w)"
    using upsertSubmission_refused [of u s inst w] by blast
next
  fix t us
  assume "lead_known t (submissions w)"
  then show "lead_known t (submissions (run_upserts inst us w))"
    by (rule lead_known_run_upserts)
next
  assume ok: "\<forall>s. submittedAt u = Some s \<and> s \<noteq> [] \<longrightarrow> inst s \<noteq> None"
  let ?at = "case submittedAt u of None \<Rightarrow> None | Some s \<Rightarrow> if s = [] then None else inst s"
  let ?e = "excluded_row u ?at (clock w)"
  note run = upsertSubmission_accepted [OF ok, of w]
  have tok: "response_token ?e = responseToken u" by (simp add: excluded_row_def)
  from assms have f: "find (\<lambda>r. response_token r = response_token ?e) (submissions w) = Some old"
    by (simp add: tok)
  have found: "find (\<lambda>r. response_token r = responseToken u)
                 (submissions (snd (upsertSubmission inst u w))) =
               Some (on_conflict_update ?e old)"
    using find_insert_on_conflict [OF f] by (simp add: run tok)
  have at: "r_submitted_at (on_conflict_update ?e old) =
       (case submittedAt u of
          None \<Rightarrow> r_submitted_at old
        | Some s \<Rightarrow> if s = [] then r_submitted_at old else inst s)"
    using ok by (auto simp: on_conflict_update_def excluded_row_def coalesce_def
        split: option.splits)
  have columns:
    "r_form_id (on_conflict_update ?e old) = formId u"
    "last_payload (on_conflict_update ?e old) = Some (lastPayload u)"
    "r_landing_id (on_conflict_update ?e old) =
       (case landingId u of Some v \<Rightarrow> Some v | None \<Rightarrow> r_landing_id old)"
    "last_event_id (on_conflict_update ?e old) =
       (case lastEventId u of Some v \<Rightarrow> Some v | None \<Rightarrow> last_event_id old)"
    "last_event_type (on_conflict_update ?e old) =
       (case lastEventType u of Some v \<Rightarrow> Some v | None \<Rightarrow> last_event_type old)"
    "amo_lead_id (on_conflict_update ?e old) =
       (case amoLeadId u of Some v \<Rightarrow> Some v | None \<Rightarrow> amo_lead_id old)"
    "amo_contact_id (on_conflict_update ?e old) =
       (case amoContactId u of Some v \<Rightarrow> Some v | None \<Rightarrow> amo_contact_id old)"
    by (simp_all add: on_conflict_update_def excluded_row_def coalesce_def)
  have ok: "fst (upsertSubmission inst u w) = Inr ()" by (simp add: run)
  show "\<exists>new.
         fst (upsertSubmission inst u w) = Inr () \<and>
         find (\<lambda>r. response_token r = responseToken u)
           (submissions (snd (upsertSubmission inst u w))) = Some new \<and>
         r_form_id new = formId u \<and>
         last_payload new = Some (lastPayload u) \<and>
         r_landing_id new = (case landingId u of Some v \<Rightarrow> Some v | None \<Rightarrow> r_landing_id old) \<and>
         r_submitted_at new =
           (case submittedAt u of
              None \<Rightarrow> r_submitted_at old
            | Some s \<Rightarrow> if s = [] then r_submitted_at old else inst s) \<and>
         last_event_id new =
           (case lastEventId u of Some v \<Rightarrow> Some v | None \<Rightarrow> last_event_id old) \<and>
         last_event_type new =
           (case lastEventType u of Some v \<Rightarrow> Some v | None \<Rightarrow> last_event_type old) \<and>
         amo_lead_id new = (case amoLeadId u of Some v \<Rightarrow> Some v | None \<Rightarrow> amo_lead_id old) \<and>
         amo_contact_id new =
           (case amoContactId u of Some v \<Rightarrow> Some v | None \<Rightarrow> amo_contact_id old)"
    using ok found at columns by (intro exI [of _ "on_conflict_update ?e old"]) simp
qed

lemma one_date_simps:
  "one_date (js ''2024-01-02'') = Some 1704153600000" "one_date (js ''soon'') = None"
  "js ''2024-01-02'' \<noteq> []" "js ''soon'' \<noteq> []"
  by (simp_all add: one_date_def js_def)

theorem upsertSubmission_merge_witness:
  "find (\<lambda>r. response_token r = js ''T1'') (submissions ledger_501) = Some row_501 \<and>
   upsertSubmission one_date misdated_upsert ledger_501 = (Inl InvalidTimestamp, ledger_501) \<and>
   (\<exists>new.
      find (\<lambda>r. response_token r = js ''T1'')
        (submissions (snd (upsertSubmission one_date sparse_upsert ledger_501))) = Some new \<and>
      r_form_id new = js ''F2'' \<and> last_payload new = Some payload_E2 \<and>
      r_landing_id new = Some (js ''L1'') \<and> r_submitted_at new = Some 1704067200000 \<and>
      last_event_id new = Some (js ''E1'') \<and> amo_lead_id new = Some 501 \<and>
      amo_contact_id new = Some 77) \<and>
   (\<exists>new.
      find (\<lambda>r. response_token r = js ''T1'')
        (submissions (snd (upsertSubmission one_date dated_upsert ledger_501))) = Some new \<and>
      r_form_id new = js ''F2'' \<and> r_submitted_at new = Some 1704153600000 \<and>
      amo_lead_id new = Some 501)"
proof -
  have h: "find (\<lambda>r. response_token r = responseToken u) (submissions ledger_501) = Some row_501"
    if "responseToken u = js ''T1''" for u
    using that by (simp add: ledger_501_def row_501_def)
  have tokens: "responseToken sparse_upsert = js ''T1''" "responseToken dated_upsert = js ''T1''"
    "responseToken misdated_upsert = js ''T1''"
    by (simp_all add: sparse_upsert_def dated_upsert_def misdated_upsert_def)
  have a: "upsertSubmission one_date misdated_upsert ledger_501 = (Inl InvalidTimestamp, ledger_501)"
    using upsertSubmission_merge [OF h [OF tokens(3)], of one_date]
    by (simp add: misdated_upsert_def one_date_simps)
  have b: "\<exists>new.
      find (\<lambda>r. response_token r = js ''T1'')
        (submissions (snd (upsertSubmission one_date sparse_upsert ledger_501))) = Some new \<and>
      r_form_id new = js ''F2'' \<and> last_payload new = Some payload_E2 \<and>
      r_landing_id new = Some (js ''L1'') \<and> r_submitted_at new = Some 1704067200000 \<and>
      last_event_id new = Some (js ''E1'') \<and> amo_lead_id new = Some 501 \<and>
      amo_contact_id new = Some 77"
    using upsertSubmission_merge [OF h [OF tokens(1)], of one_date]
    by (simp add: sparse_upsert_def row_501_def) blast
  have c: "\<exists>new.
      find (\<lambda>r. response_token r = js ''T1'')
        (submissions (snd (upsertSubmission one_date dated_upsert ledger_501))) = Some new \<and>
      r_form_id new = js ''F2'' \<and> r_submitted_at new = Some 1704153600000 \<and>
      amo_lead_id new = Some 501"
    using upsertSubmission_merge [OF h [OF tokens(2)], of one_date]
    by (simp add: dated_upsert_def sparse_upsert_def row_501_def one_date_simps) blast
  from h [OF tokens(1)] a b c show ?thesis by (simp add: tokens)
qed

section \<open>buildLeadCustomFields: one assignment per field, the last rule wins\<close>

lemma dropWhile_fixed: "xs = [] \<or> \<not> P (hd xs) \<Longrightarrow> dropWhile P xs = xs"
  by (cases xs) auto

lemma trim_trim: "trim (trim s) = trim s"
proof -
  define ys where "ys = dropWhile is_js_space s"
  define zs where "zs = dropWhile is_js_space (rev ys)"
  have ys: "ys = [] \<or> \<not> is_js_space (hd ys)"
    unfolding ys_def by (metis hd_dropWhile)
  have zs: "zs = [] \<or> \<not> is_js_space (hd zs)"
    unfolding zs_def by (metis hd_dropWhile)
  have "rev ys = takeWhile is_js_space (rev ys) @ zs"
    unfolding zs_def by simp
  then have "ys = rev zs @ rev (takeWhile is_js_space (rev ys))"
    by (metis rev_append rev_rev_ident)
  then have "rev zs = [] \<or> hd (rev zs) = hd ys" and "rev zs \<noteq> [] \<longrightarrow> ys \<noteq> []"
    by (metis hd_append2, metis append_is_Nil_conv)
  with ys have "rev zs = [] \<or> \<not> is_js_space (hd (rev zs))" by metis
  then have front: "dropWhile is_js_space (rev zs) = rev zs" by (rule dropWhile_fixed)
  have rear: "dropWhile is_js_space zs = zs" using zs by (rule dropWhile_fixed)
  have "trim s = rev zs" by (simp add: trim_def ys_def zs_def)
  moreover have "trim (rev zs) = rev zs" by (simp add: trim_def front rear)
  ultimately show ?thesis by simp
qed

lemma foldl_apply_rule_append:
  "foldl apply_rule out (rs @ rs') = foldl apply_rule (foldl apply_rule out rs) rs'"
  by simp

lemma hidden_step_rules: "hidden_step out kv = foldl apply_rule out (hidden_rule kv)"
  by (simp add: hidden_step_def hidden_rule_def apply_rule_def split: option.splits)

lemma static_step_rules: "static_step lc out a = foldl apply_rule out (static_rules lc a)"
  by (simp add: static_step_def static_rules_def apply_rule_def Let_def)

lemma dynamic_step_rules: "dynamic_step table out a = foldl apply_rule out (dynamic_rule table a)"
  by (simp add: dynamic_step_def dynamic_rule_def apply_rule_def split: option.splits)

lemma foldl_steps_rules:
  assumes "\<And>out x. step out x = foldl apply_rule out (rules x)"
  shows "foldl step out xs = foldl apply_rule out (concat (map rules xs))"
  by (induction xs arbitrary: out) (simp_all add: assms)

lemma build_as_rules:
  "parseFieldMap raw = Inr table \<Longrightarrow>
   buildLeadCustomFields lc raw p =
     Inr (map snd (foldl apply_rule [] (mapping_rules lc table p)))"
  by (simp add: buildLeadCustomFields_def mapping_rules_def Let_def
      foldl_steps_rules [of hidden_step hidden_rule, OF hidden_step_rules]
      foldl_steps_rules [of "static_step lc" "static_rules lc", OF static_step_rules]
      foldl_steps_rules [of "dynamic_step table" "dynamic_rule table", OF dynamic_step_rules])

lemma map_of_apply_rule:
  "map_of (apply_rule m r) f =
     (if fst r = f \<and> takes_effect r then Some (assignment r) else map_of m f)"
  by (cases r)
    (auto simp: apply_rule_def put_def takes_effect_def assignment_def update_conv'
      split: option.splits)

lemma last_effective_Cons:
  "last_effective f (r # rs) =
     (case last_effective f rs of
        Some a \<Rightarrow> Some a
      | None \<Rightarrow> if fst r = f \<and> takes_effect r then Some (assignment r) else None)"
  by (cases "rev (filter (\<lambda>r. fst r = f \<and> takes_effect r) rs)")
    (simp_all add: last_effective_def)

lemma map_of_foldl_apply_rule:
  "map_of (foldl apply_rule m rs) f =
     (case last_effective f rs of None \<Rightarrow> map_of m f | Some a \<Rightarrow> Some a)"
proof (induction rs arbitrary: m)
  case Nil
  then show ?case by (simp add: last_effective_def)
next
  case (Cons r rs)
  show ?case
    by (cases "last_effective f rs")
      (simp_all add: Cons.IH last_effective_Cons map_of_apply_rule)
qed

lemma distinct_apply_rule:
  "distinct (map fst m) \<Longrightarrow> distinct (map fst (apply_rule m r))"
  by (cases r) (simp add: apply_rule_def put_def distinct_update)

lemma distinct_foldl_apply_rule:
  "distinct (map fst m) \<Longrightarrow> distinct (map fst (foldl apply_rule m rs))"
  by (induction rs arbitrary: m) (simp_all add: distinct_apply_rule)

lemma all_update:
  "\<forall>x \<in> set al. Q x \<Longrightarrow> Q (k, v) \<Longrightarrow> \<forall>x \<in> set (AList.update k v al). Q x"
  by (induction al) auto

text \<open>Every entry of the map is filed under its own field id.\<close>

lemma apply_rule_unfold:
  "apply_rule m r = (if takes_effect r then AList.update (fst r) (assignment r) m else m)"
  by (cases r) (simp add: apply_rule_def put_def takes_effect_def assignment_def)

lemma cf_field_id_assignment: "cf_field_id (assignment r) = fst r"
  by (cases r) (simp add: assignment_def)

lemma keyed_apply_rule:
  assumes "\<forall>x \<in> set m. cf_field_id (snd x) = fst x"
  shows "\<forall>x \<in> set (apply_rule m r). cf_field_id (snd x) = fst x"
proof (cases "takes_effect r")
  case False
  then show ?thesis using assms by (simp add: apply_rule_unfold)
next
  case True
  have "\<forall>x \<in> set (AList.update (fst r) (assignment r) m). cf_field_id (snd x) = fst x"
    using assms by (rule all_update) (simp add: cf_field_id_assignment)
  then show ?thesis using True by (simp add: apply_rule_unfold)
qed

lemma keyed_foldl_apply_rule:
  "\<forall>x \<in> set m. cf_field_id (snd x) = fst x \<Longrightarrow>
   \<forall>x \<in> set (foldl apply_rule m rs). cf_field_id (snd x) = fst x"
proof (induction rs arbitrary: m)
  case Nil
  then show ?case by simp
next
  case (Cons r rs)
  from Cons.IH [OF keyed_apply_rule [OF Cons.prems]] show ?case by simp
qed

lemma find_values_map_of:
  "\<forall>x \<in> set m. cf_field_id (snd x) = fst x \<Longrightarrow>
   find (\<lambda>c. cf_field_id c = f) (map snd m) = map_of m f"
  by (induction m) auto

lemma distinct_field_ids:
  assumes "\<forall>x \<in> set m. cf_field_id (snd x) = fst x"
  shows "map cf_field_id (map snd m) = map fst m"
  using assms by (induction m) auto


lemma mapDesiredProgramEnum_nonzero: "mapDesiredProgramEnum lc l \<noteq> Some 0"
  by (simp add: mapDesiredProgramEnum_def Let_def split: option.splits)

lemma one_source_mapping_rules:
  "r \<in> set (mapping_rules lc table p) \<Longrightarrow> one_source r"
  by (auto simp: mapping_rules_def hidden_rule_def static_rules_def dynamic_rule_def Let_def
      one_source_def mapDesiredProgramEnum_nonzero split: option.splits if_splits)

lemma trim_Nil: "trim [] = []"
  by (simp add: trim_def)

lemma well_formed_assignment_rule:
  assumes "takes_effect r" and "one_source r"
  shows "well_formed_assignment (assignment r)"
proof -
  obtain k v e where r: "r = (k, v, e)" by (cases r)
  show ?thesis
  proof (cases e)
    case None
    with assms(1) obtain s where v: "v = Some s" and s: "trim s \<noteq> []"
      by (auto simp: r takes_effect_def split: option.splits)
    from s have "s \<noteq> []" using trim_Nil by auto
    then show ?thesis
      using s by (simp add: r v assignment_def well_formed_assignment_def truthy_simps trim_trim)
  next
    case (Some n)
    with assms(2) have "v = None" and "n \<noteq> 0" by (auto simp: r one_source_def)
    then show ?thesis
      by (simp add: r Some assignment_def well_formed_assignment_def truthy_simps
          truthy_num_def)
  qed
qed

lemma well_formed_foldl_apply_rule:
  "\<forall>x \<in> set m. well_formed_assignment (snd x) \<Longrightarrow> \<forall>r \<in> set rs. one_source r \<Longrightarrow>
   \<forall>x \<in> set (foldl apply_rule m rs). well_formed_assignment (snd x)"
proof (induction rs arbitrary: m)
  case Nil
  then show ?case by simp
next
  case (Cons r rs)
  have "\<forall>x \<in> set (apply_rule m r). well_formed_assignment (snd x)"
  proof (cases "takes_effect r")
    case False
    then show ?thesis using Cons.prems(1) by (simp add: apply_rule_unfold)
  next
    case True
    have "well_formed_assignment (snd (fst r, assignment r))"
      using True Cons.prems(2) by (simp add: well_formed_assignment_rule)
    with Cons.prems(1)
    have "\<forall>x \<in> set (AList.update (fst r) (assignment r) m). well_formed_assignment (snd x)"
      by (rule all_update)
    then show ?thesis using True by (simp add: apply_rule_unfold)
  qed
  moreover have "\<forall>r \<in> set rs. one_source r" using Cons.prems(2) by simp
  ultimately show ?case using Cons.IH by simp
qed

text \<open>
  Claim C7. Whenever the configured table parses, \<open>buildLeadCustomFields\<close> returns a
  list with at most one assignment per target field; the assignment of a field is that of
  the last rule for it that takes effect, the rules standing in the order hidden
  parameters, static refs, configured table; and every assignment carries a trimmed,
  non-empty value or an enum id, so a blank value assigns nothing.
\<close>

theorem buildLeadCustomFields_last_rule_wins:
  assumes "raw \<noteq> FieldMapMalformed"
  shows "\<exists>table out.
     parseFieldMap raw = Inr table \<and>
     buildLeadCustomFields lc raw p = Inr out \<and>
     distinct (map cf_field_id out) \<and>
     (\<forall>f. find (\<lambda>c. cf_field_id c = f) out = last_effective f (mapping_rules lc table p)) \<and>
     (\<forall>c \<in> set out. well_formed_assignment c)"
proof -
  from assms obtain table where table: "parseFieldMap raw = Inr table"
    by (cases raw) (simp_all add: parseFieldMap_def)
  define m where "m = foldl apply_rule [] (mapping_rules lc table p)"
  have out: "buildLeadCustomFields lc raw p = Inr (map snd m)"
    unfolding m_def by (rule build_as_rules [OF table])
  have keyed: "\<forall>x \<in> set m. cf_field_id (snd x) = fst x"
    unfolding m_def by (rule keyed_foldl_apply_rule) simp
  have "distinct (map fst m)"
    unfolding m_def by (rule distinct_foldl_apply_rule) simp
  then have d: "distinct (map cf_field_id (map snd m))"
    by (simp only: distinct_field_ids [OF keyed])
  have l: "find (\<lambda>c. cf_field_id c = f) (map snd m) =
           last_effective f (mapping_rules lc table p)" for f
    unfolding find_values_map_of [OF keyed]
    by (cases "last_effective f (mapping_rules lc table p)")
      (simp_all add: m_def map_of_foldl_apply_rule)
  have "\<forall>x \<in> set m. well_formed_assignment (snd x)"
    unfolding m_def
    by (rule well_formed_foldl_apply_rule) (simp_all add: one_source_mapping_rules)
  then have w: "\<forall>c \<in> set (map snd m). well_formed_assignment c" by simp
  from table out d l w show ?thesis by blast
qed

lemma hidden_lead_field_utm_source: "hidden_lead_field (js ''utm_source'') = Some (FieldNum 214697)"
  by (simp add: hidden_lead_field_def HIDDEN_TO_LEAD_FIELD_ID_def js_def)

lemma trim_plain:
  "trim (js ''ads'') = js ''ads''" "trim (js ''a@b'') = js ''a@b''"
  by (simp_all add: trim_def js_def is_js_space_def)

lemma answer_key_answer_email: "answer_key answer_email = js ''r1''"
  by (simp add: answer_key_def answer_email_def)

lemma static_step_answer_email: "static_step lc out answer_email = out"
  by (simp add: static_step_def Let_def answer_key_answer_email DEFAULT_REFS_fullName_def
      DEFAULT_REFS_childName_def DEFAULT_REFS_childDob_def DEFAULT_REFS_desiredProgram_def
      DEFAULT_REFS_currentEducation_def js_def)

lemma build_payload_E2:
  "buildLeadCustomFields lc (FieldMapJson table_r1) payload_E2 =
     Inr [\<lparr> cf_field_id = FieldNum 214697, cf_value = Some (js ''a@b''), cf_enum_id = None \<rparr>]"
proof -
  have ne: "js ''ads'' \<noteq> []" "js ''a@b'' \<noteq> []" by (simp_all add: js_def)
  have h: "foldl hidden_step [] (hidden_of payload_E2) =
        [(FieldNum 214697,
          \<lparr> cf_field_id = FieldNum 214697, cf_value = Some (js ''ads''), cf_enum_id = None \<rparr>)]"
    using ne
    by (simp add: payload_E2_def hidden_of_def hidden_step_def hidden_lead_field_utm_source
        trim_plain put_def truthy_simps truthy_num_def)
  have a: "answers_of payload_E2 = [answer_email]"
    by (simp add: payload_E2_def answers_of_def)
  have g: "getAnswerString answer_email = Some (js ''a@b'')"
    using ne by (simp add: getAnswerString_def answer_email_def truthy_simps)
  show ?thesis
    using ne
    by (simp add: buildLeadCustomFields_def Let_def h a static_step_answer_email
        parseFieldMap_def dynamic_step_def answer_key_answer_email table_r1_def g put_def
        trim_plain truthy_simps truthy_num_def)
qed

theorem buildLeadCustomFields_last_rule_wins_witness:
  "FieldMapJson table_r1 \<noteq> FieldMapMalformed \<and>
   buildLeadCustomFields id (FieldMapJson table_r1) payload_E2 =
     Inr [\<lparr> cf_field_id = FieldNum 214697, cf_value = Some (js ''a@b''), cf_enum_id = None \<rparr>] \<and>
   last_effective (FieldNum 214697) (mapping_rules id table_r1 payload_E2) =
     Some \<lparr> cf_field_id = FieldNum 214697, cf_value = Some (js ''a@b''), cf_enum_id = None \<rparr>"
proof -
  have h: "FieldMapJson table_r1 \<noteq> FieldMapMalformed" by simp
  from buildLeadCustomFields_last_rule_wins [OF h, of id payload_E2]
  obtain table out where
    t: "parseFieldMap (FieldMapJson table_r1) = Inr table"
    and o: "buildLeadCustomFields id (FieldMapJson table_r1) payload_E2 = Inr out"
    and l: "\<And>f. find (\<lambda>c. cf_field_id c = f) out =
                 last_effective f (mapping_rules id table payload_E2)"
    by blast
  from t have table: "table = table_r1" by (simp add: parseFieldMap_def)
  from o have out: "out = [\<lparr> cf_field_id = FieldNum 214697, cf_value = Some (js ''a@b''),
                             cf_enum_id = None \<rparr>]"
    by (simp add: build_payload_E2)
  from l [of "FieldNum 214697"] have
    "last_effective (FieldNum 214697) (mapping_rules id table_r1 payload_E2) =
       Some \<lparr> cf_field_id = FieldNum 214697, cf_value = Some (js ''a@b''), cf_enum_id = None \<rparr>"
    by (simp add: out table)
  with h o out show ?thesis by simp
qed

section \<open>The exception-state monad\<close>

lemma ret_apply: "ret x w = (Inr x, w)"
  by (simp add: ret_def)

lemma throw_apply: "throw e w = (Inl e, w)"
  by (simp add: throw_def)

lemma await_Inr: "m w = (Inr x, w1) \<Longrightarrow> await m f w = f x w1"
  by (simp add: await_def)

lemma await_Inl: "m w = (Inl e, w1) \<Longrightarrow> await m f w = (Inl e, w1)"
  by (simp add: await_def)

lemma await_cases:
  assumes "await m f w = (r, w')"
  obtains (failed) e where "m w = (Inl e, w')" and "r = Inl e"
  | (went_on) x w1 where "m w = (Inr x, w1)" and "f x w1 = (r, w')"
proof (cases "m w")
  case (Pair a w1)
  show ?thesis
  proof (cases a)
    case (Inl e)
    with Pair assms failed show ?thesis by (simp add: await_def)
  next
    case (Inr x)
    with Pair assms went_on show ?thesis by (simp add: await_def)
  qed
qed

lemma crm_effect_refl: "crm_effect w w []"
  by (simp add: crm_effect_def)

lemma crm_effect_trans:
  "crm_effect w w1 xs \<Longrightarrow> crm_effect w1 w2 ys \<Longrightarrow> crm_effect w w2 (xs @ ys)"
  by (simp add: crm_effect_def)

lemma accepted_append: "accepted (xs @ ys) = accepted xs @ accepted ys"
  by (simp add: accepted_def)

lemma accepted_Nil: "accepted [] = []"
  by (simp add: accepted_def)

section \<open>amoFetch: one refresh, one replay\<close>

lemma KV_distinct: "KV_ACCESS \<noteq> KV_REFRESH" "KV_REFRESH \<noteq> KV_ACCESS"
  by (simp_all add: KV_ACCESS_def KV_REFRESH_def js_def)

lemma getAccessToken_world: "getAccessToken config w = (r, w') \<Longrightarrow> w' = w"
  by (auto simp: getAccessToken_def await_def kvGet_def ret_def throw_def split: option.splits)

lemma fetch_effect:
  assumes "fetch srv rq w = (r, w')"
  shows "\<exists>res. crm_effect w w' [(rq, res)] \<and>
               r = (case res of None \<Rightarrow> Inl FetchRejected | Some rs \<Rightarrow> Inr rs)"
  using assms by (auto simp: fetch_def crm_effect_def split: prod.splits)

lemma kvSet_effect: "kvSet k v w = (r, w') \<Longrightarrow> crm_effect w w' []"
  by (auto simp: kvSet_def crm_effect_def split: option.splits)

lemma amoFetch_False: "amoFetch srv config rq False w = fetch_once srv config rq w"
proof (cases "getAccessToken config w")
  case (Pair a w1)
  show ?thesis
  proof (cases a)
    case (Inl e)
    with Pair show ?thesis
      by (simp add: amoFetch.simps [of srv config rq False w] fetch_once_def await_def)
  next
    case (Inr t)
    with Pair show ?thesis
      by (cases "fetch srv (rq\<lparr> rq_bearer := Some t \<rparr>) w1")
        (auto simp: amoFetch.simps [of srv config rq False w] fetch_once_def await_def
          split: sum.splits)
  qed
qed

lemma amoFetch_True: "amoFetch srv config rq True w = retry_once srv config rq w"
proof (cases "getAccessToken config w")
  case (Pair a w1)
  show ?thesis
  proof (cases a)
    case (Inl e)
    with Pair show ?thesis
      by (simp add: amoFetch.simps [of srv config rq True w] retry_once_def fetch_once_def
          await_def)
  next
    case (Inr t)
    note tok = Pair Inr
    show ?thesis
    proof (cases "fetch srv (rq\<lparr> rq_bearer := Some t \<rparr>) w1")
      case (Pair b w2)
      show ?thesis
      proof (cases b)
        case (Inl e)
        with tok Pair show ?thesis
          by (simp add: amoFetch.simps [of srv config rq True w] retry_once_def fetch_once_def
              await_def)
      next
        case (Inr res)
        have once: "fetch_once srv config rq w = (Inr res, w2)"
          using tok Pair Inr by (simp add: fetch_once_def await_def)
        show ?thesis
        proof (cases "rs_status res = 401")
          case False
          with tok Pair Inr once show ?thesis
            by (simp add: amoFetch.simps [of srv config rq True w] retry_once_def await_def
                ret_def)
        next
          case True
          show ?thesis
          proof (cases "maybeRefresh srv config w2")
            case (Pair c w3)
            with tok \<open>fetch srv (rq\<lparr> rq_bearer := Some t \<rparr>) w1 = (b, w2)\<close> Inr once True
            show ?thesis
              by (cases c)
                (simp_all add: amoFetch.simps [of srv config rq True w] retry_once_def await_def
                  amoFetch_False)
          qed
        qed
      qed
    qed
  qed
qed


lemma fetch_once_shape:
  assumes "fetch_once srv config rq w = (r, w')"
  shows "\<exists>xs. crm_effect w w' xs \<and>
     ((xs = [] \<and> r = Inl NoAccessToken) \<or>
      (\<exists>t. xs = [(rq\<lparr> rq_bearer := Some t \<rparr>, None)] \<and> r = Inl FetchRejected) \<or>
      (\<exists>t res. xs = [(rq\<lparr> rq_bearer := Some t \<rparr>, Some res)] \<and> r = Inr res))"
  using assms unfolding fetch_once_def
proof (cases rule: await_cases)
  case (failed e)
  then have "w' = w" and "e = NoAccessToken"
    by (auto simp: getAccessToken_def await_def kvGet_def ret_def throw_def
        split: option.splits)
  with failed show ?thesis using crm_effect_refl [of w] by blast
next
  case (went_on t w1)
  then have "w1 = w" by (simp add: getAccessToken_world)
  with went_on fetch_effect [of srv "rq\<lparr> rq_bearer := Some t \<rparr>" w r w']
  obtain res where "crm_effect w w' [(rq\<lparr> rq_bearer := Some t \<rparr>, res)]"
    and "r = (case res of None \<Rightarrow> Inl FetchRejected | Some rs \<Rightarrow> Inr rs)"
    by auto
  then show ?thesis by (cases res) auto
qed

lemma maybeRefresh_shape:
  assumes "maybeRefresh srv config w = (r, w')"
  shows "\<exists>xs. crm_effect w w' xs \<and> (xs = [] \<or> (\<exists>x. xs = [x] \<and> is_token_request x))"
proof (cases "truthy (clientId config) \<and> truthy (clientSecret config) \<and>
              truthy (redirectUri config)")
  case False
  with assms have "w' = w" by (auto simp: maybeRefresh_def ret_def)
  then show ?thesis using crm_effect_refl [of w] by blast
next
  case True
  define rtok where "rtok = nonempty (case kv_store w KV_REFRESH of
                                        Some t \<Rightarrow> Some t | None \<Rightarrow> refreshToken config)"
  show ?thesis
  proof (cases rtok)
    case None
    with True assms have "w' = w"
      by (auto simp: maybeRefresh_def await_def kvGet_def ret_def rtok_def)
    then show ?thesis using crm_effect_refl [of w] by blast
  next
    case (Some rt)
    define rq where "rq = \<lparr> rq_method = POST, rq_base = baseUrl config,
       rq_resource = OAuthAccessToken, rq_bearer = None,
       rq_body = RefreshBody (clientId config) (clientSecret config) rt (redirectUri config) \<rparr>"
    have run: "maybeRefresh srv config w =
        await (fetch srv rq) (\<lambda>res.
          if \<not> res_ok res then throw (RefreshFailed (rs_status res) (rs_text res))
          else await (res_json res) (\<lambda>json.
               await (kvSet KV_ACCESS (j_access_token json)) (\<lambda>_.
               kvSet KV_REFRESH (j_refresh_token json)))) w"
      using True Some by (simp add: maybeRefresh_def await_def kvGet_def rtok_def rq_def)
    have tok: "is_token_request (rq, res)" for res
      by (simp add: is_token_request_def rq_def)
    from assms [unfolded run] show ?thesis
    proof (cases rule: await_cases)
      case (failed e)
      with fetch_effect [of srv rq w "Inl e" w'] tok show ?thesis by blast
    next
      case (went_on res w1)
      from fetch_effect [OF went_on(1)] obtain x where x: "crm_effect w w1 [(rq, x)]" by blast
      have "crm_effect w1 w' []"
      proof (cases "res_ok res")
        case False
        with went_on(2) show ?thesis by (simp add: throw_def crm_effect_refl)
      next
        case True
        with went_on(2) show ?thesis
          by (auto simp: res_json_def await_def throw_def ret_def kvSet_def crm_effect_def
              split: option.splits)
      qed
      from crm_effect_trans [OF x this] tok show ?thesis by auto
    qed
  qed
qed

lemma call_of_bearer: "call_of (rq\<lparr> rq_bearer := t \<rparr>) = call_of rq"
  by (simp add: call_of_def)

lemma not_token_bearer:
  "rq_resource rq \<noteq> OAuthAccessToken \<Longrightarrow> \<not> is_token_request (rq\<lparr> rq_bearer := t \<rparr>, res)"
  by (simp add: is_token_request_def)

lemma accepted_single:
  "rq_resource rq \<noteq> OAuthAccessToken \<Longrightarrow>
   accepted [(rq\<lparr> rq_bearer := t \<rparr>, res)] =
     (case res of None \<Rightarrow> [] | Some rs \<Rightarrow> if res_ok rs then [call_of rq] else [])"
  by (simp add: accepted_def is_accepted_def is_token_request_def call_of_def
      split: option.splits)

lemma accepted_token: "is_token_request x \<Longrightarrow> accepted [x] = []"
  by (simp add: accepted_def is_accepted_def)

lemma fetch_once_log:
  assumes "fetch_once srv config rq w = (r, w')" and "rq_resource rq \<noteq> OAuthAccessToken"
  shows "\<exists>xs. crm_effect w w' xs \<and> call_log rq r xs \<and> length xs \<le> 1 \<and>
              (\<forall>x \<in> set xs. \<not> is_token_request x)"
proof -
  from fetch_once_shape [OF assms(1)] obtain xs where e: "crm_effect w w' xs"
    and s: "(xs = [] \<and> r = Inl NoAccessToken) \<or>
      (\<exists>t. xs = [(rq\<lparr> rq_bearer := Some t \<rparr>, None)] \<and> r = Inl FetchRejected) \<or>
      (\<exists>t res. xs = [(rq\<lparr> rq_bearer := Some t \<rparr>, Some res)] \<and> r = Inr res)"
    by blast
  from s have "call_log rq r xs \<and> length xs \<le> 1 \<and> (\<forall>x \<in> set xs. \<not> is_token_request x)"
    using assms(2)
    by (auto simp: call_log_def accepted_Nil accepted_single call_of_bearer not_token_bearer)
  with e show ?thesis by blast
qed


lemma accepted_tokens:
  "xs = [] \<or> (\<exists>x. xs = [x] \<and> is_token_request x) \<Longrightarrow> accepted xs = []"
  by (auto simp: accepted_Nil accepted_token)

lemma call_log_refresh_failed:
  assumes "call_log rq (Inr res) xs1" and "length xs1 \<le> 1"
    and "\<forall>x \<in> set xs1. \<not> is_token_request x" and "\<not> res_ok res"
    and "xs2 = [] \<or> (\<exists>x. xs2 = [x] \<and> is_token_request x)"
  shows "call_log rq (Inl e) (xs1 @ xs2)"
proof -
  have "accepted xs1 = []" using assms(1,4) by (simp add: call_log_def)
  moreover have "accepted xs2 = []" using assms(5) by (rule accepted_tokens)
  moreover have "filter is_token_request xs1 = []" using assms(3) by (simp add: filter_empty_conv)
  moreover have "length (filter (\<lambda>x. \<not> is_token_request x) xs1) \<le> 1"
    using assms(2) by (meson le_trans length_filter_le)
  ultimately show ?thesis
    using assms(1,5) by (auto simp: call_log_def accepted_append)
qed

lemma call_log_replayed:
  assumes "call_log rq (Inr res) xs1" and "length xs1 \<le> 1"
    and "\<forall>x \<in> set xs1. \<not> is_token_request x" and "\<not> res_ok res"
    and "xs2 = [] \<or> (\<exists>x. xs2 = [x] \<and> is_token_request x)"
    and "call_log rq r xs3" and "length xs3 \<le> 1" and "\<forall>x \<in> set xs3. \<not> is_token_request x"
  shows "call_log rq r (xs1 @ xs2 @ xs3)"
proof -
  have a1: "accepted xs1 = []" using assms(1,4) by (simp add: call_log_def)
  have a2: "accepted xs2 = []" using assms(5) by (rule accepted_tokens)
  have t1: "filter is_token_request xs1 = []" using assms(3) by (simp add: filter_empty_conv)
  have t3: "filter is_token_request xs3 = []" using assms(8) by (simp add: filter_empty_conv)
  have n1: "length (filter (\<lambda>x. \<not> is_token_request x) xs1) \<le> 1"
    using assms(2) by (meson le_trans length_filter_le)
  have n3: "length (filter (\<lambda>x. \<not> is_token_request x) xs3) \<le> 1"
    using assms(7) by (meson le_trans length_filter_le)
  have members: "\<forall>x \<in> set (xs1 @ xs2 @ xs3). is_token_request x \<or> call_of (fst x) = call_of rq"
    using assms(1,5,6) by (auto simp: call_log_def)
  have tokens: "length (filter is_token_request (xs1 @ xs2 @ xs3)) \<le> 1"
    using assms(5) t1 t3 by auto
  have attempts: "length (filter (\<lambda>x. \<not> is_token_request x) (xs1 @ xs2 @ xs3)) \<le> 2"
    using assms(5) n1 n3 by auto
  have acc: "accepted (xs1 @ xs2 @ xs3) =
        (case r of Inr res \<Rightarrow> if res_ok res then [call_of rq] else [] | Inl e \<Rightarrow> [])"
    using assms(6) a1 a2 by (simp add: accepted_append call_log_def)
  have lst: "\<forall>res. r = Inr res \<longrightarrow>
         xs1 @ xs2 @ xs3 \<noteq> [] \<and> snd (last (xs1 @ xs2 @ xs3)) = Some res \<and>
         call_of (fst (last (xs1 @ xs2 @ xs3))) = call_of rq"
    using assms(6) by (auto simp: call_log_def)
  from members tokens attempts acc lst show ?thesis
    unfolding call_log_def by blast
qed

lemma amoFetch_log:
  assumes run: "amoFetch srv config rq b w = (r, w')"
    and rq: "rq_resource rq \<noteq> OAuthAccessToken"
  shows "\<exists>xs. crm_effect w w' xs \<and> call_log rq r xs"
proof (cases b)
  case False
  with run have "fetch_once srv config rq w = (r, w')" by (simp add: amoFetch_False)
  from fetch_once_log [OF this rq] show ?thesis by blast
next
  case True
  with run have "retry_once srv config rq w = (r, w')" by (simp add: amoFetch_True)
  then show ?thesis unfolding retry_once_def
  proof (cases rule: await_cases)
    case (failed e)
    from fetch_once_log [OF failed(1) rq] failed(2) show ?thesis by blast
  next
    case (went_on res w1)
    from fetch_once_log [OF went_on(1) rq] obtain xs1 where
      e1: "crm_effect w w1 xs1" and l1: "call_log rq (Inr res) xs1" and n1: "length xs1 \<le> 1"
      and t1: "\<forall>x \<in> set xs1. \<not> is_token_request x"
      by blast
    show ?thesis
    proof (cases "rs_status res = 401")
      case False
      with went_on(2) have "r = Inr res" and "w' = w1" by (simp_all add: ret_def)
      with e1 l1 show ?thesis by blast
    next
      case True
      then have nok: "\<not> res_ok res" by (simp add: res_ok_def)
      from went_on(2) True
      have "await (maybeRefresh srv config) (\<lambda>_. fetch_once srv config rq) w1 = (r, w')"
        by simp
      then show ?thesis
      proof (cases rule: await_cases)
        case (failed e)
        from maybeRefresh_shape [OF failed(1)] obtain xs2 where
          e2: "crm_effect w1 w' xs2"
          and s2: "xs2 = [] \<or> (\<exists>x. xs2 = [x] \<and> is_token_request x)"
          by blast
        from call_log_refresh_failed [OF l1 n1 t1 nok s2] crm_effect_trans [OF e1 e2] failed(2)
        show ?thesis by blast
      next
        case (went_on u w2)
        from maybeRefresh_shape [OF went_on(1)] obtain xs2 where
          e2: "crm_effect w1 w2 xs2"
          and s2: "xs2 = [] \<or> (\<exists>x. xs2 = [x] \<and> is_token_request x)"
          by blast
        from fetch_once_log [OF went_on(2) rq] obtain xs3 where
          e3: "crm_effect w2 w' xs3" and l3: "call_log rq r xs3" and n3: "length xs3 \<le> 1"
          and t3: "\<forall>x \<in> set xs3. \<not> is_token_request x"
          by blast
        from crm_effect_trans [OF e1 crm_effect_trans [OF e2 e3]]
          call_log_replayed [OF l1 n1 t1 nok s2 l3 n3 t3]
        show ?thesis by blast
      qed
    qed
  qed
qed


lemma maybeRefresh_idle:
  assumes "refresh_token_for config w = None"
  shows "maybeRefresh srv config w = (Inr (), w)"
  using assms
  by (auto simp: refresh_token_for_def maybeRefresh_def ret_def await_def kvGet_def
      split: if_splits)

lemma maybeRefresh_request:
  assumes "refresh_token_for config w = Some rt"
    and "maybeRefresh srv config w = (r, w')"
  shows "\<exists>res. crm_effect w w' [(refresh_request config rt, res)] \<and>
     (case refresh_outcome res of
        Inl e \<Rightarrow> r = Inl e
      | Inr (a, b) \<Rightarrow>
          r = Inr () \<and> kv_store w' = (kv_store w)(KV_ACCESS \<mapsto> a, KV_REFRESH \<mapsto> b))"
proof -
  have run: "maybeRefresh srv config w =
        await (fetch srv (refresh_request config rt)) (\<lambda>res.
          if \<not> res_ok res then throw (RefreshFailed (rs_status res) (rs_text res))
          else await (res_json res) (\<lambda>json.
               await (kvSet KV_ACCESS (j_access_token json)) (\<lambda>_.
               kvSet KV_REFRESH (j_refresh_token json)))) w"
    using assms(1)
    by (simp add: refresh_token_for_def maybeRefresh_def await_def kvGet_def
        refresh_request_def split: if_splits)
  from assms(2) [unfolded run] show ?thesis
  proof (cases rule: await_cases)
    case (failed e)
    from fetch_effect [OF failed(1)] failed(2) show ?thesis
      by (auto simp: refresh_outcome_def split: option.splits)
  next
    case (went_on res w1)
    from fetch_effect [OF went_on(1)] obtain x where
      x: "crm_effect w w1 [(refresh_request config rt, x)]"
      "Inr res = (case x of None \<Rightarrow> Inl FetchRejected | Some rs \<Rightarrow> Inr rs)"
      by blast
    then have xres: "x = Some res" by (cases x) auto
    have rest: "crm_effect w1 w' []"
    proof (cases "res_ok res")
      case False
      with went_on(2) show ?thesis by (simp add: throw_def crm_effect_refl)
    next
      case True
      with went_on(2) show ?thesis
        by (auto simp: res_json_def await_def throw_def ret_def kvSet_def crm_effect_def
            split: option.splits)
    qed
    have kv1: "kv_store w1 = kv_store w"
      using went_on(1) by (auto simp: fetch_def split: prod.splits)
    have outcome: "case refresh_outcome (Some res) of
        Inl e \<Rightarrow> r = Inl e
      | Inr (a, b) \<Rightarrow>
          r = Inr () \<and> kv_store w' = (kv_store w)(KV_ACCESS \<mapsto> a, KV_REFRESH \<mapsto> b)"
      using went_on(2) kv1
      by (auto simp: refresh_outcome_def res_json_def await_def ret_def throw_def kvSet_def
          split: option.splits)
    from crm_effect_trans [OF x(1) rest] xres outcome show ?thesis by auto
  qed
qed

lemma fetch_once_store:
  assumes "fetch_once srv config rq w = (r, w')"
  shows "kv_store w' = kv_store w"
  using assms
  by (auto simp: fetch_once_def await_def getAccessToken_def kvGet_def ret_def throw_def
      fetch_def split: option.splits prod.splits)


lemma token_exchange [simp]:
  "is_token_request (refresh_request config rt, y)"
  "rq_resource rq \<noteq> OAuthAccessToken \<Longrightarrow> \<not> is_token_request (rq\<lparr> rq_bearer := t \<rparr>, y)"
  by (simp_all add: is_token_request_def refresh_request_def)

lemma fetch_once_attempt:
  assumes "fetch_once srv config rq w = (r, w')" and "rq_resource rq \<noteq> OAuthAccessToken"
  shows "\<exists>xs. crm_effect w w' xs \<and> token_requests xs = [] \<and> length xs \<le> 1 \<and>
     (\<forall>res. r = Inr res \<longrightarrow> xs = attempts xs \<and> length xs = 1 \<and> snd (hd xs) = Some res)"
proof -
  from fetch_once_shape [OF assms(1)] obtain xs where xs: "crm_effect w w' xs"
    "(xs = [] \<and> r = Inl NoAccessToken) \<or>
      (\<exists>t. xs = [(rq\<lparr> rq_bearer := Some t \<rparr>, None)] \<and> r = Inl FetchRejected) \<or>
      (\<exists>t res. xs = [(rq\<lparr> rq_bearer := Some t \<rparr>, Some res)] \<and> r = Inr res)"
    by blast
  from xs(2) assms(2) have "token_requests xs = [] \<and> length xs \<le> 1 \<and>
     (\<forall>res. r = Inr res \<longrightarrow> xs = attempts xs \<and> length xs = 1 \<and> snd (hd xs) = Some res)"
    by (auto simp: token_requests_def attempts_def)
  with xs(1) show ?thesis by blast
qed

lemma fetch_once_bearer:
  assumes "fetch_once srv config rq w = (r, w')" and "kv_store w KV_ACCESS = Some a"
    and "a \<noteq> []"
  shows "\<exists>y. crm_effect w w' [(rq\<lparr> rq_bearer := Some a \<rparr>, y)]"
  using assms
  by (auto simp: fetch_once_def await_def getAccessToken_def kvGet_def ret_def nonempty_def
      fetch_def crm_effect_def split: prod.splits)

text \<open>The log of the refresh step and of the replay after it, put behind the first attempt.\<close>

lemma refresh_log_refreshed:
  assumes rq: "rq_resource rq \<noteq> OAuthAccessToken"
    and first: "rs_status res = 401"
    and can: "refresh_token_for config w = Some rt"
    and tokens: "token_requests xs3 = []"
    and stopped: "\<And>e. refresh_outcome y = Inl e \<Longrightarrow> r = Inl e \<and> xs3 = []"
    and stored: "\<And>a b. refresh_outcome y = Inr (a, b) \<Longrightarrow>
        kv_store w' = (kv_store w)(KV_ACCESS \<mapsto> a, KV_REFRESH \<mapsto> b) \<and>
        (a \<noteq> [] \<longrightarrow> (\<exists>z. xs3 = [(rq\<lparr> rq_bearer := Some a \<rparr>, z)]))"
    and returned: "\<And>res'. r = Inr res' \<Longrightarrow> xs3 = attempts xs3 \<and> length xs3 = 1"
  shows "refresh_log config rq w w' r
           ((rq\<lparr> rq_bearer := Some t \<rparr>, Some res) # (refresh_request config rt, y) # xs3)"
    (is "refresh_log config rq w w' r ?xs")
  unfolding refresh_log_def
proof (intro conjI allI impI)
  have f: "first_401 ?xs" using first by (simp add: first_401_def answered_401_def)
  have only: "x = (refresh_request config rt, y)" if "x \<in> set ?xs" "is_token_request x" for x
    using that tokens rq by (auto simp: token_requests_def filter_empty_conv)
  show "token_requests ?xs =
      (if first_401 ?xs
       then (case refresh_token_for config w of
               None \<Rightarrow> []
             | Some rt \<Rightarrow> [refresh_request config rt])
       else [])"
    using tokens rq f can by (simp add: token_requests_def)
  {
    fix x e
    assume h: "x \<in> set ?xs \<and> is_token_request x \<and> refresh_outcome (snd x) = Inl e"
    with only have x: "x = (refresh_request config rt, y)" by blast
    with h stopped [of e] have s: "r = Inl e" "xs3 = []" by simp_all
    show "r = Inl e" by (rule s(1))
    show "length (attempts ?xs) = 1" using s(2) rq by (simp add: attempts_def)
    show "last ?xs = x" using s(2) x by simp
  }
  {
    fix x a b
    assume h: "x \<in> set ?xs \<and> is_token_request x \<and> refresh_outcome (snd x) = Inr (a, b)"
    with only have "x = (refresh_request config rt, y)" by blast
    with h stored [of a b] have
      s: "kv_store w' = (kv_store w)(KV_ACCESS \<mapsto> a, KV_REFRESH \<mapsto> b)"
      "a \<noteq> [] \<longrightarrow> (\<exists>z. xs3 = [(rq\<lparr> rq_bearer := Some a \<rparr>, z)])"
      by simp_all
    show "kv_store w' = (kv_store w)(KV_ACCESS \<mapsto> a, KV_REFRESH \<mapsto> b)" by (rule s(1))
    show "length ?xs = 3" if "a \<noteq> []" using s(2) that by auto
    show "fst (last ?xs) = rq\<lparr> rq_bearer := Some a \<rparr>" if "a \<noteq> []" using s(2) that by auto
  }
  {
    fix res'
    assume "r = Inr res'"
    from returned [OF this] have "xs3 = attempts xs3" "length xs3 = 1" by simp_all
    then show "length (attempts ?xs) = (if first_401 ?xs then 2 else 1)"
      using rq f by (simp add: attempts_def)
  }
qed

lemma retry_refresh_log:
  assumes "amoFetch srv config rq True w = (r, w')" and rq: "rq_resource rq \<noteq> OAuthAccessToken"
  shows "\<exists>xs. crm_effect w w' xs \<and> refresh_log config rq w w' r xs"
proof -
  from assms(1) have "retry_once srv config rq w = (r, w')" by (simp add: amoFetch_True)
  then show ?thesis unfolding retry_once_def
  proof (cases rule: await_cases)
    case (failed e)
    from fetch_once_attempt [OF failed(1) rq] obtain xs where
      xs: "crm_effect w w' xs" "token_requests xs = []" "length xs \<le> 1"
      by blast
    from fetch_once_shape [OF failed(1)] xs(1) have "\<not> first_401 xs"
      by (auto simp: first_401_def answered_401_def crm_effect_def)
    with xs failed(2) have "refresh_log config rq w w' r xs"
      by (auto simp: refresh_log_def token_requests_def filter_empty_conv)
    with xs(1) show ?thesis by blast
  next
    case (went_on res w1)
    from fetch_once_shape [OF went_on(1)] obtain t where
      x1: "crm_effect w w1 [(rq\<lparr> rq_bearer := Some t \<rparr>, Some res)]"
      by auto
    let ?x = "(rq\<lparr> rq_bearer := Some t \<rparr>, Some res)"
    note kv1 = fetch_once_store [OF went_on(1)]
    have store: "refresh_token_for config w1 = refresh_token_for config w"
      using kv1 by (simp add: refresh_token_for_def)
    show ?thesis
    proof (cases "rs_status res = 401")
      case False
      with went_on(2) have "r = Inr res" "w' = w1" by (simp_all add: ret_def)
      with x1 False rq have "crm_effect w w' [?x] \<and> refresh_log config rq w w' r [?x]"
        by (simp add: refresh_log_def token_requests_def attempts_def first_401_def
            answered_401_def)
      then show ?thesis by blast
    next
      case True
      then have first: "first_401 (?x # ys)" for ys
        by (simp add: first_401_def answered_401_def)
      from True went_on(2) have
        rest: "await (maybeRefresh srv config) (\<lambda>_. fetch_once srv config rq) w1 = (r, w')"
        by simp
      show ?thesis
      proof (cases "refresh_token_for config w1")
        case None
        from rest have replay: "fetch_once srv config rq w1 = (r, w')"
          by (simp add: await_def maybeRefresh_idle [OF None])
        from fetch_once_attempt [OF replay rq] obtain xs3 where
          x3: "crm_effect w1 w' xs3" "token_requests xs3 = []" "length xs3 \<le> 1"
          "\<forall>res. r = Inr res \<longrightarrow> xs3 = attempts xs3 \<and> length xs3 = 1 \<and> snd (hd xs3) = Some res"
          by blast
        have "refresh_log config rq w w' r (?x # xs3)"
          using x3(2,3,4) None store rq first [of xs3]
          by (auto simp: refresh_log_def token_requests_def attempts_def filter_empty_conv)
        with crm_effect_trans [OF x1 x3(1)] show ?thesis by auto
      next
        case (Some rt)
        from Some store have can: "refresh_token_for config w = Some rt" by simp
        from rest show ?thesis
        proof (cases rule: await_cases)
          case (failed e)
          from maybeRefresh_request [OF Some failed(1)] obtain y where
            y: "crm_effect w1 w' [(refresh_request config rt, y)]"
            "case refresh_outcome y of
               Inl e' \<Rightarrow> Inl e = (Inl e' :: error + unit)
             | Inr (a, b) \<Rightarrow>
                 (Inl e :: error + unit) = Inr () \<and>
                 kv_store w' = (kv_store w1)(KV_ACCESS \<mapsto> a, KV_REFRESH \<mapsto> b)"
            by blast
          have "refresh_log config rq w w' r (?x # (refresh_request config rt, y) # [])"
          proof (rule refresh_log_refreshed [OF rq True can])
            show "token_requests [] = []" by (simp add: token_requests_def)
            show "r = Inl e' \<and> [] = []" if "refresh_outcome y = Inl e'" for e'
              using y(2) that failed(2) by simp
            show "kv_store w' = (kv_store w)(KV_ACCESS \<mapsto> a, KV_REFRESH \<mapsto> b) \<and>
                  (a \<noteq> [] \<longrightarrow> (\<exists>z. [] = [(rq\<lparr> rq_bearer := Some a \<rparr>, z)]))"
              if "refresh_outcome y = Inr (a, b)" for a b
              using y(2) that by simp
            show "[] = attempts [] \<and> length [] = 1" if "r = Inr res'" for res'
              using that failed(2) by simp
          qed
          with crm_effect_trans [OF x1 y(1)] show ?thesis by auto
        next
          case (went_on u w2)
          from maybeRefresh_request [OF Some went_on(1)] obtain y where
            y: "crm_effect w1 w2 [(refresh_request config rt, y)]"
            "case refresh_outcome y of
               Inl e' \<Rightarrow> Inr u = (Inl e' :: error + unit)
             | Inr (a, b) \<Rightarrow>
                 (Inr u :: error + unit) = Inr () \<and>
                 kv_store w2 = (kv_store w1)(KV_ACCESS \<mapsto> a, KV_REFRESH \<mapsto> b)"
            by blast
          from fetch_once_attempt [OF went_on(2) rq] obtain xs3 where
            x3: "crm_effect w2 w' xs3" "token_requests xs3 = []" "length xs3 \<le> 1"
            "\<forall>res. r = Inr res \<longrightarrow> xs3 = attempts xs3 \<and> length xs3 = 1 \<and> snd (hd xs3) = Some res"
            by blast
          note kv3 = fetch_once_store [OF went_on(2)]
          have "refresh_log config rq w w' r (?x # (refresh_request config rt, y) # xs3)"
          proof (rule refresh_log_refreshed [OF rq True can x3(2)])
            show "r = Inl e' \<and> xs3 = []" if "refresh_outcome y = Inl e'" for e'
              using y(2) that by simp
            show "kv_store w' = (kv_store w)(KV_ACCESS \<mapsto> a, KV_REFRESH \<mapsto> b) \<and>
                  (a \<noteq> [] \<longrightarrow> (\<exists>z. xs3 = [(rq\<lparr> rq_bearer := Some a \<rparr>, z)]))"
              if out: "refresh_outcome y = Inr (a, b)" for a b
            proof -
              from y(2) out have
                kv2: "kv_store w2 = (kv_store w1)(KV_ACCESS \<mapsto> a, KV_REFRESH \<mapsto> b)"
                by simp
              then have "kv_store w2 KV_ACCESS = Some a" by (simp add: KV_distinct)
              from fetch_once_bearer [OF went_on(2) this] x3(1)
              have "a \<noteq> [] \<longrightarrow> (\<exists>z. xs3 = [(rq\<lparr> rq_bearer := Some a \<rparr>, z)])"
                by (auto simp: crm_effect_def)
              with kv2 kv1 kv3 show ?thesis by simp
            qed
            show "xs3 = attempts xs3 \<and> length xs3 = 1" if "r = Inr res'" for res'
              using x3(4) that by simp
          qed
          with crm_effect_trans [OF x1 crm_effect_trans [OF y(1) x3(1)]] show ?thesis by auto
        qed
      qed
    qed
  qed
qed

lemma not_ok_raises:
  assumes "amoFetch srv config rq True w = (Inr res, w')" and "\<not> res_ok res"
  shows "await (amoFetch srv config rq True)
           (\<lambda>res. if \<not> res_ok res then throw (E (rs_status res) (rs_text res)) else k res) w =
         (Inl (E (rs_status res) (rs_text res)), w')"
  using assms by (simp add: await_def throw_def)

text \<open>
  Claim C3, as the code has it. For a request on the object API, \<open>amoFetch\<close> with
  \<open>retryOn401\<close> false is one attempt and sends no token request, and with
  \<open>retryOn401\<close> true it is one attempt, then on a 401 one run of \<open>maybeRefresh\<close> and,
  unless that raises, one more attempt whose response is returned whatever its status.
  Every run returns, having sent at most one token request and at most two attempts of
  the request. The token request is sent exactly when the first attempt was answered 401
  and the client has its three OAuth settings and a refresh token. When the refresh
  raises (the \<open>fetch\<close> is rejected, the status is not 2xx, the body is no JSON or a
  token is missing) the call raises the same error, \<open>RefreshFailed\<close> with status and
  body for a status that is not 2xx, and the request is not replayed; when it is accepted
  with both tokens they are stored and the replay carries the new access token. A
  response that is not 2xx, a second 401 included, makes the calling operation raise its
  error with the status and the body text.
\<close>

theorem amoFetch_one_refresh_one_replay:
  assumes "rq_resource rq \<noteq> OAuthAccessToken"
  shows "amoFetch srv config rq False = fetch_once srv config rq \<and>
     amoFetch srv config rq True = retry_once srv config rq \<and>
     (\<forall>b w. \<exists>xs. crm_effect w (snd (amoFetch srv config rq b w)) xs \<and>
                  call_log rq (fst (amoFetch srv config rq b w)) xs) \<and>
     (\<forall>w. \<exists>xs. crm_effect w (snd (amoFetch srv config rq False w)) xs \<and>
                token_requests xs = [] \<and> length xs \<le> 1) \<and>
     (\<forall>w. \<exists>xs. crm_effect w (snd (amoFetch srv config rq True w)) xs \<and>
                refresh_log config rq w (snd (amoFetch srv config rq True w))
                  (fst (amoFetch srv config rq True w)) xs) \<and>
     (\<forall>w res w'. \<not> res_ok res \<longrightarrow>
        (amoFetch srv config
           (crm_request config POST Leads
              (LeadCreateBody nm (pipelineId config)
                 (if truthy_num (initialStatusId config) then initialStatusId config else None)))
           True w = (Inr res, w') \<longrightarrow>
         createLead srv config nm w = (Inl (LeadCreateFailed (rs_status res) (rs_text res)), w')) \<and>
        (amoFetch srv config
           (crm_request config POST Contacts
              (ContactCreateBody
                 (case name of
                    Some n \<Rightarrow> n
                  | None \<Rightarrow>
                     (case email of
                        Some e \<Rightarrow> e
                      | None \<Rightarrow> (case phone of Some p \<Rightarrow> p | None \<Rightarrow> js ''Typeform contact'')))
                 (buildContactCustomFields phone email)))
           True w = (Inr res, w') \<longrightarrow>
         createContact srv config name email phone w =
           (Inl (ContactCreateFailed (rs_status res) (rs_text res)), w')) \<and>
        ((truthy name \<or> buildContactCustomFields phone email \<noteq> []) \<and>
         amoFetch srv config
           (crm_request config PATCH Contacts
              (ContactPatchBody c (nonempty name) (buildContactCustomFields phone email)))
           True w = (Inr res, w') \<longrightarrow>
         updateContact srv config c name email phone w =
           (Inl (ContactUpdateFailed (rs_status res) (rs_text res)), w')) \<and>
        (amoFetch srv config (crm_request config POST (LeadLink l) (LinkBody c)) True w =
           (Inr res, w') \<longrightarrow>
         linkLeadToContact srv config l c w = (Inl (LinkFailed (rs_status res) (rs_text res)), w')) \<and>
        (amoFetch srv config (crm_request config POST (LeadNotes l) (NoteBody body)) True w =
           (Inr res, w') \<longrightarrow>
         addLeadNote srv config l body w = (Inl (NoteCreateFailed (rs_status res) (rs_text res)), w')) \<and>
        (fs \<noteq> [] \<and>
         amoFetch srv config (crm_request config PATCH Leads (LeadPatchBody l fs)) True w =
           (Inr res, w') \<longrightarrow>
         updateLeadCustomFields srv config l fs w =
           (Inl (LeadUpdateFailed (rs_status res) (rs_text res)), w')))"
proof -
  have a: "amoFetch srv config rq False = fetch_once srv config rq"
    by (rule ext) (rule amoFetch_False)
  have b: "amoFetch srv config rq True = retry_once srv config rq"
    by (rule ext) (rule amoFetch_True)
  have c: "\<exists>xs. crm_effect w (snd (amoFetch srv config rq b w)) xs \<and>
                call_log rq (fst (amoFetch srv config rq b w)) xs" for b w
    using amoFetch_log [of srv config rq b w, OF _ assms] by (cases "amoFetch srv config rq b w") simp
  have c1: "\<exists>xs. crm_effect w (snd (amoFetch srv config rq False w)) xs \<and>
                token_requests xs = [] \<and> length xs \<le> 1" for w
    using fetch_once_attempt [of srv config rq w, OF _ assms]
    by (cases "fetch_once srv config rq w") (auto simp: amoFetch_False)
  have c2: "\<exists>xs. crm_effect w (snd (amoFetch srv config rq True w)) xs \<and>
                refresh_log config rq w (snd (amoFetch srv config rq True w))
                  (fst (amoFetch srv config rq True w)) xs" for w
    using retry_refresh_log [where srv = srv and config = config and rq = rq and w = w,
        OF _ assms]
    by (cases "amoFetch srv config rq True w") simp
  have d: "createLead srv config nm w = (Inl (LeadCreateFailed (rs_status res) (rs_text res)), w')"
    if "\<not> res_ok res" and "amoFetch srv config
           (crm_request config POST Leads
              (LeadCreateBody nm (pipelineId config)
                 (if truthy_num (initialStatusId config) then initialStatusId config else None)))
           True w = (Inr res, w')" for w res w'
    unfolding createLead_def by (rule not_ok_raises [OF that(2) that(1)])
  have e: "linkLeadToContact srv config l c w = (Inl (LinkFailed (rs_status res) (rs_text res)), w')"
    if "\<not> res_ok res"
      and "amoFetch srv config (crm_request config POST (LeadLink l) (LinkBody c)) True w =
           (Inr res, w')" for w res w'
    unfolding linkLeadToContact_def by (rule not_ok_raises [OF that(2) that(1)])
  have f: "addLeadNote srv config l body w =
             (Inl (NoteCreateFailed (rs_status res) (rs_text res)), w')"
    if "\<not> res_ok res"
      and "amoFetch srv config (crm_request config POST (LeadNotes l) (NoteBody body)) True w =
           (Inr res, w')" for w res w'
    unfolding addLeadNote_def by (rule not_ok_raises [OF that(2) that(1)])
  have g: "updateLeadCustomFields srv config l fs w =
             (Inl (LeadUpdateFailed (rs_status res) (rs_text res)), w')"
    if "\<not> res_ok res" and "fs \<noteq> []"
      and "amoFetch srv config (crm_request config PATCH Leads (LeadPatchBody l fs)) True w =
           (Inr res, w')" for w res w'
    using that(2) not_ok_raises [OF that(3) that(1), of LeadUpdateFailed "\<lambda>_. ret ()"]
    by (simp add: updateLeadCustomFields_def)
  have h: "createContact srv config name email phone w =
             (Inl (ContactCreateFailed (rs_status res) (rs_text res)), w')"
    if "\<not> res_ok res"
      and "amoFetch srv config
           (crm_request config POST Contacts
              (ContactCreateBody
                 (case name of
                    Some n \<Rightarrow> n
                  | None \<Rightarrow>
                     (case email of
                        Some e \<Rightarrow> e
                      | None \<Rightarrow> (case phone of Some p \<Rightarrow> p | None \<Rightarrow> js ''Typeform contact'')))
                 (buildContactCustomFields phone email)))
           True w = (Inr res, w')" for w res w'
    unfolding createContact_def by (rule not_ok_raises [OF that(2) that(1)])
  have i: "updateContact srv config c name email phone w =
             (Inl (ContactUpdateFailed (rs_status res) (rs_text res)), w')"
    if "\<not> res_ok res" and "truthy name \<or> buildContactCustomFields phone email \<noteq> []"
      and "amoFetch srv config
           (crm_request config PATCH Contacts
              (ContactPatchBody c (nonempty name) (buildContactCustomFields phone email)))
           True w = (Inr res, w')" for w res w'
    using that(2) not_ok_raises [OF that(3) that(1), of ContactUpdateFailed "\<lambda>_. ret ()"]
    by (auto simp: updateContact_def Let_def)
  show ?thesis
    apply (intro conjI allI impI)
    subgoal by (rule a)
    subgoal by (rule b)
    subgoal by (rule c)
    subgoal by (rule c1)
    subgoal by (rule c2)
    subgoal by (rule d)
    subgoal by (rule h)
    subgoal by (rule i) auto
    subgoal by (rule e)
    subgoal by (rule f)
    subgoal by (rule g) auto
    done
qed


lemma literals_nonempty:
  "js ''tok'' \<noteq> []" "js ''id'' \<noteq> []" "js ''s'' \<noteq> []" "js ''u'' \<noteq> []" "js ''r1'' \<noteq> []"
  "js ''new'' \<noteq> []" "js ''r2'' \<noteq> []" "js ''tok'' \<noteq> js ''new''" "js ''new'' \<noteq> js ''tok''"
  by (simp_all add: js_def)

lemmas run_defs =
  retry_once_def fetch_once_def getAccessToken_def maybeRefresh_def await_def ret_def throw_def
  kvGet_def kvSet_def fetch_def res_json_def res_ok_def nonempty_def truthy_simps
  crm_request_def

theorem amoFetch_retry_counterexample:
  "fst (amoFetch remote_refusing oauth_config note_request True ledger_501) =
     Inl (RefreshFailed 400 []) \<and>
   map (\<lambda>x. (rq_resource (fst x), map_option rs_status (snd x)))
     (exchanges (snd (amoFetch remote_refusing oauth_config note_request True ledger_501))) =
     [(LeadNotes 501, Some 401), (OAuthAccessToken, Some 400)]"
  by (simp add: amoFetch_True run_defs note_request_def oauth_config_def ledger_501_def
      remote_refusing_def plain_response_def KV_distinct literals_nonempty)

theorem amoFetch_one_refresh_one_replay_witness:
  "rq_resource note_request \<noteq> OAuthAccessToken \<and>
   fst (amoFetch remote_expired oauth_config note_request True ledger_501) =
     Inr (plain_response 200) \<and>
   map (\<lambda>x. (rq_resource (fst x), rq_bearer (fst x), map_option rs_status (snd x)))
     (exchanges (snd (amoFetch remote_expired oauth_config note_request True ledger_501))) =
     [(LeadNotes 501, Some (js ''tok''), Some 401), (OAuthAccessToken, None, Some 200),
      (LeadNotes 501, Some (js ''new''), Some 200)] \<and>
   fst (amoFetch remote_always_401 oauth_config note_request True ledger_501) =
     Inr (plain_response 401) \<and>
   map (\<lambda>x. (rq_resource (fst x), map_option rs_status (snd x)))
     (exchanges (snd (amoFetch remote_always_401 oauth_config note_request True ledger_501))) =
     [(LeadNotes 501, Some 401), (OAuthAccessToken, Some 200), (LeadNotes 501, Some 401)] \<and>
   fst (amoFetch remote_always_401 static_config note_request True ledger_501) =
     Inr (plain_response 401) \<and>
   map (\<lambda>x. (rq_resource (fst x), rq_bearer (fst x), map_option rs_status (snd x)))
     (exchanges (snd (amoFetch remote_always_401 static_config note_request True ledger_501))) =
     [(LeadNotes 501, Some (js ''tok''), Some 401), (LeadNotes 501, Some (js ''tok''), Some 401)] \<and>
   fst (addLeadNote remote_always_401 oauth_config 501 (js ''hi'') ledger_501) =
     Inl (NoteCreateFailed 401 [])"
proof -
  have h: "rq_resource note_request \<noteq> OAuthAccessToken"
    by (simp add: note_request_def crm_request_def)
  have eq: "amoFetch srv oauth_config note_request True = retry_once srv oauth_config note_request"
    for srv :: "nat server"
    using amoFetch_one_refresh_one_replay [OF h, where srv = srv and config = oauth_config]
    by blast
  have r1: "retry_once remote_expired oauth_config note_request ledger_501 =
      (Inr (plain_response 200),
       ledger_501\<lparr> kv_store := [KV_ACCESS \<mapsto> js ''new'', KV_REFRESH \<mapsto> js ''r2''],
          remote := 3,
          exchanges :=
            [(note_request\<lparr> rq_bearer := Some (js ''tok'') \<rparr>, Some (plain_response 401)),
             (\<lparr> rq_method = POST, rq_base = js ''https://x'', rq_resource = OAuthAccessToken,
                rq_bearer = None,
                rq_body = RefreshBody (Some (js ''id'')) (Some (js ''s'')) (js ''r1'')
                            (Some (js ''u'')) \<rparr>, Some tokens_response),
             (note_request\<lparr> rq_bearer := Some (js ''new'') \<rparr>, Some (plain_response 200))] \<rparr>)"
    by (simp add: run_defs note_request_def oauth_config_def ledger_501_def remote_expired_def
        plain_response_def tokens_response_def KV_distinct literals_nonempty)
  have r2: "retry_once remote_always_401 oauth_config note_request ledger_501 =
      (Inr (plain_response 401),
       ledger_501\<lparr> kv_store := [KV_ACCESS \<mapsto> js ''new'', KV_REFRESH \<mapsto> js ''r2''],
          remote := 3,
          exchanges :=
            [(note_request\<lparr> rq_bearer := Some (js ''tok'') \<rparr>, Some (plain_response 401)),
             (\<lparr> rq_method = POST, rq_base = js ''https://x'', rq_resource = OAuthAccessToken,
                rq_bearer = None,
                rq_body = RefreshBody (Some (js ''id'')) (Some (js ''s'')) (js ''r1'')
                            (Some (js ''u'')) \<rparr>, Some tokens_response),
             (note_request\<lparr> rq_bearer := Some (js ''new'') \<rparr>, Some (plain_response 401))] \<rparr>)"
    by (simp add: run_defs note_request_def oauth_config_def ledger_501_def
        remote_always_401_def plain_response_def tokens_response_def KV_distinct
        literals_nonempty)
  have eq': "amoFetch remote_always_401 static_config note_request True =
             retry_once remote_always_401 static_config note_request"
    using amoFetch_one_refresh_one_replay [OF h, where srv = remote_always_401
        and config = static_config]
    by blast
  have r3: "retry_once remote_always_401 static_config note_request ledger_501 =
      (Inr (plain_response 401),
       ledger_501\<lparr> remote := 2,
          exchanges :=
            [(note_request\<lparr> rq_bearer := Some (js ''tok'') \<rparr>, Some (plain_response 401)),
             (note_request\<lparr> rq_bearer := Some (js ''tok'') \<rparr>, Some (plain_response 401))] \<rparr>)"
    by (simp add: run_defs note_request_def static_config_def oauth_config_def ledger_501_def
        remote_always_401_def plain_response_def KV_distinct literals_nonempty)
  have nok: "\<not> res_ok (plain_response 401)" by (simp add: res_ok_def plain_response_def)
  have "amoFetch remote_always_401 oauth_config
          (crm_request oauth_config POST (LeadNotes 501) (NoteBody (js ''hi''))) True ledger_501 =
        (Inr (plain_response 401), snd (retry_once remote_always_401 oauth_config note_request
                                          ledger_501))"
    using eq [of remote_always_401] r2 by (simp add: note_request_def)
  with nok amoFetch_one_refresh_one_replay [OF h, where srv = remote_always_401
      and config = oauth_config and l = 501 and body = "js ''hi''"]
  have raised: "fst (addLeadNote remote_always_401 oauth_config 501 (js ''hi'') ledger_501) =
     Inl (NoteCreateFailed 401 [])"
    by (simp add: plain_response_def)
  have resource: "rq_resource note_request = LeadNotes 501"
    by (simp add: note_request_def crm_request_def)
  show ?thesis
    using h raised
    by (simp add: eq eq' r1 r2 r3 resource plain_response_def tokens_response_def)
qed

section \<open>The object operations\<close>

lemma call_of_crm_request: "call_of (crm_request config m r b) = (m, r, b)"
  by (simp add: call_of_def crm_request_def)

lemma call_log_attempts:
  assumes "call_log rq r xs"
  shows "attempts_of (call_of rq) xs"
  using assms by (auto simp: call_log_def attempts_of_def split: sum.splits if_splits)

lemma call_log_accepted_last:
  assumes "call_log rq (Inr res) xs" and "res_ok res" and "rq_resource rq \<noteq> OAuthAccessToken"
  shows "accepted_last (call_of rq) xs"
proof -
  from assms(1) have l: "xs \<noteq> []" "snd (last xs) = Some res"
    "call_of (fst (last xs)) = call_of rq"
    by (simp_all add: call_log_def)
  from l(3) assms(3) have "\<not> is_token_request (last xs)"
    by (simp add: is_token_request_def call_of_def)
  with l(2) assms(2) have "is_accepted (last xs)" by (simp add: is_accepted_def)
  moreover have "accepted xs = [call_of rq]" using assms(1,2) by (simp add: call_log_def)
  ultimately show ?thesis
    using l call_log_attempts [OF assms(1)] by (simp add: accepted_last_def)
qed

text \<open>
  The pattern of every operation: \<open>amoFetch\<close>, then \<open>if (!res.ok) throw\<close>, then a
  continuation that reads the response without touching the world.
\<close>

lemma operation_log:
  assumes run: "await (amoFetch srv config rq True)
                  (\<lambda>res. if \<not> res_ok res then throw (E res) else k res) w = (r, w')"
    and rq: "rq_resource rq \<noteq> OAuthAccessToken"
    and pure: "\<And>res w1 r1 w2. k res w1 = (r1, w2) \<Longrightarrow> w2 = w1"
  shows "\<exists>xs. crm_effect w w' xs \<and> attempts_of (call_of rq) xs \<and>
              (\<forall>y. r = Inr y \<longrightarrow> accepted_last (call_of rq) xs)"
  using run
proof (cases rule: await_cases)
  case (failed e)
  from amoFetch_log [OF failed(1) rq] failed(2) call_log_attempts show ?thesis by blast
next
  case (went_on res w1)
  from amoFetch_log [OF went_on(1) rq] obtain xs where
    e: "crm_effect w w1 xs" and l: "call_log rq (Inr res) xs"
    by blast
  show ?thesis
  proof (cases "res_ok res")
    case False
    with went_on(2) have "w' = w1" and "r = Inl (E res)" by (simp_all add: throw_def)
    with e call_log_attempts [OF l] show ?thesis by blast
  next
    case True
    with went_on(2) have "w' = w1" using pure by auto
    with e call_log_accepted_last [OF l True rq] show ?thesis
      by (auto simp: accepted_last_def)
  qed
qed

lemma crm_request_resource: "rq_resource (crm_request config m r b) = r"
  by (simp add: crm_request_def)

lemma createLead_log:
  assumes "createLead srv config name w = (r, w')"
  shows "\<exists>xs. crm_effect w w' xs \<and> attempts_of (lead_create_call config name) xs \<and>
              (\<forall>l. r = Inr l \<longrightarrow> accepted_last (lead_create_call config name) xs \<and> l \<noteq> 0)"
proof -
  have nz: "l \<noteq> 0" if "r = Inr l" for l
    using assms that
    by (auto simp: createLead_def await_def res_json_def throw_def ret_def
        split: prod.splits sum.splits if_splits option.splits)
  have pure: "w2 = w1"
    if "await (res_json res) (\<lambda>json.
           case first_lead_id json of
             None \<Rightarrow> throw NoCreatedLeadId
           | Some l \<Rightarrow> if l = 0 then throw NoCreatedLeadId else ret l) w1 = (r1, w2)"
    for res :: http_response and w1 w2 :: "'a world" and r1
    using that
    by (auto simp: await_def res_json_def throw_def ret_def split: option.splits if_splits)
  have c: "call_of (crm_request config POST Leads
             (LeadCreateBody name (pipelineId config)
                (if truthy_num (initialStatusId config) then initialStatusId config else None))) =
           lead_create_call config name"
    by (simp add: call_of_crm_request lead_create_call_def)
  from operation_log [OF assms [unfolded createLead_def] _ pure] nz show ?thesis
    unfolding c by (simp add: crm_request_resource)
qed

lemma createContact_log:
  assumes "createContact srv config (c_name contact) (c_email contact) (c_phone contact) w =
             (r, w')"
  shows "\<exists>xs. crm_effect w w' xs \<and> attempts_of (contact_create_call contact) xs \<and>
              (\<forall>c. r = Inr c \<longrightarrow> accepted_last (contact_create_call contact) xs \<and> c \<noteq> 0)"
proof -
  have nz: "c \<noteq> 0" if "r = Inr c" for c
    using assms that
    by (auto simp: createContact_def await_def res_json_def throw_def ret_def
        split: prod.splits sum.splits if_splits option.splits)
  have pure: "w2 = w1"
    if "await (res_json res) (\<lambda>json.
           case first_contact_id json of
             None \<Rightarrow> throw NoCreatedContactId
           | Some c \<Rightarrow> if c = 0 then throw NoCreatedContactId else ret c) w1 = (r1, w2)"
    for res :: http_response and w1 w2 :: "'a world" and r1
    using that
    by (auto simp: await_def res_json_def throw_def ret_def split: option.splits if_splits)
  from operation_log [OF assms [unfolded createContact_def] _ pure] nz show ?thesis
    unfolding call_of_crm_request contact_create_call_def
    by (simp add: crm_request_resource)
qed

lemma ret_unit_pure: "ret () w1 = (r1, w2) \<Longrightarrow> w2 = w1"
  by (simp add: ret_def)

lemma linkLeadToContact_log:
  assumes "linkLeadToContact srv config l c w = (r, w')"
  shows "\<exists>xs. crm_effect w w' xs \<and> attempts_of (link_call l c) xs \<and>
              (r = Inr () \<longrightarrow> accepted_last (link_call l c) xs)"
  using operation_log [OF assms [unfolded linkLeadToContact_def] _ ret_unit_pure]
  unfolding call_of_crm_request link_call_def by (simp add: crm_request_resource)

lemma addLeadNote_log:
  assumes "addLeadNote srv config l summary w = (r, w')"
  shows "\<exists>xs. crm_effect w w' xs \<and> attempts_of (note_call l summary) xs \<and>
              (r = Inr () \<longrightarrow> accepted_last (note_call l summary) xs)"
  using operation_log [OF assms [unfolded addLeadNote_def] _ ret_unit_pure]
  unfolding call_of_crm_request note_call_def by (simp add: crm_request_resource)

lemma updateLeadCustomFields_log:
  assumes "updateLeadCustomFields srv config l fs w = (r, w')" and "fs \<noteq> []"
  shows "\<exists>xs. crm_effect w w' xs \<and> attempts_of (lead_update_call l fs) xs \<and>
              (r = Inr () \<longrightarrow> accepted_last (lead_update_call l fs) xs)"
proof -
  from assms have run: "await (amoFetch srv config
                 (crm_request config PATCH Leads (LeadPatchBody l fs)) True) (\<lambda>res.
          if \<not> res_ok res then throw (LeadUpdateFailed (rs_status res) (rs_text res))
          else ret ()) w = (r, w')"
    by (simp add: updateLeadCustomFields_def)
  from operation_log [OF run _ ret_unit_pure] show ?thesis
    unfolding call_of_crm_request lead_update_call_def by (simp add: crm_request_resource)
qed

lemma contact_bits_patch:
  assumes "truthy (c_email contact) \<or> truthy (c_phone contact) \<or> truthy (c_name contact)"
  shows "truthy (c_name contact) \<or>
         buildContactCustomFields (c_phone contact) (c_email contact) \<noteq> []"
  using assms
  by (auto simp: buildContactCustomFields_def nonempty_def truthy_def split: option.splits)

lemma updateContact_log:
  assumes "updateContact srv config c (c_name contact) (c_email contact) (c_phone contact) w =
             (r, w')"
    and "truthy (c_email contact) \<or> truthy (c_phone contact) \<or> truthy (c_name contact)"
  shows "\<exists>xs. crm_effect w w' xs \<and> attempts_of (contact_update_call c contact) xs \<and>
              (r = Inr () \<longrightarrow> accepted_last (contact_update_call c contact) xs)"
proof -
  from assms(1) contact_bits_patch [OF assms(2)]
  have run: "await (amoFetch srv config
                 (crm_request config PATCH Contacts
                    (ContactPatchBody c (nonempty (c_name contact))
                       (buildContactCustomFields (c_phone contact) (c_email contact)))) True)
          (\<lambda>res.
          if \<not> res_ok res then throw (ContactUpdateFailed (rs_status res) (rs_text res))
          else ret ()) w = (r, w')"
    by (auto simp: updateContact_def Let_def)
  from operation_log [OF run _ ret_unit_pure] show ?thesis
    unfolding call_of_crm_request contact_update_call_def by (simp add: crm_request_resource)
qed


section \<open>createOrUpdateByTypeform\<close>

lemma attempts_of_Nil: "attempts_of c []"
  by (simp add: attempts_of_def accepted_Nil)

lemma no_lead_create_Nil: "no_lead_create []"
  by (simp add: no_lead_create_def)

lemma no_lead_create_append:
  "no_lead_create (xs @ ys) = (no_lead_create xs \<and> no_lead_create ys)"
  by (auto simp: no_lead_create_def)

lemma contacts_created_Nil: "contacts_created [] = 0"
  by (simp add: contacts_created_def accepted_Nil)

lemma contacts_created_append:
  "contacts_created (xs @ ys) = contacts_created xs + contacts_created ys"
  by (simp add: contacts_created_def accepted_append)

lemma token_not_lead_create: "is_token_request x \<Longrightarrow> \<not> is_lead_create (call_of (fst x))"
  by (simp add: is_token_request_def is_lead_create_def call_of_def)

lemma attempts_no_lead_create:
  "attempts_of c xs \<Longrightarrow> \<not> is_lead_create c \<Longrightarrow> no_lead_create xs"
  unfolding attempts_of_def no_lead_create_def using token_not_lead_create by metis

lemma attempts_contacts_created:
  "attempts_of c xs \<Longrightarrow> contacts_created xs \<le> 1"
  "attempts_of c xs \<Longrightarrow> \<not> is_contact_create c \<Longrightarrow> contacts_created xs = 0"
  by (auto simp: attempts_of_def contacts_created_def)

lemma call_kinds:
  "\<not> is_lead_create (contact_create_call contact)"
  "\<not> is_lead_create (contact_update_call c contact)"
  "\<not> is_lead_create (link_call l c)"
  "\<not> is_lead_create (lead_update_call l fs)"
  "\<not> is_lead_create (note_call l summary)"
  "\<not> is_contact_create (lead_create_call config name)"
  "\<not> is_contact_create (contact_update_call c contact)"
  "\<not> is_contact_create (link_call l c)"
  "\<not> is_contact_create (lead_update_call l fs)"
  "\<not> is_contact_create (note_call l summary)"
  "is_contact_create (contact_create_call contact)"
  "is_lead_create (lead_create_call config name)"
  by (simp_all add: is_lead_create_def is_contact_create_def contact_create_call_def
      contact_update_call_def link_call_def lead_update_call_def note_call_def
      lead_create_call_def)

text \<open>The first statement of the function: the lead id is reused, or a lead is created.\<close>

lemma lead_stage:
  assumes "(case existingLeadId of
              Some l \<Rightarrow> ret l
            | None \<Rightarrow> createLead srv config (lead_name contact)) w = (r, w')"
  shows "\<exists>xs. crm_effect w w' xs \<and> contacts_created xs = 0 \<and>
     (existingLeadId \<noteq> None \<longrightarrow> xs = []) \<and>
     attempts_of (lead_create_call config (lead_name contact)) xs \<and>
     (\<forall>lead. r = Inr lead \<longrightarrow>
        accepted xs =
          (case existingLeadId of
             None \<Rightarrow> [lead_create_call config (lead_name contact)]
           | Some l \<Rightarrow> []) \<and>
        (\<forall>l. existingLeadId = Some l \<longrightarrow> lead = l) \<and>
        (existingLeadId = None \<longrightarrow> lead \<noteq> 0))"
proof (cases existingLeadId)
  case (Some l)
  with assms have "w' = w" and "r = Inr l" by (simp_all add: ret_def)
  with Some show ?thesis
    using crm_effect_refl [of w]
    by (intro exI [of _ "[]"]) (simp add: contacts_created_Nil accepted_Nil attempts_of_Nil)
next
  case None
  with assms have "createLead srv config (lead_name contact) w = (r, w')" by simp
  from createLead_log [OF this] obtain xs where
    xs: "crm_effect w w' xs" "attempts_of (lead_create_call config (lead_name contact)) xs"
    "\<forall>l. r = Inr l \<longrightarrow> accepted_last (lead_create_call config (lead_name contact)) xs \<and> l \<noteq> 0"
    by blast
  have "contacts_created xs = 0"
    using xs(2) by (rule attempts_contacts_created) (rule call_kinds)
  with xs None show ?thesis
    by (intro exI [of _ xs]) (auto simp: accepted_last_def)
qed


lemma create_some_contact:
  assumes "await (createContact srv config (c_name contact) (c_email contact) (c_phone contact))
             (\<lambda>c. ret (Some c)) w = (r, w')"
  shows "\<exists>xs. crm_effect w w' xs \<and> attempts_of (contact_create_call contact) xs \<and>
              (\<forall>cid. r = Inr cid \<longrightarrow>
                 accepted xs = [contact_create_call contact] \<and> (\<exists>c. cid = Some c \<and> c \<noteq> 0))"
  using assms
proof (cases rule: await_cases)
  case (failed e)
  from createContact_log [OF failed(1)] failed(2) show ?thesis by blast
next
  case (went_on c w1)
  then have "w' = w1" and "r = Inr (Some c)" by (simp_all add: ret_def)
  with createContact_log [OF went_on(1)] show ?thesis
    by (auto simp: accepted_last_def)
qed

text \<open>The block that settles \<open>contactId\<close>.\<close>

lemma contact_stage:
  assumes run:
    "(if isNew
      then (if bits
            then await (createContact srv config (c_name contact) (c_email contact)
                          (c_phone contact)) (\<lambda>c. ret (Some c))
            else ret None)
      else
        await (if \<not> truthy_num eC \<and> bits
               then await (createContact srv config (c_name contact) (c_email contact)
                             (c_phone contact)) (\<lambda>c. ret (Some c))
               else ret eC) (\<lambda>cid.
          case cid of
            None \<Rightarrow> ret cid
          | Some c \<Rightarrow>
              if c \<noteq> 0 \<and> bits
              then await (updateContact srv config c (c_name contact) (c_email contact)
                            (c_phone contact)) (\<lambda>_. ret cid)
              else ret cid)) w = (r, w')"
    and bits: "bits = has_contact_bits contact"
  shows "\<exists>xs. crm_effect w w' xs \<and> no_lead_create xs \<and> contacts_created xs \<le> 1 \<and>
     (\<forall>cid. r = Inr cid \<longrightarrow>
        accepted xs =
          (if bits \<and> (isNew \<or> \<not> truthy_num eC) then [contact_create_call contact] else []) @
          (case cid of
             None \<Rightarrow> []
           | Some c \<Rightarrow>
               if c \<noteq> 0 \<and> bits \<and> \<not> isNew then [contact_update_call c contact] else []) \<and>
        (if bits \<and> (isNew \<or> \<not> truthy_num eC) then \<exists>c. cid = Some c \<and> c \<noteq> 0
         else cid = (if isNew then None else eC)))"
proof -
  let ?create = "await (createContact srv config (c_name contact) (c_email contact)
                          (c_phone contact)) (\<lambda>c. ret (Some c))"
  have idle: "\<exists>xs. crm_effect w w xs \<and> no_lead_create xs \<and> contacts_created xs \<le> 1 \<and>
                      accepted xs = []"
    using crm_effect_refl [of w]
    by (intro exI [of _ "[]"]) (simp add: no_lead_create_Nil contacts_created_Nil accepted_Nil)
  have created: "\<exists>xs. crm_effect v v' xs \<and> no_lead_create xs \<and> contacts_created xs \<le> 1 \<and>
                      attempts_of (contact_create_call contact) xs \<and>
                      (\<forall>cid. q = Inr cid \<longrightarrow>
                         accepted xs = [contact_create_call contact] \<and>
                         (\<exists>c. cid = Some c \<and> c \<noteq> 0))"
    if "?create v = (q, v')" for v v' :: "'a world" and q
    using create_some_contact [OF that]
    by (meson attempts_no_lead_create attempts_contacts_created(1) call_kinds(1))
  show ?thesis
  proof (cases isNew)
    case True
    show ?thesis
    proof (cases bits)
      case False
      with True run have same: "w' = w" "r = Inr None" by (simp_all add: ret_def)
      from idle obtain xs where "crm_effect w w xs" "no_lead_create xs"
        "contacts_created xs \<le> 1" "accepted xs = []"
        by blast
      with True False same show ?thesis by (intro exI [of _ xs]) (auto split: option.splits)
    next
      case bits_present: True
      with True run have "?create w = (r, w')" by simp
      from created [OF this] obtain xs where "crm_effect w w' xs" "no_lead_create xs"
        "contacts_created xs \<le> 1"
        "\<forall>cid. r = Inr cid \<longrightarrow>
           accepted xs = [contact_create_call contact] \<and> (\<exists>c. cid = Some c \<and> c \<noteq> 0)"
        by blast
      with True bits_present show ?thesis by (intro exI [of _ xs]) (auto split: option.splits)
    qed
  next
    case False
    with run have
      "await (if \<not> truthy_num eC \<and> bits then ?create else ret eC) (\<lambda>cid.
          case cid of
            None \<Rightarrow> ret cid
          | Some c \<Rightarrow>
              if c \<noteq> 0 \<and> bits
              then await (updateContact srv config c (c_name contact) (c_email contact)
                            (c_phone contact)) (\<lambda>_. ret cid)
              else ret cid) w = (r, w')"
      by simp
    then show ?thesis
    proof (cases rule: await_cases)
      case (failed e)
      then have "\<not> truthy_num eC \<and> bits" and "?create w = (Inl e, w')"
        by (auto simp: ret_def split: if_splits)
      from created [OF this(2)] obtain xs where "crm_effect w w' xs" "no_lead_create xs"
        "contacts_created xs \<le> 1"
        by blast
      with failed(2) show ?thesis by (intro exI [of _ xs]) (auto split: option.splits)
    next
      case (went_on cid w1)
      have first: "\<exists>xs. crm_effect w w1 xs \<and> no_lead_create xs \<and> contacts_created xs \<le> 1 \<and>
          accepted xs = (if bits \<and> \<not> truthy_num eC then [contact_create_call contact] else []) \<and>
          (if bits \<and> \<not> truthy_num eC then \<exists>c. cid = Some c \<and> c \<noteq> 0 else cid = eC) \<and>
          contacts_created xs = (if bits \<and> \<not> truthy_num eC then 1 else 0)"
      proof (cases "\<not> truthy_num eC \<and> bits")
        case True
        with went_on(1) have "?create w = (Inr cid, w1)" by simp
        from created [OF this] obtain xs where xs: "crm_effect w w1 xs" "no_lead_create xs"
          "contacts_created xs \<le> 1" "accepted xs = [contact_create_call contact]"
          "\<exists>c. cid = Some c \<and> c \<noteq> 0"
          by blast
        from xs(4) have "contacts_created xs = 1"
          by (simp add: contacts_created_def call_kinds)
        with xs True show ?thesis by (intro exI [of _ xs]) (auto split: option.splits)
      next
        case False
        with went_on(1) have same: "w1 = w" "cid = eC" by (auto simp: ret_def split: if_splits)
        from idle obtain xs where xs: "crm_effect w w xs" "no_lead_create xs"
          "contacts_created xs \<le> 1" "accepted xs = []"
          by blast
        from xs(4) have "contacts_created xs = 0" by (simp add: contacts_created_def)
        with xs False same show ?thesis by (intro exI [of _ xs]) (auto split: option.splits)
      qed
      then obtain xs1 where x1: "crm_effect w w1 xs1" "no_lead_create xs1"
        "accepted xs1 = (if bits \<and> \<not> truthy_num eC then [contact_create_call contact] else [])"
        "if bits \<and> \<not> truthy_num eC then \<exists>c. cid = Some c \<and> c \<noteq> 0 else cid = eC"
        "contacts_created xs1 \<le> 1"
        by blast
      have second: "\<exists>xs. crm_effect w1 w' xs \<and> no_lead_create xs \<and> contacts_created xs = 0 \<and>
          (r = Inr cid \<or> (\<exists>e. r = Inl e)) \<and>
          (r = Inr cid \<longrightarrow>
             accepted xs =
               (case cid of
                  None \<Rightarrow> []
                | Some c \<Rightarrow> if c \<noteq> 0 \<and> bits then [contact_update_call c contact] else []))"
      proof (cases "\<exists>c. cid = Some c \<and> c \<noteq> 0 \<and> bits")
        case False
        with went_on(2) have "w' = w1" and "r = Inr cid"
          by (auto simp: ret_def split: option.splits if_splits)
        with False show ?thesis
          using crm_effect_refl [of w1]
          by (intro exI [of _ "[]"])
            (auto simp: no_lead_create_Nil contacts_created_Nil accepted_Nil
              split: option.splits)
      next
        case True
        then obtain c where c: "cid = Some c" "c \<noteq> 0" "bits" by blast
        with went_on(2) have
          "await (updateContact srv config c (c_name contact) (c_email contact)
                    (c_phone contact)) (\<lambda>_. ret cid) w1 = (r, w')"
          by simp
        then show ?thesis
        proof (cases rule: await_cases)
          case (failed e)
          from updateContact_log [OF failed(1)] c(3) bits obtain xs where
            xs: "crm_effect w1 w' xs" "attempts_of (contact_update_call c contact) xs"
            by (auto simp: has_contact_bits_def)
          have "no_lead_create xs" "contacts_created xs = 0"
            using xs(2) attempts_no_lead_create attempts_contacts_created(2) call_kinds(2,7)
            by blast+
          with xs failed(2) show ?thesis by (intro exI [of _ xs]) simp
        next
          case (went_on u w2)
          then have "w' = w2" and r: "r = Inr cid" by (simp_all add: ret_def)
          with updateContact_log [OF went_on(1)] c(3) bits obtain xs where
            xs: "crm_effect w1 w' xs" "attempts_of (contact_update_call c contact) xs"
            "accepted xs = [contact_update_call c contact]"
            by (auto simp: has_contact_bits_def accepted_last_def)
          have "no_lead_create xs" "contacts_created xs = 0"
            using xs(2) attempts_no_lead_create attempts_contacts_created(2) call_kinds(2,7)
            by blast+
          with xs r c show ?thesis by (intro exI [of _ xs]) (auto split: option.splits)
        qed
      qed
      then obtain xs2 where x2: "crm_effect w1 w' xs2" "no_lead_create xs2"
        "contacts_created xs2 = 0" "r = Inr cid \<or> (\<exists>e. r = Inl e)"
        "r = Inr cid \<longrightarrow>
           accepted xs2 =
             (case cid of
                None \<Rightarrow> []
              | Some c \<Rightarrow> if c \<noteq> 0 \<and> bits then [contact_update_call c contact] else [])"
        by blast
      show ?thesis
      proof (intro exI [of _ "xs1 @ xs2"] conjI allI impI)
        show "crm_effect w w' (xs1 @ xs2)" using x1(1) x2(1) by (rule crm_effect_trans)
        show "no_lead_create (xs1 @ xs2)" using x1(2) x2(2) by (simp add: no_lead_create_append)
        show "contacts_created (xs1 @ xs2) \<le> 1"
          using x1(5) x2(3) by (simp add: contacts_created_append)
      next
        fix cid' assume "r = Inr cid'"
        with x2(4) have same: "cid' = cid" and ok: "r = Inr cid" by auto
        show "accepted (xs1 @ xs2) =
          (if bits \<and> (isNew \<or> \<not> truthy_num eC) then [contact_create_call contact] else []) @
          (case cid' of
             None \<Rightarrow> []
           | Some c \<Rightarrow>
               if c \<noteq> 0 \<and> bits \<and> \<not> isNew then [contact_update_call c contact] else [])"
          using x1(3) x2(5) ok False
          by (cases cid) (simp_all add: accepted_append same)
        show "if bits \<and> (isNew \<or> \<not> truthy_num eC) then \<exists>c. cid' = Some c \<and> c \<noteq> 0
              else cid' = (if isNew then None else eC)"
          using x1(4) False by (simp add: same)
      qed
    qed
  qed
qed


lemma lead_creates_are_attempts: "attempts_of c xs \<Longrightarrow> lead_creates_are c xs"
  unfolding attempts_of_def lead_creates_are_def using token_not_lead_create by metis

lemma lead_creates_are_none: "no_lead_create xs \<Longrightarrow> lead_creates_are c xs"
  by (simp add: no_lead_create_def lead_creates_are_def)

lemma lead_creates_are_append:
  "lead_creates_are c (xs @ ys) = (lead_creates_are c xs \<and> lead_creates_are c ys)"
  by (auto simp: lead_creates_are_def)

lemma bounded_log_extend:
  assumes "bounded_log eL c n xs" and "no_lead_create ys" and "contacts_created ys \<le> m"
  shows "bounded_log eL c (n + m) (xs @ ys)"
  using assms
  by (simp add: bounded_log_def contacts_created_append no_lead_create_append
      lead_creates_are_append lead_creates_are_none)

lemma bounded_log_mono: "bounded_log eL c n xs \<Longrightarrow> n \<le> m \<Longrightarrow> bounded_log eL c m xs"
  by (simp add: bounded_log_def)

text \<open>An operation that neither creates a lead nor a contact, run or skipped.\<close>

lemma other_stage:
  assumes "\<exists>xs. crm_effect w w' xs \<and> attempts_of c xs \<and> (r = Inr () \<longrightarrow> accepted_last c xs)"
    and "\<not> is_lead_create c" and "\<not> is_contact_create c"
  shows "\<exists>xs. crm_effect w w' xs \<and> no_lead_create xs \<and> contacts_created xs = 0 \<and>
              (r = Inr () \<longrightarrow> accepted_last c xs)"
  using assms attempts_no_lead_create attempts_contacts_created(2) by blast

lemma skipped_stage:
  assumes "ret () w = (r, w')"
  shows "\<exists>xs. crm_effect w w' xs \<and> no_lead_create xs \<and> contacts_created xs = 0 \<and>
              accepted xs = [] \<and> xs = []"
  using assms crm_effect_refl [of w]
  by (simp add: ret_def no_lead_create_Nil contacts_created_Nil accepted_Nil)

lemma link_stage:
  assumes "(case cid of
              None \<Rightarrow> ret ()
            | Some c \<Rightarrow> if c \<noteq> 0 then linkLeadToContact srv config lead c else ret ()) w =
           (r, w')"
  shows "\<exists>xs. crm_effect w w' xs \<and> no_lead_create xs \<and> contacts_created xs = 0 \<and>
     (r = Inr () \<longrightarrow>
        accepted xs =
          (case cid of None \<Rightarrow> [] | Some c \<Rightarrow> if c \<noteq> 0 then [link_call lead c] else []))"
proof (cases "\<exists>c. cid = Some c \<and> c \<noteq> 0")
  case False
  with assms have "ret () w = (r, w')" by (auto split: option.splits)
  from skipped_stage [OF this] False show ?thesis by (auto split: option.splits)
next
  case True
  then obtain c where c: "cid = Some c" "c \<noteq> 0" by blast
  with assms have "linkLeadToContact srv config lead c w = (r, w')" by simp
  from other_stage [OF linkLeadToContact_log [OF this] call_kinds(3) call_kinds(8)] c
  show ?thesis by (auto simp: accepted_last_def)
qed

lemma custom_fields_stage:
  assumes "(case custom of
              None \<Rightarrow> ret ()
            | Some fs \<Rightarrow>
                if fs \<noteq> [] then updateLeadCustomFields srv config lead fs else ret ()) w =
           (r, w')"
  shows "\<exists>xs. crm_effect w w' xs \<and> no_lead_create xs \<and> contacts_created xs = 0 \<and>
     (r = Inr () \<longrightarrow>
        accepted xs =
          (case custom of
             None \<Rightarrow> []
           | Some fs \<Rightarrow> if fs \<noteq> [] then [lead_update_call lead fs] else []))"
proof (cases "\<exists>fs. custom = Some fs \<and> fs \<noteq> []")
  case False
  with assms have "ret () w = (r, w')" by (auto split: option.splits)
  from skipped_stage [OF this] False show ?thesis by (auto split: option.splits)
next
  case True
  then obtain fs where fs: "custom = Some fs" "fs \<noteq> []" by blast
  with assms have "updateLeadCustomFields srv config lead fs w = (r, w')" by simp
  from other_stage [OF updateLeadCustomFields_log [OF this fs(2)] call_kinds(4) call_kinds(9)] fs
  show ?thesis by (auto simp: accepted_last_def)
qed

lemma note_stage:
  assumes "addLeadNote srv config lead summary w = (r, w')"
  shows "\<exists>xs. crm_effect w w' xs \<and> no_lead_create xs \<and> contacts_created xs = 0 \<and>
              (r = Inr () \<longrightarrow> accepted_last (note_call lead summary) xs)"
  by (rule other_stage [OF addLeadNote_log [OF assms] call_kinds(5) call_kinds(10)])


text \<open>
  Every run of \<open>createOrUpdateByTypeform\<close> leaves the ledger alone and keeps its log
  bounded; a run that succeeds has had exactly the expected calls accepted, in their
  order, the note being the last exchange of the log.
\<close>

lemma createOrUpdate_log:
  assumes run: "createOrUpdateByTypeform srv config eL eC summary custom contact w = (r, w')"
  shows "\<exists>xs. crm_effect w w' xs \<and>
     bounded_log eL (lead_create_call config (lead_name contact)) 1 xs \<and>
     (\<forall>res. r = Inr res \<longrightarrow>
        accepted xs = expected_calls config eL eC summary custom contact res \<and>
        xs \<noteq> [] \<and> is_accepted (last xs) \<and>
        call_of (fst (last xs)) = note_call (leadId res) summary \<and>
        (\<forall>l. eL = Some l \<longrightarrow> leadId res = l) \<and>
        (eL = None \<longrightarrow> leadId res \<noteq> 0) \<and>
        (if has_contact_bits contact \<and> (\<not> truthy_num eL \<or> \<not> truthy_num eC)
         then \<exists>c. contactId res = Some c \<and> c \<noteq> 0
         else contactId res = (if \<not> truthy_num eL then None else eC)))"
proof -
  let ?c = "lead_create_call config (lead_name contact)"
  have bits: "(truthy (c_email contact) \<or> truthy (c_phone contact) \<or> truthy (c_name contact)) =
              has_contact_bits contact"
    by (simp add: has_contact_bits_def)
  from run [unfolded createOrUpdateByTypeform_def Let_def] show ?thesis
  proof (cases rule: await_cases)
    case (failed e)
    from lead_stage [OF failed(1)] obtain xs where "crm_effect w w' xs"
      "contacts_created xs = 0" "eL \<noteq> None \<longrightarrow> xs = []" "attempts_of ?c xs"
      by blast
    then have "crm_effect w w' xs \<and> bounded_log eL ?c 1 xs"
      by (auto simp: bounded_log_def no_lead_create_Nil lead_creates_are_attempts)
    with failed(2) show ?thesis by blast
  next
    case (went_on lead w1)
    from lead_stage [OF went_on(1)] obtain xs1 where x1: "crm_effect w w1 xs1"
      "contacts_created xs1 = 0" "eL \<noteq> None \<longrightarrow> xs1 = []" "attempts_of ?c xs1"
      "accepted xs1 = (case eL of None \<Rightarrow> [?c] | Some l \<Rightarrow> [])"
      "\<forall>l. eL = Some l \<longrightarrow> lead = l" "eL = None \<longrightarrow> lead \<noteq> 0"
      by blast
    then have b1: "bounded_log eL ?c 0 xs1"
      by (auto simp: bounded_log_def no_lead_create_Nil lead_creates_are_attempts)
    from went_on(2) show ?thesis
    proof (cases rule: await_cases)
      case (failed e)
      from contact_stage [OF failed(1) bits] obtain xs2 where f: "crm_effect w1 w' xs2"
        "no_lead_create xs2" "contacts_created xs2 \<le> 1"
        by blast
      have "crm_effect w w' (xs1 @ xs2)" using x1(1) f(1) by (rule crm_effect_trans)
      moreover have "bounded_log eL ?c 1 (xs1 @ xs2)"
        using bounded_log_extend [OF b1 f(2) f(3)] by simp
      ultimately show ?thesis using failed(2) by blast
    next
      case (went_on cid w2)
      from contact_stage [OF went_on(1) bits, unfolded bits]
      obtain xs2 where x2: "crm_effect w1 w2 xs2"
        "no_lead_create xs2" "contacts_created xs2 \<le> 1"
        "accepted xs2 =
          (if has_contact_bits contact \<and> (\<not> truthy_num eL \<or> \<not> truthy_num eC)
           then [contact_create_call contact] else []) @
          (case cid of
             None \<Rightarrow> []
           | Some c \<Rightarrow>
               if c \<noteq> 0 \<and> has_contact_bits contact \<and> \<not> \<not> truthy_num eL
               then [contact_update_call c contact] else [])"
        "if has_contact_bits contact \<and> (\<not> truthy_num eL \<or> \<not> truthy_num eC)
         then \<exists>c. cid = Some c \<and> c \<noteq> 0
         else cid = (if \<not> truthy_num eL then None else eC)"
        by blast
      have e2: "crm_effect w w2 (xs1 @ xs2)" using x1(1) x2(1) by (rule crm_effect_trans)
      have b2: "bounded_log eL ?c 1 (xs1 @ xs2)"
        using bounded_log_extend [OF b1 x2(2) x2(3)] by simp
      from went_on(2) show ?thesis
      proof (cases rule: await_cases)
        case (failed e)
        from link_stage [OF failed(1)] obtain xs3 where f: "crm_effect w2 w' xs3"
          "no_lead_create xs3" "contacts_created xs3 = 0"
          by blast
        have "crm_effect w w' ((xs1 @ xs2) @ xs3)" using e2 f(1) by (rule crm_effect_trans)
        moreover have "bounded_log eL ?c 1 ((xs1 @ xs2) @ xs3)"
          using bounded_log_extend [OF b2 f(2), of 0] f(3) by simp
        ultimately show ?thesis using failed(2) by blast
      next
        case (went_on u3 w3)
        from link_stage [OF went_on(1)] obtain xs3 where x3: "crm_effect w2 w3 xs3"
          "no_lead_create xs3" "contacts_created xs3 = 0"
          "accepted xs3 =
             (case cid of None \<Rightarrow> [] | Some c \<Rightarrow> if c \<noteq> 0 then [link_call lead c] else [])"
          by auto
        have e3: "crm_effect w w3 ((xs1 @ xs2) @ xs3)" using e2 x3(1) by (rule crm_effect_trans)
        have b3: "bounded_log eL ?c 1 ((xs1 @ xs2) @ xs3)"
          using bounded_log_extend [OF b2 x3(2), of 0] x3(3) by simp
        from went_on(2) show ?thesis
        proof (cases rule: await_cases)
          case (failed e)
          from custom_fields_stage [OF failed(1)] obtain xs4 where f: "crm_effect w3 w' xs4"
            "no_lead_create xs4" "contacts_created xs4 = 0"
            by blast
          have "crm_effect w w' (((xs1 @ xs2) @ xs3) @ xs4)"
            using e3 f(1) by (rule crm_effect_trans)
          moreover have "bounded_log eL ?c 1 (((xs1 @ xs2) @ xs3) @ xs4)"
            using bounded_log_extend [OF b3 f(2), of 0] f(3) by simp
          ultimately show ?thesis using failed(2) by blast
        next
          case (went_on u4 w4)
          from custom_fields_stage [OF went_on(1)] obtain xs4 where x4: "crm_effect w3 w4 xs4"
            "no_lead_create xs4" "contacts_created xs4 = 0"
            "accepted xs4 =
               (case custom of
                  None \<Rightarrow> []
                | Some fs \<Rightarrow> if fs \<noteq> [] then [lead_update_call lead fs] else [])"
            by auto
          have e4: "crm_effect w w4 (((xs1 @ xs2) @ xs3) @ xs4)"
            using e3 x4(1) by (rule crm_effect_trans)
          have b4: "bounded_log eL ?c 1 (((xs1 @ xs2) @ xs3) @ xs4)"
            using bounded_log_extend [OF b3 x4(2), of 0] x4(3) by simp
          from went_on(2) show ?thesis
          proof (cases rule: await_cases)
            case (failed e)
            from note_stage [OF failed(1)] obtain xs5 where f: "crm_effect w4 w' xs5"
              "no_lead_create xs5" "contacts_created xs5 = 0"
              by blast
            have "crm_effect w w' ((((xs1 @ xs2) @ xs3) @ xs4) @ xs5)"
              using e4 f(1) by (rule crm_effect_trans)
            moreover have "bounded_log eL ?c 1 ((((xs1 @ xs2) @ xs3) @ xs4) @ xs5)"
              using bounded_log_extend [OF b4 f(2), of 0] f(3) by simp
            ultimately show ?thesis using failed(2) by blast
          next
            case (went_on u5 w5)
            then have fin: "w' = w5" "r = Inr \<lparr> leadId = lead, contactId = cid \<rparr>"
              by (simp_all add: ret_def)
            from note_stage [OF went_on(1)] obtain xs5 where x5: "crm_effect w4 w5 xs5"
              "no_lead_create xs5" "contacts_created xs5 = 0"
              "accepted_last (note_call lead summary) xs5"
              by auto
            let ?xs = "(((xs1 @ xs2) @ xs3) @ xs4) @ xs5"
            have e5: "crm_effect w w' ?xs"
              using e4 x5(1) fin(1) crm_effect_trans by blast
            have b5: "bounded_log eL ?c 1 ?xs"
              using bounded_log_extend [OF b4 x5(2), of 0] x5(3) by simp
            have tail: "xs5 \<noteq> []" "is_accepted (last xs5)"
              "call_of (fst (last xs5)) = note_call lead summary"
              "accepted xs5 = [note_call lead summary]"
              using x5(4) by (simp_all add: accepted_last_def)
            have acc: "accepted ?xs =
                expected_calls config eL eC summary custom contact
                  \<lparr> leadId = lead, contactId = cid \<rparr>"
              using x1(5) x2(4) x3(4) x4(4) tail(4)
              by (cases cid; cases custom) (simp_all add: accepted_append expected_calls_def)
            show ?thesis
            proof (intro exI [of _ ?xs] conjI allI impI)
              show "crm_effect w w' ?xs" by (rule e5)
              show "bounded_log eL ?c 1 ?xs" by (rule b5)
            next
              fix res assume "r = Inr res"
              with fin(2) have res: "res = \<lparr> leadId = lead, contactId = cid \<rparr>" by simp
              show "accepted ?xs = expected_calls config eL eC summary custom contact res"
                using acc res by simp
              show "?xs \<noteq> []" using tail(1) by simp
              show "is_accepted (last ?xs)" using tail(1,2) by simp
              show "call_of (fst (last ?xs)) = note_call (leadId res) summary"
                using tail(1,3) res by simp
              show "leadId res = l" if "eL = Some l" for l using x1(6) that res by simp
              show "leadId res \<noteq> 0" if "eL = None" using x1(7) that res by simp
              show "if has_contact_bits contact \<and> (\<not> truthy_num eL \<or> \<not> truthy_num eC)
                    then \<exists>c. contactId res = Some c \<and> c \<noteq> 0
                    else contactId res = (if \<not> truthy_num eL then None else eC)"
                using x2(5) res by simp
            qed
          qed
        qed
      qed
    qed
  qed
qed

section \<open>The order of the calls for a new lead\<close>

text \<open>
  Claim C5. A call here is an operation of the client as the CRM accepted it; attempts
  answered 401 and token requests are the retry layer's and are not calls. For every
  reconciliation that succeeds, the note is the last exchange of the log. When no lead
  id was passed in and a contact field is present, the accepted calls are, in this
  order: create-lead, create-contact, link of the two, update-lead-custom-fields when the
  field list is not empty, add-note.
\<close>

theorem new_lead_call_order:
  assumes "createOrUpdateByTypeform srv config eL eC summary custom contact w = (Inr res, w')"
  shows "\<exists>xs. crm_effect w w' xs \<and> xs \<noteq> [] \<and> is_accepted (last xs) \<and>
     call_of (fst (last xs)) = note_call (leadId res) summary \<and>
     (eL = None \<and> has_contact_bits contact \<longrightarrow>
        (\<exists>c. contactId res = Some c \<and>
           accepted xs =
             [lead_create_call config (lead_name contact), contact_create_call contact,
              link_call (leadId res) c] @
             (case custom of
                None \<Rightarrow> []
              | Some fs \<Rightarrow> if fs \<noteq> [] then [lead_update_call (leadId res) fs] else []) @
             [note_call (leadId res) summary]))"
proof -
  from createOrUpdate_log [OF assms] obtain xs where xs: "crm_effect w w' xs"
    "accepted xs = expected_calls config eL eC summary custom contact res" "xs \<noteq> []"
    "is_accepted (last xs)" "call_of (fst (last xs)) = note_call (leadId res) summary"
    "if has_contact_bits contact \<and> (\<not> truthy_num eL \<or> \<not> truthy_num eC)
     then \<exists>c. contactId res = Some c \<and> c \<noteq> 0
     else contactId res = (if \<not> truthy_num eL then None else eC)"
    by blast
  have "\<exists>c. contactId res = Some c \<and>
           accepted xs =
             [lead_create_call config (lead_name contact), contact_create_call contact,
              link_call (leadId res) c] @
             (case custom of
                None \<Rightarrow> []
              | Some fs \<Rightarrow> if fs \<noteq> [] then [lead_update_call (leadId res) fs] else []) @
             [note_call (leadId res) summary]"
    if "eL = None" and "has_contact_bits contact"
  proof -
    from xs(6) that obtain c where c: "contactId res = Some c" "c \<noteq> 0"
      by (auto simp: truthy_num_def)
    with xs(2) that show ?thesis
      by (simp add: expected_calls_def truthy_num_def)
  qed
  with xs show ?thesis by blast
qed


lemmas client_defs =
  createOrUpdateByTypeform_def createLead_def createContact_def updateContact_def
  linkLeadToContact_def addLeadNote_def updateLeadCustomFields_def amoFetch_True run_defs
  buildContactCustomFields_def truthy_num_def Let_def

lemma accepting_new_lead:
  "fst (createOrUpdateByTypeform remote_accepting static_config None None (js ''s'')
          (Some fields_ads) contact_ab empty_world) =
     Inr \<lparr> leadId = 900, contactId = Some 800 \<rparr>"
  by (simp add: client_defs remote_accepting_def static_config_def contact_ab_def
      empty_world_def created_response_def fields_ads_def literals_nonempty js_def)

theorem new_lead_call_order_witness:
  "fst (createOrUpdateByTypeform remote_accepting static_config None None (js ''s'')
          (Some fields_ads) contact_ab empty_world) =
     Inr \<lparr> leadId = 900, contactId = Some 800 \<rparr> \<and>
   has_contact_bits contact_ab \<and>
   accepted (exchanges (snd (createOrUpdateByTypeform remote_accepting static_config None None
                               (js ''s'') (Some fields_ads) contact_ab empty_world))) =
     [lead_create_call static_config (lead_name contact_ab), contact_create_call contact_ab,
      link_call 900 800, lead_update_call 900 fields_ads, note_call 900 (js ''s'')]"
proof -
  let ?run = "createOrUpdateByTypeform remote_accepting static_config None None (js ''s'')
                (Some fields_ads) contact_ab empty_world"
  have bits: "has_contact_bits contact_ab"
    by (simp add: has_contact_bits_def contact_ab_def truthy_simps js_def)
  have run: "?run = (Inr \<lparr> leadId = 900, contactId = Some 800 \<rparr>, snd ?run)"
    using accepting_new_lead by (simp add: prod_eq_iff)
  from new_lead_call_order [OF run] bits obtain xs c where
    xs: "crm_effect empty_world (snd ?run) xs"
    and c: "contactId \<lparr> leadId = 900, contactId = Some 800 \<rparr> = Some c"
    and acc: "accepted xs =
             [lead_create_call static_config (lead_name contact_ab),
              contact_create_call contact_ab,
              link_call (leadId \<lparr> leadId = 900, contactId = Some 800 \<rparr>) c] @
             (case Some fields_ads of
                None \<Rightarrow> []
              | Some fs \<Rightarrow>
                  if fs \<noteq> []
                  then [lead_update_call (leadId \<lparr> leadId = 900, contactId = Some 800 \<rparr>) fs]
                  else []) @
             [note_call (leadId \<lparr> leadId = 900, contactId = Some 800 \<rparr>) (js ''s'')]"
    by blast
  from xs have "exchanges (snd ?run) = xs" by (simp add: crm_effect_def empty_world_def)
  with acc c have "accepted (exchanges (snd ?run)) =
     [lead_create_call static_config (lead_name contact_ab), contact_create_call contact_ab,
      link_call 900 800, lead_update_call 900 fields_ads, note_call 900 (js ''s'')]"
    by (simp add: fields_ads_def)
  with accepting_new_lead bits show ?thesis by blast
qed


section \<open>The name of a new lead\<close>

text \<open>
  Claim C8. In every run of \<open>createOrUpdateByTypeform\<close>, a request that would create a
  lead is sent only when no lead id was passed in, and it carries the name
  \<open>"Typeform: "\<close> followed by the e-mail if present, otherwise the phone if present,
  otherwise \<open>"submission"\<close>. When the run succeeds without a lead id passed in, the first
  accepted call is that creation. With a lead id passed in, the log holds no such request.
\<close>

theorem lead_name_of_new_lead:
  assumes "createOrUpdateByTypeform srv config eL eC summary custom contact w = (r, w')"
  shows "\<exists>xs. crm_effect w w' xs \<and>
     (\<forall>x \<in> set xs. rq_method (fst x) = POST \<and> rq_resource (fst x) = Leads \<longrightarrow>
        eL = None \<and>
        rq_body (fst x) =
          LeadCreateBody
            (js ''Typeform: '' @
             (case c_email contact of
                Some e \<Rightarrow> e
              | None \<Rightarrow> (case c_phone contact of Some p \<Rightarrow> p | None \<Rightarrow> js ''submission'')))
            (pipelineId config)
            (if truthy_num (initialStatusId config) then initialStatusId config else None)) \<and>
     (\<forall>res. r = Inr res \<and> eL = None \<longrightarrow>
        (\<exists>rest. accepted xs =
           (POST, Leads,
            LeadCreateBody
              (js ''Typeform: '' @
               (case c_email contact of
                  Some e \<Rightarrow> e
                | None \<Rightarrow> (case c_phone contact of Some p \<Rightarrow> p | None \<Rightarrow> js ''submission'')))
              (pipelineId config)
              (if truthy_num (initialStatusId config) then initialStatusId config else None)) #
           rest))"
proof -
  let ?c = "lead_create_call config (lead_name contact)"
  from createOrUpdate_log [OF assms] obtain xs where xs: "crm_effect w w' xs"
    "bounded_log eL ?c 1 xs"
    "\<forall>res. r = Inr res \<longrightarrow> accepted xs = expected_calls config eL eC summary custom contact res"
    by blast
  have c: "?c = (POST, Leads,
            LeadCreateBody
              (js ''Typeform: '' @
               (case c_email contact of
                  Some e \<Rightarrow> e
                | None \<Rightarrow> (case c_phone contact of Some p \<Rightarrow> p | None \<Rightarrow> js ''submission'')))
              (pipelineId config)
              (if truthy_num (initialStatusId config) then initialStatusId config else None))"
    by (simp add: lead_create_call_def lead_name_def)
  have sent: "eL = None \<and> call_of (fst x) = ?c"
    if "x \<in> set xs" and "rq_method (fst x) = POST \<and> rq_resource (fst x) = Leads" for x
  proof -
    from that(2) have l: "is_lead_create (call_of (fst x))"
      by (simp add: is_lead_create_def call_of_def)
    with xs(2) that(1) have "call_of (fst x) = ?c"
      by (simp add: bounded_log_def lead_creates_are_def)
    moreover have "eL = None"
      using xs(2) that(1) l by (auto simp: bounded_log_def no_lead_create_def)
    ultimately show ?thesis by simp
  qed
  have body: "eL = None \<and> rq_body (fst x) = snd (snd ?c)"
    if "x \<in> set xs" and "rq_method (fst x) = POST \<and> rq_resource (fst x) = Leads" for x
    using sent [OF that] by (metis call_of_def snd_conv)
  have first: "\<exists>rest. accepted xs = ?c # rest" if "r = Inr res" and "eL = None" for res
    using xs(3) that by (simp add: expected_calls_def)
  show ?thesis
    using xs(1) body first unfolding c by (intro exI [of _ xs]) auto
qed

theorem lead_name_of_new_lead_witness:
  "fst (createOrUpdateByTypeform remote_accepting static_config None None (js ''n'') None
          contact_ab empty_world) =
     Inr \<lparr> leadId = 900, contactId = Some 800 \<rparr> \<and>
   hd (accepted (exchanges (snd (createOrUpdateByTypeform remote_accepting static_config None
                                    None (js ''n'') None contact_ab empty_world)))) =
     (POST, Leads, LeadCreateBody (js ''Typeform: a@b'') 7 None)"
proof -
  let ?run = "createOrUpdateByTypeform remote_accepting static_config None None (js ''n'') None
                contact_ab empty_world"
  have res: "fst ?run = Inr \<lparr> leadId = 900, contactId = Some 800 \<rparr>"
    by (simp add: client_defs remote_accepting_def static_config_def contact_ab_def
        empty_world_def created_response_def literals_nonempty js_def)
  then have run: "?run = (Inr \<lparr> leadId = 900, contactId = Some 800 \<rparr>, snd ?run)"
    by (simp add: prod_eq_iff)
  from lead_name_of_new_lead [OF run] obtain xs rest where
    xs: "crm_effect empty_world (snd ?run) xs"
    and acc: "accepted xs =
           (POST, Leads,
            LeadCreateBody
              (js ''Typeform: '' @
               (case c_email contact_ab of
                  Some e \<Rightarrow> e
                | None \<Rightarrow> (case c_phone contact_ab of Some p \<Rightarrow> p | None \<Rightarrow> js ''submission'')))
              (pipelineId static_config)
              (if truthy_num (initialStatusId static_config) then initialStatusId static_config
               else None)) # rest"
    by blast
  from xs have "exchanges (snd ?run) = xs" by (simp add: crm_effect_def empty_world_def)
  with acc have "hd (accepted (exchanges (snd ?run))) =
     (POST, Leads, LeadCreateBody (js ''Typeform: a@b'') 7 None)"
    by (simp add: contact_ab_def static_config_def truthy_num_def js_def)
  with res show ?thesis by blast
qed

section \<open>The paths of the handler\<close>

lemma handler_malformed:
  assumes "nonempty (token (form_response p)) = None \<or> nonempty (form_id (form_response p)) = None"
  shows "typeform_webhook srv env p w =
     (\<lparr> http_status = 400, ok = False, reply_leadId = None, reply_contactId = None,
        reply_error = Some Invalid_payload \<rparr>, w)"
  using assms
  by (auto simp: typeform_webhook_def webhook_try_def ret_def split: option.splits)

lemma lookup_existing:
  "await (getSubmissionByToken tok) (\<lambda>existingByToken.
     await (case existingByToken of
              Some ex \<Rightarrow> ret (Some ex)
            | None \<Rightarrow>
               (case nonempty landing of
                  Some l \<Rightarrow> getLatestSubmissionByLandingId fid l
                | None \<Rightarrow> ret None)) k) w =
   k (find_existing tok fid landing (submissions w)) w"
  by (simp add: await_def getSubmissionByToken_def getLatestSubmissionByLandingId_def ret_def
      find_existing_def split: option.splits)

lemma webhook_try_well_formed:
  assumes "nonempty (token (form_response p)) = Some tok"
    and "nonempty (form_id (form_response p)) = Some fid"
  shows "webhook_try srv env p w =
     (let existing = find_existing tok fid (landing_id (form_response p)) (submissions w);
          w0 = logged (received_line p tok fid) w
      in if is_duplicate existing p
         then (Inr \<lparr> http_status = 200, ok = True, reply_leadId = existing_lead existing,
                     reply_contactId = None, reply_error = None \<rparr>,
               logged (Webhook_deduped (event_id p) fid tok (existing_lead existing)) w0)
         else
           (case buildLeadCustomFields (toLowerCase env) (TYPEFORM_FIELD_MAP env) p of
              Inl e \<Rightarrow> (Inl e, w0)
            | Inr fs \<Rightarrow>
               (case createOrUpdateByTypeform srv (amocrm env) (existing_lead existing)
                       (existing_contact existing) (stringifyAnswers p) (Some fs)
                       (extractContactBits p) w0 of
                  (Inl e, w1) \<Rightarrow> (Inl e, w1)
                | (Inr r, w1) \<Rightarrow>
                    (case upsertSubmission (to_instant env) (upsert_of p tok fid r) w1 of
                       (Inl e, w2) \<Rightarrow> (Inl e, w2)
                     | (Inr _, w2) \<Rightarrow>
                         (Inr \<lparr> http_status = 200, ok = True, reply_leadId = Some (leadId r),
                               reply_contactId = contactId r, reply_error = None \<rparr>,
                          logged (Webhook_processed (event_id p) fid tok (leadId r)
                                    (contactId r)) w2)))))"
proof -
  have sub: "submissions (logged l w) = submissions w" for l
    by (simp add: logged_def)
  show ?thesis
    unfolding webhook_try_def
    by (simp add: assms await_def [of "console_log _"] console_log_def lookup_existing
        logged_def [symmetric] received_line_def [symmetric] sub Let_def lift_def
        existing_lead_def [symmetric] existing_contact_def [symmetric]
        upsert_of_def [symmetric])
      (auto simp: await_def ret_def throw_def console_log_def logged_def
        split: sum.splits prod.splits)
qed


lemma logged_fields:
  "submissions (logged l w) = submissions w" "exchanges (logged l w) = exchanges w"
  "kv_store (logged l w) = kv_store w" "remote (logged l w) = remote w"
  "clock (logged l w) = clock w" "console (logged l w) = console w @ [l]"
  by (simp_all add: logged_def)

lemma upsert_fields:
  "exchanges (snd (upsertSubmission inst u w)) = exchanges w"
  "kv_store (snd (upsertSubmission inst u w)) = kv_store w"
  "remote (snd (upsertSubmission inst u w)) = remote w"
  "console (snd (upsertSubmission inst u w)) = console w"
  by (cases rule: upsertSubmission_cases [of inst u w]; simp)+

text \<open>The five ways a well-formed delivery ends.\<close>

lemma handler_outcomes:
  fixes w :: "'r world"
  assumes "nonempty (token (form_response p)) = Some tok"
    and "nonempty (form_id (form_response p)) = Some fid"
  defines "existing \<equiv> find_existing tok fid (landing_id (form_response p)) (submissions w)"
    and "w0 \<equiv> logged (received_line p tok fid) w"
  obtains (duplicate) "is_duplicate existing p"
      and "typeform_webhook srv env p w =
        (\<lparr> http_status = 200, ok = True, reply_leadId = existing_lead existing,
           reply_contactId = None, reply_error = None \<rparr>,
         logged (Webhook_deduped (event_id p) fid tok (existing_lead existing)) w0)"
  | (config_error) e where "\<not> is_duplicate existing p"
      and "buildLeadCustomFields (toLowerCase env) (TYPEFORM_FIELD_MAP env) p = Inl e"
      and "typeform_webhook srv env p w = (failure_reply e, logged (Webhook_error e) w0)"
  | (crm_error) fs e w1 where "\<not> is_duplicate existing p"
      and "buildLeadCustomFields (toLowerCase env) (TYPEFORM_FIELD_MAP env) p = Inr fs"
      and "createOrUpdateByTypeform srv (amocrm env) (existing_lead existing)
             (existing_contact existing) (stringifyAnswers p) (Some fs)
             (extractContactBits p) w0 = (Inl e, w1)"
      and "typeform_webhook srv env p w = (failure_reply e, logged (Webhook_error e) w1)"
  | (upsert_refused) fs r w1 where "\<not> is_duplicate existing p"
      and "buildLeadCustomFields (toLowerCase env) (TYPEFORM_FIELD_MAP env) p = Inr fs"
      and "createOrUpdateByTypeform srv (amocrm env) (existing_lead existing)
             (existing_contact existing) (stringifyAnswers p) (Some fs)
             (extractContactBits p) w0 = (Inr r, w1)"
      and "upsertSubmission (to_instant env) (upsert_of p tok fid r) w1 =
             (Inl InvalidTimestamp, w1)"
      and "typeform_webhook srv env p w =
             (failure_reply InvalidTimestamp, logged (Webhook_error InvalidTimestamp) w1)"
  | (processed) fs r w1 where "\<not> is_duplicate existing p"
      and "buildLeadCustomFields (toLowerCase env) (TYPEFORM_FIELD_MAP env) p = Inr fs"
      and "createOrUpdateByTypeform srv (amocrm env) (existing_lead existing)
             (existing_contact existing) (stringifyAnswers p) (Some fs)
             (extractContactBits p) w0 = (Inr r, w1)"
      and "typeform_webhook srv env p w =
        (\<lparr> http_status = 200, ok = True, reply_leadId = Some (leadId r),
           reply_contactId = contactId r, reply_error = None \<rparr>,
         logged (Webhook_processed (event_id p) fid tok (leadId r) (contactId r))
           (snd (upsertSubmission (to_instant env) (upsert_of p tok fid r) w1)))"
      and "fst (upsertSubmission (to_instant env) (upsert_of p tok fid r) w1) = Inr ()"
proof -
  note wt = webhook_try_well_formed [OF assms(1,2), of srv env w, folded existing_def w0_def]
  show ?thesis
  proof (cases "is_duplicate existing p")
    case True
    with wt have "typeform_webhook srv env p w =
        (\<lparr> http_status = 200, ok = True, reply_leadId = existing_lead existing,
           reply_contactId = None, reply_error = None \<rparr>,
         logged (Webhook_deduped (event_id p) fid tok (existing_lead existing)) w0)"
      by (simp add: typeform_webhook_def Let_def)
    with True duplicate show ?thesis by blast
  next
    case False
    show ?thesis
    proof (cases "buildLeadCustomFields (toLowerCase env) (TYPEFORM_FIELD_MAP env) p")
      case (Inl e)
      with wt False have "typeform_webhook srv env p w =
          (failure_reply e, logged (Webhook_error e) w0)"
        by (simp add: typeform_webhook_def Let_def failure_reply_def logged_def)
      with False Inl config_error show ?thesis by blast
    next
      case (Inr fs)
      show ?thesis
      proof (cases "createOrUpdateByTypeform srv (amocrm env) (existing_lead existing)
             (existing_contact existing) (stringifyAnswers p) (Some fs)
             (extractContactBits p) w0")
        case (Pair a w1)
        show ?thesis
        proof (cases a)
          case (Inl e)
          with wt False Inr Pair have "typeform_webhook srv env p w =
              (failure_reply e, logged (Webhook_error e) w1)"
            by (simp add: typeform_webhook_def Let_def failure_reply_def logged_def)
          with False Inr Pair Inl crm_error show ?thesis by blast
        next
          case inr: (Inr r)
          show ?thesis
          proof (cases rule: upsertSubmission_cases
              [of "to_instant env" "upsert_of p tok fid r" w1])
            case refused
            with wt False Inr Pair inr have "typeform_webhook srv env p w =
                (failure_reply InvalidTimestamp, logged (Webhook_error InvalidTimestamp) w1)"
              by (simp add: typeform_webhook_def Let_def failure_reply_def logged_def)
            with False Inr Pair inr refused upsert_refused show ?thesis by blast
          next
            case (accepted at)
            with wt False Inr Pair inr have "typeform_webhook srv env p w =
              (\<lparr> http_status = 200, ok = True, reply_leadId = Some (leadId r),
                 reply_contactId = contactId r, reply_error = None \<rparr>,
               logged (Webhook_processed (event_id p) fid tok (leadId r) (contactId r))
                 (snd (upsertSubmission (to_instant env) (upsert_of p tok fid r) w1)))"
              by (simp add: typeform_webhook_def Let_def)
            moreover from accepted
            have "fst (upsertSubmission (to_instant env) (upsert_of p tok fid r) w1) = Inr ()"
              by simp
            ultimately show ?thesis using False Inr Pair inr processed by blast
          qed
        qed
      qed
    qed
  qed
qed

section \<open>A failed delivery leaves the ledger as it was\<close>

text \<open>
  Claim C6. A delivery without a response token or a form id is answered 400 and changes
  nothing at all. A delivery that is not answered 200 leaves the table of submissions as
  it was. And whenever the table has changed, the reconciliation had completed: the log
  of the delivery ends with the accepted add-note call.
\<close>

theorem failed_delivery_keeps_ledger:
  "(nonempty (token (form_response p)) = None \<or> nonempty (form_id (form_response p)) = None \<longrightarrow>
      typeform_webhook srv env p w =
        (\<lparr> http_status = 400, ok = False, reply_leadId = None, reply_contactId = None,
           reply_error = Some Invalid_payload \<rparr>, w)) \<and>
   (http_status (fst (typeform_webhook srv env p w)) \<noteq> 200 \<longrightarrow>
      submissions (snd (typeform_webhook srv env p w)) = submissions w) \<and>
   (submissions (snd (typeform_webhook srv env p w)) \<noteq> submissions w \<longrightarrow>
      (\<exists>xs l. exchanges (snd (typeform_webhook srv env p w)) = exchanges w @ xs \<and> xs \<noteq> [] \<and>
         is_accepted (last xs) \<and> call_of (fst (last xs)) = note_call l (stringifyAnswers p)))"
proof (cases "nonempty (token (form_response p)) = None \<or>
              nonempty (form_id (form_response p)) = None")
  case True
  from handler_malformed [OF True, of srv env w] True show ?thesis by simp
next
  case False
  then obtain tok fid where wf: "nonempty (token (form_response p)) = Some tok"
    "nonempty (form_id (form_response p)) = Some fid"
    by auto
  from wf show ?thesis
  proof (cases rule: handler_outcomes [where srv = srv and env = env and w = w])
    case duplicate
    with wf show ?thesis by (simp add: logged_fields failure_reply_def)
  next
    case (config_error e)
    with wf show ?thesis by (simp add: logged_fields failure_reply_def)
  next
    case (crm_error fs e w1)
    from createOrUpdate_log [OF crm_error(3)] obtain xs where
      "crm_effect (logged (received_line p tok fid) w) w1 xs"
      by blast
    then have "submissions w1 = submissions w" by (simp add: crm_effect_def logged_fields)
    with crm_error(4) wf show ?thesis by (simp add: logged_fields failure_reply_def)
  next
    case (upsert_refused fs r w1)
    from createOrUpdate_log [OF upsert_refused(3)] obtain xs where
      "crm_effect (logged (received_line p tok fid) w) w1 xs"
      by blast
    then have "submissions w1 = submissions w" by (simp add: crm_effect_def logged_fields)
    with upsert_refused(5) wf show ?thesis by (simp add: logged_fields failure_reply_def)
  next
    case (processed fs r w1)
    from createOrUpdate_log [OF processed(3)] obtain xs where
      xs: "crm_effect (logged (received_line p tok fid) w) w1 xs" "xs \<noteq> []"
      "is_accepted (last xs)" "call_of (fst (last xs)) = note_call (leadId r) (stringifyAnswers p)"
      by blast
    from xs(1) have "exchanges w1 = exchanges w @ xs" by (simp add: crm_effect_def logged_fields)
    with processed(4) xs(2,3,4) wf show ?thesis
      by (auto simp: logged_fields upsert_fields)
  qed
qed


lemma payload_E2_fields:
  "nonempty (token (form_response payload_E2)) = Some (js ''T1'')"
  "nonempty (form_id (form_response payload_E2)) = Some (js ''F1'')"
  "landing_id (form_response payload_E2) = None"
  "submitted_at (form_response payload_E2) = None"
  "event_id payload_E2 = Some (js ''E2'')"
  "event_type payload_E2 = Some (js ''form_response'')"
  by (simp_all add: payload_E2_def nonempty_def js_def)

lemma extract_payload_E2: "extractContactBits payload_E2 = contact_ab"
  by (simp add: extractContactBits_def Let_def answers_of_def hidden_of_def payload_E2_def
      scan_answer_def answer_email_def fill_from_hidden_def contact_ab_def truthy_simps js_def)

lemma existing_ledger_501:
  "find_existing (js ''T1'') fid landing (submissions ledger_501) = Some row_501"
  by (simp add: find_existing_def ledger_501_def row_501_def)

lemma row_501_ids: "amo_lead_id row_501 = Some 501" "amo_contact_id row_501 = None"
  by (simp_all add: row_501_def)

lemma not_duplicate_501: "\<not> is_duplicate (Some row_501) payload_E2"
  by (simp add: is_duplicate_def row_501_def payload_E2_fields js_def)

lemma refusing_run:
  "fst (createOrUpdateByTypeform remote_refusing oauth_config (Some 501) None summary custom
          contact_ab (logged l ledger_501)) = Inl (RefreshFailed 400 [])"
  by (simp add: client_defs remote_refusing_def oauth_config_def contact_ab_def logged_def
      ledger_501_def plain_response_def KV_distinct literals_nonempty js_def)

theorem failed_delivery_keeps_ledger_witness:
  "nonempty (token (form_response payload_no_token)) = None \<and>
   typeform_webhook remote_refusing env_oauth payload_no_token ledger_501 =
     (\<lparr> http_status = 400, ok = False, reply_leadId = None, reply_contactId = None,
        reply_error = Some Invalid_payload \<rparr>, ledger_501) \<and>
   fst (typeform_webhook remote_refusing env_oauth payload_E2 ledger_501) =
     failure_reply (RefreshFailed 400 []) \<and>
   submissions (snd (typeform_webhook remote_refusing env_oauth payload_E2 ledger_501)) =
     [row_501]"
proof -
  have h: "nonempty (token (form_response payload_no_token)) = None"
    by (simp add: payload_no_token_def nonempty_def)
  with failed_delivery_keeps_ledger [of payload_no_token remote_refusing env_oauth ledger_501]
  have a: "typeform_webhook remote_refusing env_oauth payload_no_token ledger_501 =
     (\<lparr> http_status = 400, ok = False, reply_leadId = None, reply_contactId = None,
        reply_error = Some Invalid_payload \<rparr>, ledger_501)"
    by blast
  let ?w0 = "logged (received_line payload_E2 (js ''T1'') (js ''F1'')) ledger_501"
  obtain w1 where run:
    "createOrUpdateByTypeform remote_refusing oauth_config (Some 501) None
       (stringifyAnswers payload_E2)
       (Some [\<lparr> cf_field_id = FieldNum 214697, cf_value = Some (js ''a@b''),
                cf_enum_id = None \<rparr>])
       contact_ab ?w0 = (Inl (RefreshFailed 400 []), w1)"
    using refusing_run by (metis prod.collapse)
  have b: "fst (typeform_webhook remote_refusing env_oauth payload_E2 ledger_501) =
     failure_reply (RefreshFailed 400 [])"
    by (simp add: typeform_webhook_def
        webhook_try_well_formed [OF payload_E2_fields(1) payload_E2_fields(2)] Let_def
        payload_E2_fields(3) existing_ledger_501 not_duplicate_501 env_oauth_def
        build_payload_E2 existing_lead_def existing_contact_def row_501_ids
        extract_payload_E2 run failure_reply_def)
  then have "http_status (fst (typeform_webhook remote_refusing env_oauth payload_E2 ledger_501))
             \<noteq> 200"
    by (simp add: failure_reply_def)
  with failed_delivery_keeps_ledger [of payload_E2 remote_refusing env_oauth ledger_501]
  have "submissions (snd (typeform_webhook remote_refusing env_oauth payload_E2 ledger_501)) =
        submissions ledger_501"
    by blast
  then have c: "submissions (snd (typeform_webhook remote_refusing env_oauth payload_E2
                                    ledger_501)) = [row_501]"
    by (simp add: ledger_501_def)
  from h a b c show ?thesis by blast
qed

section \<open>Duplicates\<close>

lemma find_insert_on_conflict_new:
  "find (\<lambda>r. response_token r = response_token e) rows = None \<Longrightarrow>
   find (\<lambda>r. response_token r = response_token e) (insert_on_conflict e rows) = Some e"
  by (induction rows) (auto split: if_splits)

lemma upserted_row:
  assumes "fst (upsertSubmission inst u w) = Inr ()"
  shows "\<exists>row. find (\<lambda>r. response_token r = responseToken u)
            (submissions (snd (upsertSubmission inst u w))) = Some row \<and>
         last_payload row = Some (lastPayload u) \<and> r_form_id row = formId u \<and>
         (\<forall>l. amoLeadId u = Some l \<longrightarrow> amo_lead_id row = Some l) \<and>
         (\<forall>c. amoContactId u = Some c \<longrightarrow> amo_contact_id row = Some c) \<and>
         (\<forall>e. lastEventId u = Some e \<longrightarrow> last_event_id row = Some e)"
proof (cases rule: upsertSubmission_cases [of inst u w])
  case refused
  with assms show ?thesis by simp
next
  case (accepted at)
  let ?e = "excluded_row u at (clock w)"
  have tok: "response_token ?e = responseToken u" by (simp add: excluded_row_def)
  show ?thesis
  proof (cases "find (\<lambda>r. response_token r = response_token ?e) (submissions w)")
    case None
    from find_insert_on_conflict_new [OF None] show ?thesis
      by (simp add: accepted tok) (simp add: excluded_row_def)
  next
    case (Some old)
    from find_insert_on_conflict [OF Some] show ?thesis
      by (simp add: accepted tok)
        (simp add: excluded_row_def on_conflict_update_def coalesce_def)
  qed
qed

lemma is_duplicate_iff:
  "is_duplicate existing p =
     (\<exists>ex e. existing = Some ex \<and> event_id p = Some e \<and> e \<noteq> [] \<and> last_event_id ex = Some e)"
  by (cases existing; cases "event_id p") (auto simp: is_duplicate_def truthy_simps)

text \<open>A duplicate is answered from the ledger and only the console grows.\<close>

lemma duplicate_reply:
  assumes "nonempty (token (form_response p)) = Some tok"
    and "nonempty (form_id (form_response p)) = Some fid"
    and "find_existing tok fid (landing_id (form_response p)) (submissions w) = Some ex"
    and "event_id p = Some e" and "e \<noteq> []" and "last_event_id ex = Some e"
  shows "typeform_webhook srv env p w =
     (\<lparr> http_status = 200, ok = True, reply_leadId = amo_lead_id ex, reply_contactId = None,
        reply_error = None \<rparr>,
      logged (Webhook_deduped (Some e) fid tok (amo_lead_id ex))
        (logged (received_line p tok fid) w))"
proof -
  have dup: "is_duplicate (find_existing tok fid (landing_id (form_response p)) (submissions w)) p"
    using assms(3-6) by (simp add: is_duplicate_iff)
  from assms(1,2) show ?thesis
  proof (cases rule: handler_outcomes [where srv = srv and env = env and w = w])
    case duplicate
    then show ?thesis using assms(3,4) by (simp add: existing_lead_def)
  qed (use dup in simp_all)
qed

lemma same_but_console_logged: "same_but_console w (logged l w)"
  by (simp add: same_but_console_def logged_fields)

lemma same_but_console_trans:
  "same_but_console w w1 \<Longrightarrow> same_but_console w1 w2 \<Longrightarrow> same_but_console w w2"
  by (simp add: same_but_console_def)

lemma duplicates_forever:
  assumes "nonempty (token (form_response p)) = Some tok"
    and "nonempty (form_id (form_response p)) = Some fid"
    and "find_existing tok fid (landing_id (form_response p)) (submissions w) = Some ex"
    and "event_id p = Some e" and "e \<noteq> []" and "last_event_id ex = Some e"
  shows "fst (deliveries n srv env p w) =
           replicate n \<lparr> http_status = 200, ok = True, reply_leadId = amo_lead_id ex,
                          reply_contactId = None, reply_error = None \<rparr> \<and>
         same_but_console w (snd (deliveries n srv env p w))"
  using assms(3)
proof (induction n arbitrary: w)
  case 0
  show ?case by (simp add: same_but_console_def)
next
  case (Suc n)
  let ?w1 = "logged (Webhook_deduped (Some e) fid tok (amo_lead_id ex))
               (logged (received_line p tok fid) w)"
  have first: "typeform_webhook srv env p w =
     (\<lparr> http_status = 200, ok = True, reply_leadId = amo_lead_id ex, reply_contactId = None,
        reply_error = None \<rparr>, ?w1)"
    by (rule duplicate_reply [OF assms(1,2) Suc.prems assms(4,5,6)])
  have same: "same_but_console w ?w1"
    using same_but_console_logged same_but_console_trans by blast
  then have "find_existing tok fid (landing_id (form_response p)) (submissions ?w1) = Some ex"
    using Suc.prems by (simp add: same_but_console_def)
  from Suc.IH [OF this] same show ?case
    by (auto simp: first split: prod.splits intro: same_but_console_trans)
qed

text \<open>After a delivery answered 200 the ledger holds the event under its token.\<close>

lemma recorded_after_success:
  fixes w :: "'r world"
  assumes wf: "nonempty (token (form_response p)) = Some tok"
    "nonempty (form_id (form_response p)) = Some fid"
    and ev: "event_id p = Some e" "e \<noteq> []"
    and ok: "http_status (fst (typeform_webhook srv env p w)) = 200"
  shows "\<exists>ex. find_existing tok fid (landing_id (form_response p))
               (submissions (snd (typeform_webhook srv env p w))) = Some ex \<and>
              last_event_id ex = Some e \<and>
              amo_lead_id ex = reply_leadId (fst (typeform_webhook srv env p w)) \<and>
              ok (fst (typeform_webhook srv env p w)) \<and>
              reply_error (fst (typeform_webhook srv env p w)) = None"
  using wf
proof (cases rule: handler_outcomes [where srv = srv and env = env and w = w])
  case duplicate
  then obtain ex where "find_existing tok fid (landing_id (form_response p)) (submissions w) =
                          Some ex" "last_event_id ex = Some e"
    using ev by (auto simp: is_duplicate_iff)
  with duplicate(2) show ?thesis by (simp add: logged_fields existing_lead_def)
next
  case (config_error e')
  with ok show ?thesis by (simp add: failure_reply_def)
next
  case (crm_error fs e' w1)
  with ok show ?thesis by (simp add: failure_reply_def)
next
  case (upsert_refused fs r w1)
  with ok show ?thesis by (simp add: failure_reply_def)
next
  case (processed fs r w1)
  from upserted_row [OF processed(5)] obtain row where
    row: "find (\<lambda>x. response_token x = tok)
            (submissions (snd (upsertSubmission (to_instant env) (upsert_of p tok fid r) w1))) =
          Some row"
    "amo_lead_id row = Some (leadId r)" "last_event_id row = Some e"
    using ev by (auto simp: upsert_of_def)
  then have "find_existing tok fid (landing_id (form_response p))
               (submissions (snd (upsertSubmission (to_instant env) (upsert_of p tok fid r) w1))) =
             Some row"
    by (simp add: find_existing_def)
  with processed(4) row show ?thesis by (simp add: logged_fields)
qed


text \<open>
  What the duplicate branch does. A well-formed delivery with a non-empty event id, for
  which the lookup (by token, else by form and landing id) finds a record whose
  \<open>last_event_id\<close> is that event id, makes no remote call and no write: it is answered
  200 with the recorded lead id, and the world grows by two console lines only. And once
  a delivery with a non-empty event id has been answered 200, every further delivery of
  it is answered 200 with the same lead id, the world changing in its console only.
\<close>

lemma duplicate_answered_from_ledger:
  fixes w :: "'r world"
  assumes "nonempty (token (form_response p)) = Some tok"
    and "nonempty (form_id (form_response p)) = Some fid"
  shows "(\<forall>ex e.
       find_existing tok fid (landing_id (form_response p)) (submissions w) = Some ex \<and>
       event_id p = Some e \<and> e \<noteq> [] \<and> last_event_id ex = Some e \<longrightarrow>
       typeform_webhook srv env p w =
         (\<lparr> http_status = 200, ok = True, reply_leadId = amo_lead_id ex,
            reply_contactId = None, reply_error = None \<rparr>,
          logged (Webhook_deduped (Some e) fid tok (amo_lead_id ex))
            (logged (received_line p tok fid) w))) \<and>
     (\<forall>e n.
       event_id p = Some e \<and> e \<noteq> [] \<and>
       http_status (fst (typeform_webhook srv env p w)) = 200 \<longrightarrow>
       fst (deliveries n srv env p (snd (typeform_webhook srv env p w))) =
         replicate n
           \<lparr> http_status = 200, ok = True,
             reply_leadId = reply_leadId (fst (typeform_webhook srv env p w)),
             reply_contactId = None, reply_error = None \<rparr> \<and>
       same_but_console (snd (typeform_webhook srv env p w))
         (snd (deliveries n srv env p (snd (typeform_webhook srv env p w)))))"
proof (intro conjI allI impI)
  fix ex e
  assume "find_existing tok fid (landing_id (form_response p)) (submissions w) = Some ex \<and>
          event_id p = Some e \<and> e \<noteq> [] \<and> last_event_id ex = Some e"
  then show "typeform_webhook srv env p w =
         (\<lparr> http_status = 200, ok = True, reply_leadId = amo_lead_id ex,
            reply_contactId = None, reply_error = None \<rparr>,
          logged (Webhook_deduped (Some e) fid tok (amo_lead_id ex))
            (logged (received_line p tok fid) w))"
    using duplicate_reply [OF assms] by blast
next
  fix e n
  assume a: "event_id p = Some e \<and> e \<noteq> [] \<and>
             http_status (fst (typeform_webhook srv env p w)) = 200"
  let ?rep = "fst (typeform_webhook srv env p w)"
  let ?w1 = "snd (typeform_webhook srv env p w)"
  from a recorded_after_success [OF assms, of e srv env w] obtain ex where
    ex: "find_existing tok fid (landing_id (form_response p)) (submissions ?w1) = Some ex"
    "last_event_id ex = Some e" "amo_lead_id ex = reply_leadId ?rep"
    by blast
  from a have ev: "event_id p = Some e" "e \<noteq> []" by simp_all
  from duplicates_forever [OF assms ex(1) ev ex(2), of n srv env]
  show "fst (deliveries n srv env p ?w1) =
         replicate n
           \<lparr> http_status = 200, ok = True, reply_leadId = reply_leadId ?rep,
             reply_contactId = None, reply_error = None \<rparr>"
    and "same_but_console ?w1 (snd (deliveries n srv env p ?w1))"
    by (simp_all add: ex(3))
qed

lemma existing_ledger_done:
  "find_existing (js ''T1'') fid landing (submissions ledger_done) = Some row_done"
  by (simp add: find_existing_def ledger_done_def row_done_def row_501_def)

lemma row_done_fields:
  "last_event_id row_done = Some (js ''E2'')" "amo_lead_id row_done = Some 501"
  "amo_contact_id row_done = Some 77"
  by (simp_all add: row_done_def row_501_def)

lemma E2_nonempty: "js ''E2'' \<noteq> []"
  by (simp add: js_def)

text \<open>
  Claim C1. The claim has a duplicate answered with both recorded ids, the lead's and
  the contact's. The duplicate branch builds its reply from \<open>existing.amo_lead_id\<close>
  alone, while the reply of a processed delivery carries both ids. On the ledger that
  holds, under token \<open>T1\<close>, event \<open>E2\<close> with lead 501 and contact 77, the delivery of
  \<open>E2\<close> finds that record, makes no remote call and no write, and is answered 200 with
  lead 501 and no contact id.
\<close>

theorem duplicate_reply_omits_contact_id:
  "find (\<lambda>r. response_token r = js ''T1'') (submissions ledger_done) = Some row_done \<and>
   last_event_id row_done = event_id payload_E2 \<and>
   amo_lead_id row_done = Some 501 \<and>
   amo_contact_id row_done = Some 77 \<and>
   typeform_webhook remote_accepting env_static payload_E2 ledger_done =
     (\<lparr> http_status = 200, ok = True, reply_leadId = Some 501, reply_contactId = None,
        reply_error = None \<rparr>,
      logged (Webhook_deduped (Some (js ''E2'')) (js ''F1'') (js ''T1'') (Some 501))
        (logged (received_line payload_E2 (js ''T1'') (js ''F1'')) ledger_done)) \<and>
   exchanges (snd (typeform_webhook remote_accepting env_static payload_E2 ledger_done)) = [] \<and>
   submissions (snd (typeform_webhook remote_accepting env_static payload_E2 ledger_done)) =
     [row_done]"
  using duplicate_reply [OF payload_E2_fields(1) payload_E2_fields(2) existing_ledger_done
      payload_E2_fields(5) E2_nonempty row_done_fields(1), of remote_accepting env_static]
  by (simp add: row_done_fields payload_E2_fields logged_fields)
    (simp add: ledger_done_def ledger_501_def row_done_def row_501_def)

lemma accepting_existing_lead:
  "fst (createOrUpdateByTypeform remote_accepting static_config (Some 501) None summary
          (Some custom) contact_ab (logged l ledger_501)) =
     Inr \<lparr> leadId = 501, contactId = Some 800 \<rparr>"
  by (simp add: client_defs remote_accepting_def static_config_def contact_ab_def logged_def
      ledger_501_def created_response_def KV_distinct literals_nonempty js_def)

lemma upsert_undated:
  assumes "submitted_at (form_response p) = None"
  shows "upsertSubmission inst (upsert_of p tok fid r) w =
     (Inr (),
      w\<lparr> submissions :=
           insert_on_conflict (excluded_row (upsert_of p tok fid r) None (clock w))
             (submissions w),
         clock := Suc (clock w) \<rparr>)"
  using assms by (simp add: upsertSubmission_def bind_submitted_at_def upsert_of_def)

lemma processed_E2:
  "fst (typeform_webhook remote_accepting env_static payload_E2 ledger_501) =
     \<lparr> http_status = 200, ok = True, reply_leadId = Some 501, reply_contactId = Some 800,
       reply_error = None \<rparr>"
proof -
  obtain w1 where run:
    "createOrUpdateByTypeform remote_accepting static_config (Some 501) None
       (stringifyAnswers payload_E2)
       (Some [\<lparr> cf_field_id = FieldNum 214697, cf_value = Some (js ''a@b''),
                cf_enum_id = None \<rparr>])
       contact_ab (logged (received_line payload_E2 (js ''T1'') (js ''F1'')) ledger_501) =
     (Inr \<lparr> leadId = 501, contactId = Some 800 \<rparr>, w1)"
    using accepting_existing_lead by (metis prod.collapse)
  show ?thesis
    by (simp add: typeform_webhook_def
        webhook_try_well_formed [OF payload_E2_fields(1) payload_E2_fields(2)] Let_def
        payload_E2_fields(3) existing_ledger_501 not_duplicate_501 env_static_def
        build_payload_E2 existing_lead_def existing_contact_def row_501_ids
        extract_payload_E2 run upsert_undated [OF payload_E2_fields(4)])
qed

section \<open>A delivery without an event id\<close>

text \<open>
  Claim C9. For a well-formed delivery: the handler takes the duplicate path (its last
  console line is the deduped one) only if a record was found and the event id is
  present, non-empty and equal to the record's \<open>last_event_id\<close>. So with the event id
  absent the delivery never ends on the deduped line, whatever the ledger holds. It is
  then answered 200 exactly when the custom fields are built, the reconciliation called
  with the ids of the record found returns, and the upsert is accepted; and when it is
  answered 200, the calls the CRM accepted are the whole reconciliation for those ids, in
  order and ending with the note as the last exchange, the reply carries the ids the
  reconciliation returned, and the ledger holds under the token a row with the form id,
  the payload and those ids.
\<close>

theorem absent_event_id_never_duplicate:
  fixes w :: "'r world" and srv :: "'r server" and env :: app_env
  assumes "nonempty (token (form_response p)) = Some tok"
    and "nonempty (form_id (form_response p)) = Some fid"
  defines "existing \<equiv> find_existing tok fid (landing_id (form_response p)) (submissions w)"
    and "rep \<equiv> fst (typeform_webhook srv env p w)"
    and "w' \<equiv> snd (typeform_webhook srv env p w)"
  shows "((\<exists>a b c d. last (console w') = Webhook_deduped a b c d) \<longrightarrow>
          (\<exists>ex e. existing = Some ex \<and> event_id p = Some e \<and> e \<noteq> [] \<and>
             last_event_id ex = Some e)) \<and>
     (event_id p = None \<longrightarrow>
        (\<forall>a b c d. last (console w') \<noteq> Webhook_deduped a b c d) \<and>
        ((http_status rep = 200) =
           (\<exists>fs r w1.
              buildLeadCustomFields (toLowerCase env) (TYPEFORM_FIELD_MAP env) p = Inr fs \<and>
              createOrUpdateByTypeform srv (amocrm env) (existing_lead existing)
                (existing_contact existing) (stringifyAnswers p) (Some fs)
                (extractContactBits p) (logged (received_line p tok fid) w) = (Inr r, w1) \<and>
              fst (upsertSubmission (to_instant env) (upsert_of p tok fid r) w1) = Inr ())) \<and>
        (http_status rep = 200 \<longrightarrow>
           (\<exists>xs fs r row.
              exchanges w' = exchanges w @ xs \<and>
              buildLeadCustomFields (toLowerCase env) (TYPEFORM_FIELD_MAP env) p = Inr fs \<and>
              rep = \<lparr> http_status = 200, ok = True, reply_leadId = Some (leadId r),
                      reply_contactId = contactId r, reply_error = None \<rparr> \<and>
              accepted xs =
                expected_calls (amocrm env) (existing_lead existing) (existing_contact existing)
                  (stringifyAnswers p) (Some fs) (extractContactBits p) r \<and>
              xs \<noteq> [] \<and> is_accepted (last xs) \<and>
              call_of (fst (last xs)) = note_call (leadId r) (stringifyAnswers p) \<and>
              find (\<lambda>r. response_token r = tok) (submissions w') = Some row \<and>
              r_form_id row = fid \<and> last_payload row = Some p \<and>
              amo_lead_id row = Some (leadId r) \<and>
              (\<forall>c. contactId r = Some c \<longrightarrow> amo_contact_id row = Some c))))"
proof -
  have deduped: "\<exists>ex e. existing = Some ex \<and> event_id p = Some e \<and> e \<noteq> [] \<and>
                        last_event_id ex = Some e"
    if "\<exists>a b c d. last (console w') = Webhook_deduped a b c d"
    using assms(1,2)
  proof (cases rule: handler_outcomes [where srv = srv and env = env and w = w])
    case duplicate
    then show ?thesis by (simp add: is_duplicate_iff existing_def)
  next
    case (config_error e)
    with that show ?thesis by (simp add: logged_fields w'_def)
  next
    case (crm_error fs e w1)
    with that show ?thesis by (simp add: logged_fields w'_def)
  next
    case (upsert_refused fs r w1)
    with that show ?thesis by (simp add: logged_fields w'_def)
  next
    case (processed fs r w1)
    with that show ?thesis by (simp add: logged_fields w'_def)
  qed
  have absent: "\<not> is_duplicate existing p" if "event_id p = None"
    using that by (simp add: is_duplicate_iff)
  have line: "last (console w') \<noteq> Webhook_deduped a b c d" if "event_id p = None" for a b c d
    using deduped that by auto
  have answered: "(http_status rep = 200) =
           (\<exists>fs r w1.
              buildLeadCustomFields (toLowerCase env) (TYPEFORM_FIELD_MAP env) p = Inr fs \<and>
              createOrUpdateByTypeform srv (amocrm env) (existing_lead existing)
                (existing_contact existing) (stringifyAnswers p) (Some fs)
                (extractContactBits p) (logged (received_line p tok fid) w) = (Inr r, w1) \<and>
              fst (upsertSubmission (to_instant env) (upsert_of p tok fid r) w1) = Inr ())"
    if none: "event_id p = None"
    using assms(1,2)
  proof (cases rule: handler_outcomes [where srv = srv and env = env and w = w])
    case duplicate
    with absent [OF none] show ?thesis by (simp add: existing_def)
  next
    case (config_error e)
    then show ?thesis by (simp add: failure_reply_def rep_def)
  next
    case (crm_error fs e w1)
    then show ?thesis by (simp add: failure_reply_def rep_def existing_def)
  next
    case (upsert_refused fs r w1)
    then show ?thesis by (simp add: failure_reply_def rep_def existing_def)
  next
    case (processed fs r w1)
    then show ?thesis by (simp add: rep_def existing_def)
  qed
  have completed: "\<exists>xs fs r row.
              exchanges w' = exchanges w @ xs \<and>
              buildLeadCustomFields (toLowerCase env) (TYPEFORM_FIELD_MAP env) p = Inr fs \<and>
              rep = \<lparr> http_status = 200, ok = True, reply_leadId = Some (leadId r),
                      reply_contactId = contactId r, reply_error = None \<rparr> \<and>
              accepted xs =
                expected_calls (amocrm env) (existing_lead existing) (existing_contact existing)
                  (stringifyAnswers p) (Some fs) (extractContactBits p) r \<and>
              xs \<noteq> [] \<and> is_accepted (last xs) \<and>
              call_of (fst (last xs)) = note_call (leadId r) (stringifyAnswers p) \<and>
              find (\<lambda>r. response_token r = tok) (submissions w') = Some row \<and>
              r_form_id row = fid \<and> last_payload row = Some p \<and>
              amo_lead_id row = Some (leadId r) \<and>
              (\<forall>c. contactId r = Some c \<longrightarrow> amo_contact_id row = Some c)"
    if none: "event_id p = None" and ok: "http_status rep = 200"
    using assms(1,2)
  proof (cases rule: handler_outcomes [where srv = srv and env = env and w = w])
    case duplicate
    with absent [OF none] show ?thesis by (simp add: existing_def)
  next
    case (config_error e)
    with ok show ?thesis by (simp add: failure_reply_def rep_def)
  next
    case (crm_error fs e w1)
    with ok show ?thesis by (simp add: failure_reply_def rep_def)
  next
    case (upsert_refused fs r w1)
    with ok show ?thesis by (simp add: failure_reply_def rep_def)
  next
    case (processed fs r w1)
    from createOrUpdate_log [OF processed(3)] obtain xs where
      xs: "crm_effect (logged (received_line p tok fid) w) w1 xs"
      "accepted xs =
         expected_calls (amocrm env) (existing_lead existing) (existing_contact existing)
           (stringifyAnswers p) (Some fs) (extractContactBits p) r"
      "xs \<noteq> []" "is_accepted (last xs)"
      "call_of (fst (last xs)) = note_call (leadId r) (stringifyAnswers p)"
      unfolding existing_def by blast
    from xs(1) have ex: "exchanges w1 = exchanges w @ xs"
      by (simp add: crm_effect_def logged_fields)
    from upserted_row [OF processed(5)] obtain row where
      row: "find (\<lambda>x. response_token x = tok)
         (submissions (snd (upsertSubmission (to_instant env) (upsert_of p tok fid r) w1))) =
        Some row"
      "last_payload row = Some p" "r_form_id row = fid" "amo_lead_id row = Some (leadId r)"
      "\<forall>c. contactId r = Some c \<longrightarrow> amo_contact_id row = Some c"
      by (auto simp: upsert_of_def)
    from processed(4) ex have "exchanges w' = exchanges w @ xs"
      by (simp add: w'_def logged_fields upsert_fields)
    moreover from processed(4) have
      "rep = \<lparr> http_status = 200, ok = True, reply_leadId = Some (leadId r),
               reply_contactId = contactId r, reply_error = None \<rparr>"
      by (simp add: rep_def)
    moreover from processed(4) row(1) have
      "find (\<lambda>r. response_token r = tok) (submissions w') = Some row"
      by (simp add: w'_def logged_fields)
    ultimately show ?thesis
      using processed(2) xs(2-5) row(2-5) by blast
  qed
  from deduped line answered completed show ?thesis by blast
qed

lemma payload_no_event_fields:
  "nonempty (token (form_response payload_no_event)) = Some (js ''T1'')"
  "nonempty (form_id (form_response payload_no_event)) = Some (js ''F1'')"
  "event_id payload_no_event = None"
  by (simp_all add: payload_no_event_def payload_E2_fields)

lemma event_id_irrelevant:
  "buildLeadCustomFields lc raw (p\<lparr> event_id := x \<rparr>) = buildLeadCustomFields lc raw p"
  "extractContactBits (p\<lparr> event_id := x \<rparr>) = extractContactBits p"
proof -
  have a: "answers_of (p\<lparr> event_id := x \<rparr>) = answers_of p"
    and h: "hidden_of (p\<lparr> event_id := x \<rparr>) = hidden_of p"
    by (simp_all add: answers_of_def hidden_of_def)
  show "buildLeadCustomFields lc raw (p\<lparr> event_id := x \<rparr>) = buildLeadCustomFields lc raw p"
    unfolding buildLeadCustomFields_def a h by (rule refl)
  show "extractContactBits (p\<lparr> event_id := x \<rparr>) = extractContactBits p"
    unfolding extractContactBits_def a h by (rule refl)
qed

lemma payload_no_event_parts:
  "buildLeadCustomFields lc (FieldMapJson table_r1) payload_no_event =
     Inr [\<lparr> cf_field_id = FieldNum 214697, cf_value = Some (js ''a@b''), cf_enum_id = None \<rparr>]"
  "extractContactBits payload_no_event = contact_ab"
  "landing_id (form_response payload_no_event) = None"
  "submitted_at (form_response payload_no_event) = None"
  by (simp_all add: payload_no_event_def event_id_irrelevant build_payload_E2
      extract_payload_E2 payload_E2_fields)

theorem absent_event_id_never_duplicate_witness:
  "nonempty (token (form_response payload_no_event)) = Some (js ''T1'') \<and>
   nonempty (form_id (form_response payload_no_event)) = Some (js ''F1'') \<and>
   event_id payload_no_event = None \<and>
   find_existing (js ''T1'') (js ''F1'') (landing_id (form_response payload_no_event))
     (submissions (ledger_501\<lparr> submissions := [row_501\<lparr> last_event_id := None \<rparr>] \<rparr>)) =
     Some (row_501\<lparr> last_event_id := None \<rparr>) \<and>
   fst (typeform_webhook remote_accepting env_static payload_no_event
          (ledger_501\<lparr> submissions := [row_501\<lparr> last_event_id := None \<rparr>] \<rparr>)) =
     \<lparr> http_status = 200, ok = True, reply_leadId = Some 501, reply_contactId = Some 800,
       reply_error = None \<rparr> \<and>
   accepted
     (exchanges (snd (typeform_webhook remote_accepting env_static payload_no_event
                        (ledger_501\<lparr> submissions := [row_501\<lparr> last_event_id := None \<rparr>] \<rparr>)))) =
     [contact_create_call contact_ab, contact_update_call 800 contact_ab, link_call 501 800,
      lead_update_call 501
        [\<lparr> cf_field_id = FieldNum 214697, cf_value = Some (js ''a@b''), cf_enum_id = None \<rparr>],
      note_call 501 (stringifyAnswers payload_no_event)] \<and>
   (\<exists>row.
      find (\<lambda>r. response_token r = js ''T1'')
        (submissions (snd (typeform_webhook remote_accepting env_static payload_no_event
                            (ledger_501\<lparr> submissions := [row_501\<lparr> last_event_id := None \<rparr>] \<rparr>)))) =
        Some row \<and>
      last_payload row = Some payload_no_event \<and> amo_lead_id row = Some 501 \<and>
      amo_contact_id row = Some 800)"
proof -
  let ?row = "row_501\<lparr> last_event_id := None \<rparr>"
  let ?w = "ledger_501\<lparr> submissions := [?row] \<rparr>"
  let ?run = "typeform_webhook remote_accepting env_static payload_no_event ?w"
  let ?fs = "[\<lparr> cf_field_id = FieldNum 214697, cf_value = Some (js ''a@b''),
                cf_enum_id = None \<rparr>]"
  note wf = payload_no_event_fields(1) payload_no_event_fields(2)
  have found: "find_existing (js ''T1'') (js ''F1'') (landing_id (form_response payload_no_event))
     (submissions ?w) = Some ?row"
    by (simp add: find_existing_def row_501_def)
  have found_any: "find_existing (js ''T1'') fid landing [?row] = Some ?row" for fid landing
    by (simp add: find_existing_def row_501_def)
  have nd: "\<not> is_duplicate (Some ?row) payload_no_event"
    by (simp add: is_duplicate_iff payload_no_event_fields(3))
  have "fst (createOrUpdateByTypeform remote_accepting static_config (Some 501) None
          (stringifyAnswers payload_no_event) (Some ?fs)
          contact_ab (logged (received_line payload_no_event (js ''T1'') (js ''F1'')) ?w)) =
        Inr \<lparr> leadId = 501, contactId = Some 800 \<rparr>"
    by (simp add: client_defs remote_accepting_def static_config_def contact_ab_def logged_def
        ledger_501_def created_response_def KV_distinct literals_nonempty js_def)
  then obtain w1 where run:
    "createOrUpdateByTypeform remote_accepting static_config (Some 501) None
       (stringifyAnswers payload_no_event) (Some ?fs)
       contact_ab (logged (received_line payload_no_event (js ''T1'') (js ''F1'')) ?w) =
     (Inr \<lparr> leadId = 501, contactId = Some 800 \<rparr>, w1)"
    by (metis prod.collapse)
  have rep: "fst ?run =
     \<lparr> http_status = 200, ok = True, reply_leadId = Some 501, reply_contactId = Some 800,
       reply_error = None \<rparr>"
    using nd
    by (simp add: typeform_webhook_def webhook_try_well_formed [OF wf] Let_def
        found_any env_static_def payload_no_event_parts
        existing_lead_def existing_contact_def row_501_ids run [simplified]
        upsert_undated [OF payload_no_event_parts(4)])
  then have ok: "http_status (fst ?run) = 200" by simp
  from absent_event_id_never_duplicate [OF wf, of remote_accepting env_static ?w]
    payload_no_event_fields(3) ok
  obtain xs fs r row where
    xs: "exchanges (snd ?run) = exchanges ?w @ xs"
    and fs: "buildLeadCustomFields (toLowerCase env_static) (TYPEFORM_FIELD_MAP env_static)
               payload_no_event = Inr fs"
    and r: "fst ?run = \<lparr> http_status = 200, ok = True, reply_leadId = Some (leadId r),
                         reply_contactId = contactId r, reply_error = None \<rparr>"
    and acc: "accepted xs =
                expected_calls (amocrm env_static)
                  (existing_lead
                     (find_existing (js ''T1'') (js ''F1'')
                        (landing_id (form_response payload_no_event)) (submissions ?w)))
                  (existing_contact
                     (find_existing (js ''T1'') (js ''F1'')
                        (landing_id (form_response payload_no_event)) (submissions ?w)))
                  (stringifyAnswers payload_no_event) (Some fs)
                  (extractContactBits payload_no_event) r"
    and row: "find (\<lambda>r. response_token r = js ''T1'') (submissions (snd ?run)) = Some row"
      "last_payload row = Some payload_no_event" "amo_lead_id row = Some (leadId r)"
      "\<forall>c. contactId r = Some c \<longrightarrow> amo_contact_id row = Some c"
    by blast
  from r rep have ids: "leadId r = 501" "contactId r = Some 800" by simp_all
  from fs have fs': "fs = ?fs" by (simp add: env_static_def payload_no_event_parts)
  have bits: "has_contact_bits contact_ab"
    by (simp add: has_contact_bits_def contact_ab_def truthy_simps js_def)
  from xs have "exchanges (snd ?run) = xs" by (simp add: ledger_501_def)
  with acc have "accepted (exchanges (snd ?run)) =
     [contact_create_call contact_ab, contact_update_call 800 contact_ab, link_call 501 800,
      lead_update_call 501 ?fs, note_call 501 (stringifyAnswers payload_no_event)]"
    by (simp add: found_any existing_lead_def existing_contact_def row_501_ids ids fs' bits
        payload_no_event_parts expected_calls_def truthy_num_def env_static_def)
  moreover from row ids have "\<exists>row.
      find (\<lambda>r. response_token r = js ''T1'') (submissions (snd ?run)) = Some row \<and>
      last_payload row = Some payload_no_event \<and> amo_lead_id row = Some 501 \<and>
      amo_contact_id row = Some 800"
    by auto
  ultimately show ?thesis
    using wf payload_no_event_fields(3) found rep by blast
qed


section \<open>A known lead without a contact\<close>

text \<open>
  Claim C4. Let the ledger hold, under the token of a well-formed delivery, a record
  with lead id \<open>l\<close> and no contact id; let the delivery not be a duplicate and carry a
  contact field. Then, however the delivery ends, no request to create a lead is sent and
  at most one contact creation is accepted. When the delivery is answered 200, exactly
  one contact creation was accepted; its contact \<open>c\<close> was linked to lead \<open>l\<close>; the reply
  and the ledger carry \<open>l\<close> and \<open>c\<close>; and the accepted calls were: create-contact,
  update-contact (when \<open>l\<close> is not 0), link, update-lead-custom-fields (when there are
  fields), add-note.
\<close>

theorem known_lead_gets_one_contact:
  fixes w :: "'r world"
  assumes "nonempty (token (form_response p)) = Some tok"
    and "nonempty (form_id (form_response p)) = Some fid"
    and "find (\<lambda>r. response_token r = tok) (submissions w) = Some ex"
    and "amo_lead_id ex = Some l" and "amo_contact_id ex = None"
    and "\<not> is_duplicate (Some ex) p"
    and "has_contact_bits (extractContactBits p)"
  shows "\<exists>xs.
     exchanges (snd (typeform_webhook srv env p w)) = exchanges w @ xs \<and>
     no_lead_create xs \<and> contacts_created xs \<le> 1 \<and>
     (http_status (fst (typeform_webhook srv env p w)) = 200 \<longrightarrow>
        (\<exists>c fs row.
           c \<noteq> 0 \<and> contacts_created xs = 1 \<and>
           fst (typeform_webhook srv env p w) =
             \<lparr> http_status = 200, ok = True, reply_leadId = Some l, reply_contactId = Some c,
               reply_error = None \<rparr> \<and>
           buildLeadCustomFields (toLowerCase env) (TYPEFORM_FIELD_MAP env) p = Inr fs \<and>
           accepted xs =
             [contact_create_call (extractContactBits p)] @
             (if l \<noteq> 0 then [contact_update_call c (extractContactBits p)] else []) @
             [link_call l c] @
             (if fs \<noteq> [] then [lead_update_call l fs] else []) @
             [note_call l (stringifyAnswers p)] \<and>
           find (\<lambda>r. response_token r = tok) (submissions (snd (typeform_webhook srv env p w))) =
             Some row \<and>
           amo_lead_id row = Some l \<and> amo_contact_id row = Some c))"
proof -
  let ?contact = "extractContactBits p"
  have existing: "find_existing tok fid (landing_id (form_response p)) (submissions w) = Some ex"
    using assms(3) by (simp add: find_existing_def)
  have ids: "existing_lead (Some ex) = Some l" "existing_contact (Some ex) = None"
    using assms(4,5) by (simp_all add: existing_lead_def existing_contact_def)
  from assms(1,2) show ?thesis
  proof (cases rule: handler_outcomes [where srv = srv and env = env and w = w])
    case duplicate
    with assms(6) existing show ?thesis by simp
  next
    case (config_error e)
    then show ?thesis
      by (intro exI [of _ "[]"])
        (simp add: logged_fields failure_reply_def no_lead_create_Nil contacts_created_Nil)
  next
    case (crm_error fs e w1)
    from createOrUpdate_log [OF crm_error(3)] obtain xs where
      xs: "crm_effect (logged (received_line p tok fid) w) w1 xs"
      "bounded_log (existing_lead (Some ex))
         (lead_create_call (amocrm env) (lead_name ?contact)) 1 xs"
      unfolding existing by blast
    from xs(1) have "exchanges w1 = exchanges w @ xs"
      by (simp add: crm_effect_def logged_fields)
    with xs(2) crm_error(4) show ?thesis
      by (intro exI [of _ xs])
        (simp add: logged_fields failure_reply_def bounded_log_def ids)
  next
    case (upsert_refused fs r w1)
    from createOrUpdate_log [OF upsert_refused(3)] obtain xs where
      xs: "crm_effect (logged (received_line p tok fid) w) w1 xs"
      "bounded_log (existing_lead (Some ex))
         (lead_create_call (amocrm env) (lead_name ?contact)) 1 xs"
      unfolding existing by blast
    from xs(1) have "exchanges w1 = exchanges w @ xs"
      by (simp add: crm_effect_def logged_fields)
    with xs(2) upsert_refused(5) show ?thesis
      by (intro exI [of _ xs])
        (simp add: logged_fields failure_reply_def bounded_log_def ids)
  next
    case (processed fs r w1)
    from createOrUpdate_log [OF processed(3)] obtain xs where
      xs: "crm_effect (logged (received_line p tok fid) w) w1 xs"
      "bounded_log (Some l) (lead_create_call (amocrm env) (lead_name ?contact)) 1 xs"
      "accepted xs =
         expected_calls (amocrm env) (Some l) None (stringifyAnswers p) (Some fs) ?contact r"
      "leadId r = l"
      "if has_contact_bits ?contact \<and> (\<not> truthy_num (Some l) \<or> \<not> truthy_num None)
       then \<exists>c. contactId r = Some c \<and> c \<noteq> 0
       else contactId r = (if \<not> truthy_num (Some l) then None else None)"
      unfolding existing ids by blast
    from xs(5) assms(7) obtain c where c: "contactId r = Some c" "c \<noteq> 0"
      by (auto simp: truthy_num_def)
    have acc: "accepted xs =
             [contact_create_call ?contact] @
             (if l \<noteq> 0 then [contact_update_call c ?contact] else []) @
             [link_call l c] @
             (if fs \<noteq> [] then [lead_update_call l fs] else []) @
             [note_call l (stringifyAnswers p)]"
      using xs(3,4) c assms(7) by (simp add: expected_calls_def truthy_num_def)
    then have one: "contacts_created xs = 1"
      by (simp add: contacts_created_def call_kinds)
    from xs(1) have ex: "exchanges w1 = exchanges w @ xs"
      by (simp add: crm_effect_def logged_fields)
    from upserted_row [OF processed(5)] obtain row where
      row: "find (\<lambda>x. response_token x = tok)
         (submissions (snd (upsertSubmission (to_instant env) (upsert_of p tok fid r) w1))) =
        Some row"
      "amo_lead_id row = Some l" "amo_contact_id row = Some c"
      using xs(4) c(1) by (auto simp: upsert_of_def)
    show ?thesis
    proof (intro exI [of _ xs] conjI impI)
      show "exchanges (snd (typeform_webhook srv env p w)) = exchanges w @ xs"
        using processed(4) ex by (simp add: logged_fields upsert_fields)
      show "no_lead_create xs" using xs(2) by (simp add: bounded_log_def)
      show "contacts_created xs \<le> 1" using one by simp
      show "\<exists>c fs row.
           c \<noteq> 0 \<and> contacts_created xs = 1 \<and>
           fst (typeform_webhook srv env p w) =
             \<lparr> http_status = 200, ok = True, reply_leadId = Some l, reply_contactId = Some c,
               reply_error = None \<rparr> \<and>
           buildLeadCustomFields (toLowerCase env) (TYPEFORM_FIELD_MAP env) p = Inr fs \<and>
           accepted xs =
             [contact_create_call ?contact] @
             (if l \<noteq> 0 then [contact_update_call c ?contact] else []) @
             [link_call l c] @
             (if fs \<noteq> [] then [lead_update_call l fs] else []) @
             [note_call l (stringifyAnswers p)] \<and>
           find (\<lambda>r. response_token r = tok) (submissions (snd (typeform_webhook srv env p w))) =
             Some row \<and>
           amo_lead_id row = Some l \<and> amo_contact_id row = Some c"
        using c one processed(2,4) xs(4) acc row
        by (intro exI [of _ c] exI [of _ fs] exI [of _ row]) (simp add: logged_fields)
    qed
  qed
qed

theorem known_lead_gets_one_contact_witness:
  "find (\<lambda>r. response_token r = js ''T1'') (submissions ledger_501) = Some row_501 \<and>
   amo_lead_id row_501 = Some 501 \<and> amo_contact_id row_501 = None \<and>
   \<not> is_duplicate (Some row_501) payload_E2 \<and>
   has_contact_bits (extractContactBits payload_E2) \<and>
   fst (typeform_webhook remote_accepting env_static payload_E2 ledger_501) =
     \<lparr> http_status = 200, ok = True, reply_leadId = Some 501, reply_contactId = Some 800,
       reply_error = None \<rparr> \<and>
   accepted (exchanges (snd (typeform_webhook remote_accepting env_static payload_E2 ledger_501))) =
     [contact_create_call contact_ab, contact_update_call 800 contact_ab, link_call 501 800,
      lead_update_call 501
        [\<lparr> cf_field_id = FieldNum 214697, cf_value = Some (js ''a@b''), cf_enum_id = None \<rparr>],
      note_call 501 (stringifyAnswers payload_E2)]"
proof -
  let ?run = "typeform_webhook remote_accepting env_static payload_E2 ledger_501"
  have found: "find (\<lambda>r. response_token r = js ''T1'') (submissions ledger_501) = Some row_501"
    by (simp add: ledger_501_def row_501_def)
  have bits: "has_contact_bits (extractContactBits payload_E2)"
    by (simp add: extract_payload_E2 has_contact_bits_def contact_ab_def truthy_simps js_def)
  from known_lead_gets_one_contact [OF payload_E2_fields(1) payload_E2_fields(2) found
      row_501_ids not_duplicate_501 bits, of remote_accepting env_static]
  obtain xs where xs: "exchanges (snd ?run) = exchanges ledger_501 @ xs"
    and ok: "http_status (fst ?run) = 200 \<longrightarrow>
        (\<exists>c fs.
           fst ?run =
             \<lparr> http_status = 200, ok = True, reply_leadId = Some 501, reply_contactId = Some c,
               reply_error = None \<rparr> \<and>
           buildLeadCustomFields (toLowerCase env_static) (TYPEFORM_FIELD_MAP env_static)
             payload_E2 = Inr fs \<and>
           accepted xs =
             [contact_create_call (extractContactBits payload_E2)] @
             (if (501::int) \<noteq> 0 then [contact_update_call c (extractContactBits payload_E2)]
              else []) @
             [link_call 501 c] @
             (if fs \<noteq> [] then [lead_update_call 501 fs] else []) @
             [note_call 501 (stringifyAnswers payload_E2)])"
    by blast
  from ok processed_E2 obtain c fs where
    r: "fst ?run =
          \<lparr> http_status = 200, ok = True, reply_leadId = Some 501, reply_contactId = Some c,
            reply_error = None \<rparr>"
    and f: "buildLeadCustomFields (toLowerCase env_static) (TYPEFORM_FIELD_MAP env_static)
              payload_E2 = Inr fs"
    and acc: "accepted xs =
             [contact_create_call (extractContactBits payload_E2)] @
             (if (501::int) \<noteq> 0 then [contact_update_call c (extractContactBits payload_E2)]
              else []) @
             [link_call 501 c] @
             (if fs \<noteq> [] then [lead_update_call 501 fs] else []) @
             [note_call 501 (stringifyAnswers payload_E2)]"
    by auto
  from r processed_E2 have c: "c = 800" by simp
  from f have fs: "fs = [\<lparr> cf_field_id = FieldNum 214697, cf_value = Some (js ''a@b''),
                           cf_enum_id = None \<rparr>]"
    by (simp add: env_static_def build_payload_E2)
  from xs have "exchanges (snd ?run) = xs" by (simp add: ledger_501_def)
  with acc have "accepted (exchanges (snd ?run)) =
     [contact_create_call contact_ab, contact_update_call 800 contact_ab, link_call 501 800,
      lead_update_call 501
        [\<lparr> cf_field_id = FieldNum 214697, cf_value = Some (js ''a@b''), cf_enum_id = None \<rparr>],
      note_call 501 (stringifyAnswers payload_E2)]"
    by (simp add: c fs extract_payload_E2)
  with found row_501_ids not_duplicate_501 bits processed_E2 show ?thesis by blast
qed

section \<open>A delivery the ledger refuses\<close>

lemma submitted_at_irrelevant:
  "buildLeadCustomFields lc raw (p\<lparr> form_response := (form_response p)\<lparr> submitted_at := x \<rparr> \<rparr>) =
     buildLeadCustomFields lc raw p"
  "extractContactBits (p\<lparr> form_response := (form_response p)\<lparr> submitted_at := x \<rparr> \<rparr>) =
     extractContactBits p"
proof -
  let ?p = "p\<lparr> form_response := (form_response p)\<lparr> submitted_at := x \<rparr> \<rparr>"
  have a: "answers_of ?p = answers_of p" and h: "hidden_of ?p = hidden_of p"
    by (simp_all add: answers_of_def hidden_of_def)
  show "buildLeadCustomFields lc raw ?p = buildLeadCustomFields lc raw p"
    unfolding buildLeadCustomFields_def a h by (rule refl)
  show "extractContactBits ?p = extractContactBits p"
    unfolding extractContactBits_def a h by (rule refl)
qed

lemma payload_misdated_parts:
  "nonempty (token (form_response payload_misdated)) = Some (js ''T1'')"
  "nonempty (form_id (form_response payload_misdated)) = Some (js ''F1'')"
  "buildLeadCustomFields lc (FieldMapJson table_r1) payload_misdated =
     Inr [\<lparr> cf_field_id = FieldNum 214697, cf_value = Some (js ''a@b''), cf_enum_id = None \<rparr>]"
  "extractContactBits payload_misdated = contact_ab"
  "landing_id (form_response payload_misdated) = None"
  "submitted_at (form_response payload_misdated) = Some (js ''soon'')"
  "event_id payload_misdated = Some (js ''E2'')"
  using payload_E2_fields
  by (simp_all add: payload_misdated_def submitted_at_irrelevant build_payload_E2
      extract_payload_E2)

text \<open>
  The delivery \<open>payload_misdated\<close> on the ledger with lead 501: the CRM accepts the whole
  reconciliation, the upsert is refused, the reply is 500 and the ledger is as it was.
\<close>

lemma misdated_delivery:
  "fst (typeform_webhook remote_accepting env_static payload_misdated ledger_501) =
     failure_reply InvalidTimestamp \<and>
   submissions (snd (typeform_webhook remote_accepting env_static payload_misdated ledger_501)) =
     [row_501] \<and>
   accepted
     (exchanges (snd (typeform_webhook remote_accepting env_static payload_misdated ledger_501))) =
     [contact_create_call contact_ab, contact_update_call 800 contact_ab, link_call 501 800,
      lead_update_call 501
        [\<lparr> cf_field_id = FieldNum 214697, cf_value = Some (js ''a@b''), cf_enum_id = None \<rparr>],
      note_call 501 (stringifyAnswers payload_misdated)]"
proof -
  let ?fs = "[\<lparr> cf_field_id = FieldNum 214697, cf_value = Some (js ''a@b''),
                cf_enum_id = None \<rparr>]"
  let ?w0 = "logged (received_line payload_misdated (js ''T1'') (js ''F1'')) ledger_501"
  let ?r = "\<lparr> leadId = 501, contactId = Some 800 \<rparr>"
  note wf = payload_misdated_parts(1) payload_misdated_parts(2)
  have nd: "\<not> is_duplicate (Some row_501) payload_misdated"
    by (simp add: is_duplicate_def row_501_def payload_misdated_parts js_def)
  obtain w1 where run:
    "createOrUpdateByTypeform remote_accepting static_config (Some 501) None
       (stringifyAnswers payload_misdated) (Some ?fs) contact_ab ?w0 = (Inr ?r, w1)"
    using accepting_existing_lead by (metis prod.collapse)
  have refused: "upsertSubmission one_date
      (upsert_of payload_misdated (js ''T1'') (js ''F1'') ?r) w1 = (Inl InvalidTimestamp, w1)"
    by (rule upsertSubmission_refused [where s = "js ''soon''"])
      (simp_all add: upsert_of_def payload_misdated_parts one_date_simps)
  have whole: "typeform_webhook remote_accepting env_static payload_misdated ledger_501 =
     (failure_reply InvalidTimestamp, logged (Webhook_error InvalidTimestamp) w1)"
    using nd
    by (simp add: typeform_webhook_def webhook_try_well_formed [OF wf] Let_def
        payload_misdated_parts existing_ledger_501 env_static_def existing_lead_def
        existing_contact_def row_501_ids run [unfolded logged_def] refused failure_reply_def
        logged_def)
  from createOrUpdate_log [OF run] obtain xs where
    xs: "crm_effect ?w0 w1 xs"
    "accepted xs = expected_calls static_config (Some 501) None
       (stringifyAnswers payload_misdated) (Some ?fs) contact_ab ?r"
    by blast
  have bits: "has_contact_bits contact_ab"
    by (simp add: has_contact_bits_def contact_ab_def truthy_simps js_def)
  from xs(1) have "exchanges w1 = xs" "submissions w1 = [row_501]"
    by (simp_all add: crm_effect_def logged_fields ledger_501_def)
  with xs(2) bits show ?thesis
    by (simp add: whole logged_fields expected_calls_def truthy_num_def)
qed

end
